theory Spec2Isabelle
  imports Complex_Main
begin

section \<open>Data model (src/types.ts)\<close>

text \<open>
  Numbers. The TypeScript source computes with \<open>number\<close>. Coordinates, radii, speeds and
  times are modelled as \<^typ>\<open>real\<close> (exact arithmetic: no rounding, no NaN, no infinity);
  the counters \<open>hp\<close>, \<open>maxHp\<close>, \<open>ammo\<close>, \<open>damage\<close>, the enemy's score value
  and the score, which the program only ever initialises with integer literals and changes by
  adding or subtracting such fields and literals, are modelled as \<^typ>\<open>int\<close>.

  Identifiers. The source builds ids with template literals (\<open>`enemy-${now}`\<close>); the model
  keeps the tag and the numbers the literal is built from. The ids of remote players come
  from the network as strings and stay strings.
\<close>

record Vector2 =
  vec_x :: real
  vec_y :: real

datatype entity_id =
    PlayerId
  | EnemyId real
  | BulletId real
  | HealthPackId real
  | ParticleId real nat
  | WallId nat
  | CactusId nat

record Entity =
  ident :: entity_id
  position :: Vector2
  velocity :: Vector2
  radius :: real
  color :: string

record Player = Entity +
  hp :: int
  maxHp :: int
  speed :: real
  name :: "string option"
  ammo :: int

record RemotePlayer =
  remote_id :: string
  remote_position :: Vector2
  remote_velocity :: Vector2
  remote_color :: string
  remote_name :: "string option"
  remote_hp :: int
  remote_kills :: int

record Enemy = Entity +
  enemy_hp :: int
  enemy_speed :: real
  enemy_value :: int

record Bullet = Entity +
  damage :: int
  ownerId :: "entity_id option"

record Particle = Entity +
  life :: real
  maxLife :: real

record Wall =
  wall_id :: entity_id
  wall_x :: real
  wall_y :: real
  wall_width :: real
  wall_height :: real
  isLow :: bool

datatype decoration_type = CACTUS

record Decoration =
  decor_id :: entity_id
  decor_x :: real
  decor_y :: real
  decor_type :: decoration_type
  decor_scale :: real
  decor_rotation :: real
  decor_radius :: real

record HealthPack = Entity +
  active :: bool

record LevelConfig =
  themeName :: string
  missionDescription :: string
  enemyColor :: string
  enemySpeed :: real
  enemySpawnRate :: real
  playerColor :: string
  playerSpeed :: real
  bulletColor :: string
  backgroundColor :: string

datatype GameState = MENU | LOBBY | LOADING | PLAYING | SPECTATING | GAME_OVER | LEADERBOARD


section \<open>Geometry kernel (src/components/GameCanvas.tsx, lines 88-182)\<close>

text \<open>
  \<open>resolveWallCollision\<close> mutates \<open>entity.position\<close> in place and touches nothing else; the
  model returns the entity with the new position. It takes any extension of \<open>Entity\<close>
  (the source calls it with the player and with enemies).
\<close>

definition resolveWallCollision :: "'a Entity_scheme \<Rightarrow> Wall \<Rightarrow> 'a Entity_scheme" where
  "resolveWallCollision entity wall =
    (let closestX = max (wall_x wall) (min (vec_x (position entity)) (wall_x wall + wall_width wall));
         closestY = max (wall_y wall) (min (vec_y (position entity)) (wall_y wall + wall_height wall));
         dx = vec_x (position entity) - closestX;
         dy = vec_y (position entity) - closestY;
         distanceSquared = dx * dx + dy * dy
     in if distanceSquared < radius entity * radius entity \<and> distanceSquared > 0 then
          (let distance = sqrt distanceSquared;
               overlap = radius entity - distance;
               nx = dx / distance;
               ny = dy / distance
           in entity\<lparr>position :=
                \<lparr>vec_x = vec_x (position entity) + nx * overlap,
                 vec_y = vec_y (position entity) + ny * overlap\<rparr>\<rparr>)
        else entity)"

text \<open>
  \<open>resolveDecorationCollision\<close> returns whether a collision occurred, together with the
  (possibly moved) entity.
\<close>

definition resolveDecorationCollision :: "'a Entity_scheme \<Rightarrow> Decoration \<Rightarrow> bool \<times> 'a Entity_scheme" where
  "resolveDecorationCollision entity decor =
    (let dx = vec_x (position entity) - decor_x decor;
         dy = vec_y (position entity) - decor_y decor;
         distSq = dx * dx + dy * dy;
         minRadius = radius entity + decor_radius decor
     in if distSq < minRadius * minRadius \<and> distSq > 0 then
          (let dist = sqrt distSq;
               overlap = minRadius - dist;
               nx = dx / dist;
               ny = dy / dist
           in (True, entity\<lparr>position :=
                \<lparr>vec_x = vec_x (position entity) + nx * overlap,
                 vec_y = vec_y (position entity) + ny * overlap\<rparr>\<rparr>))
        else (False, entity))"

definition checkBulletWallCollision :: "Bullet \<Rightarrow> Wall \<Rightarrow> bool" where
  "checkBulletWallCollision bullet wall =
    (if isLow wall then False
     else
       (let closestX = max (wall_x wall) (min (vec_x (position bullet)) (wall_x wall + wall_width wall));
            closestY = max (wall_y wall) (min (vec_y (position bullet)) (wall_y wall + wall_height wall));
            dx = vec_x (position bullet) - closestX;
            dy = vec_y (position bullet) - closestY
        in dx * dx + dy * dy < radius bullet * radius bullet))"

text \<open>The result of \<open>getIntersection\<close>: \<open>None\<close> is the source's \<open>null\<close>.\<close>

record Intersection =
  hit_x :: real
  hit_y :: real
  param :: real

definition getIntersection :: "Vector2 \<Rightarrow> Vector2 \<Rightarrow> Vector2 \<Rightarrow> Vector2 \<Rightarrow> Intersection option" where
  "getIntersection rayStart rayEnd segmentStart segmentEnd =
    (let r_px = vec_x rayStart;
         r_py = vec_y rayStart;
         r_dx = vec_x rayEnd - vec_x rayStart;
         r_dy = vec_y rayEnd - vec_y rayStart;
         s_px = vec_x segmentStart;
         s_py = vec_y segmentStart;
         s_dx = vec_x segmentEnd - vec_x segmentStart;
         s_dy = vec_y segmentEnd - vec_y segmentStart;
         r_mag = sqrt (r_dx * r_dx + r_dy * r_dy);
         s_mag = sqrt (s_dx * s_dx + s_dy * s_dy)
     in if r_mag * s_mag = 0 then None
        else
          (let denominator = r_dx * s_dy - r_dy * s_dx
           in if denominator = 0 then None
              else
                (let t = ((s_px - r_px) * s_dy - (s_py - r_py) * s_dx) / denominator;
                     u = ((s_px - r_px) * r_dy - (s_py - r_py) * r_dx) / denominator
                 in if t > 0 \<and> t \<le> 1 \<and> u \<ge> 0 \<and> u \<le> 1 then
                      Some \<lparr>hit_x = r_px + t * r_dx, hit_y = r_py + t * r_dy, param = t\<rparr>
                    else None)))"

text \<open>
  The quantities the geometry claims speak about: the closest point of a rectangle to a
  point (the first two lines of \<open>resolveWallCollision\<close> and of
  \<open>checkBulletWallCollision\<close>), the Euclidean distance, and the three local values
  \<open>denominator\<close>, \<open>t\<close> and \<open>u\<close> of \<open>getIntersection\<close>.
\<close>

definition closestPoint :: "Vector2 \<Rightarrow> Wall \<Rightarrow> Vector2" where
  "closestPoint p wall =
    \<lparr>vec_x = max (wall_x wall) (min (vec_x p) (wall_x wall + wall_width wall)),
     vec_y = max (wall_y wall) (min (vec_y p) (wall_y wall + wall_height wall))\<rparr>"

definition pointDistance :: "Vector2 \<Rightarrow> Vector2 \<Rightarrow> real" where
  "pointDistance p q =
     sqrt ((vec_x p - vec_x q) * (vec_x p - vec_x q) + (vec_y p - vec_y q) * (vec_y p - vec_y q))"

definition rayDenominator :: "Vector2 \<Rightarrow> Vector2 \<Rightarrow> Vector2 \<Rightarrow> Vector2 \<Rightarrow> real" where
  "rayDenominator rayStart rayEnd segmentStart segmentEnd =
     (vec_x rayEnd - vec_x rayStart) * (vec_y segmentEnd - vec_y segmentStart) -
     (vec_y rayEnd - vec_y rayStart) * (vec_x segmentEnd - vec_x segmentStart)"

definition rayParameter :: "Vector2 \<Rightarrow> Vector2 \<Rightarrow> Vector2 \<Rightarrow> Vector2 \<Rightarrow> real" where
  "rayParameter rayStart rayEnd segmentStart segmentEnd =
     ((vec_x segmentStart - vec_x rayStart) * (vec_y segmentEnd - vec_y segmentStart) -
      (vec_y segmentStart - vec_y rayStart) * (vec_x segmentEnd - vec_x segmentStart)) /
     rayDenominator rayStart rayEnd segmentStart segmentEnd"

definition segmentParameter :: "Vector2 \<Rightarrow> Vector2 \<Rightarrow> Vector2 \<Rightarrow> Vector2 \<Rightarrow> real" where
  "segmentParameter rayStart rayEnd segmentStart segmentEnd =
     ((vec_x segmentStart - vec_x rayStart) * (vec_y rayEnd - vec_y rayStart) -
      (vec_y segmentStart - vec_y rayStart) * (vec_x rayEnd - vec_x rayStart)) /
     rayDenominator rayStart rayEnd segmentStart segmentEnd"


section \<open>Safe spawn search (GameCanvas.tsx, lines 370-405)\<close>

text \<open>
  \<open>Math.random()\<close> is modelled by a sequence \<open>rng\<close> of reals and the index of the next
  value to be drawn; a function that draws returns the advanced index. The \<open>for\<close> loop
  over at most \<open>MAX_ATTEMPTS\<close> iterations is a recursion on the attempts that remain; the
  inner loop over the walls, which only sets \<open>safe = false\<close> and breaks, is \<open>list_ex\<close>.
\<close>

fun spawnAttempts :: "nat \<Rightarrow> Wall list \<Rightarrow> real \<Rightarrow> real \<Rightarrow> real \<Rightarrow> (nat \<Rightarrow> real) \<Rightarrow> nat \<Rightarrow> Vector2 \<times> nat" where
  "spawnAttempts 0 walls mapW mapH padding rng k = (\<lparr>vec_x = 0, vec_y = 0\<rparr>, k)"
| "spawnAttempts (Suc n) walls mapW mapH padding rng k =
    (let x = (rng k * 2 - 1) * (mapW - padding);
         y = (rng (Suc k) * 2 - 1) * (mapH - padding);
         playerRadius = 20;
         safe = \<not> list_ex (\<lambda>wall.
                  x + playerRadius > wall_x wall \<and> x - playerRadius < wall_x wall + wall_width wall \<and>
                  y + playerRadius > wall_y wall \<and> y - playerRadius < wall_y wall + wall_height wall) walls
     in if safe then (\<lparr>vec_x = x, vec_y = y\<rparr>, Suc (Suc k))
        else spawnAttempts n walls mapW mapH padding rng (Suc (Suc k)))"

definition findSafeSpawnPosition :: "Wall list \<Rightarrow> string \<Rightarrow> (nat \<Rightarrow> real) \<Rightarrow> nat \<Rightarrow> Vector2 \<times> nat" where
  "findSafeSpawnPosition walls mapName rng k =
    (let MAX_ATTEMPTS = 50;
         PADDING = 100;
         mapW = (if mapName = ''Wasteland'' then 1600 / 2 else 1200);
         mapH = (if mapName = ''Wasteland'' then 2000 / 2 else 1200)
     in spawnAttempts MAX_ATTEMPTS walls mapW mapH PADDING rng k)"


section \<open>The simulation state and one frame of \<open>gameLoop\<close> (GameCanvas.tsx, lines 51-85 and 516-890)\<close>

text \<open>
  The callbacks of the presentation boundary and the fire-and-forget sounds are recorded, in
  the order the frame invokes them, in the list \<open>events\<close>.
\<close>

datatype event =
    SetScore int
  | SetHealth int
  | SetAmmo int
  | OnGameOver string
  | OnKill
  | OnRoundEnd
  | OnPlayerUpdate Vector2
  | PlayShoot
  | PlayEnemyDeath
  | PlayPlayerDamage

text \<open>The mutable refs of the component, with the random source and the event log.\<close>

record World =
  player :: Player
  enemies :: "Enemy list"
  bullets :: "Bullet list"
  particles :: "Particle list"
  walls :: "Wall list"
  healthPacks :: "HealthPack list"
  decorations :: "Decoration list"
  score :: int
  lastSpawnTime :: real
  lastHealthPackTime :: real
  lastUpdateEmit :: real
  lastCactusDamageTime :: real
  lastShotTime :: real
  rng :: "nat \<Rightarrow> real"
  rngPos :: nat
  events :: "event list"

text \<open>
  What one call of \<open>gameLoop\<close> reads and does not write: the timestamp, the props, the
  input refs (written by the DOM handlers only) and the canvas size. \<open>canvas = None\<close> stands
  for a missing canvas or 2D context; an optional callback is a flag saying whether it was
  supplied. \<open>dateNow\<close> is the value of \<open>Date.now()\<close> during the frame. The props that the
  closure captured (\<open>levelConfig\<close>, \<open>isMultiplayer\<close>) and the ones read through
  \<open>currentProps\<close> are taken to be those of the same render.
\<close>

record Frame =
  time :: real
  dateNow :: real
  gameState :: GameState
  canvas :: "(real \<times> real) option"
  keys :: "string \<Rightarrow> bool"
  mouse :: Vector2
  isMouseDown :: bool
  remotePlayers :: "RemotePlayer list"
  spectatorTargetId :: "string option"
  isMultiplayer :: bool
  levelConfig :: LevelConfig
  hasSetAmmo :: bool
  hasOnPlayerUpdate :: bool
  hasOnKill :: bool
  hasOnRoundEnd :: bool

definition FIRE_RATE :: real where
  "FIRE_RATE = 500"

definition HEALTH_PACK_INTERVAL :: real where
  "HEALTH_PACK_INTERVAL = 30000"

definition mathRandom :: "World \<Rightarrow> real \<times> World" where
  "mathRandom s = (rng s (rngPos s), s\<lparr>rngPos := Suc (rngPos s)\<rparr>)"

definition emit :: "event \<Rightarrow> World \<Rightarrow> World" where
  "emit ev s = s\<lparr>events := events s @ [ev]\<rparr>"

text \<open>
  \<open>Math.atan2\<close> on reals (there is no signed zero; \<open>atan2 0 0 = 0\<close> as in ECMAScript).
\<close>

definition atan2 :: "real \<Rightarrow> real \<Rightarrow> real" where
  "atan2 y x =
    (if x > 0 then arctan (y / x)
     else if x < 0 then (if y \<ge> 0 then arctan (y / x) + pi else arctan (y / x) - pi)
     else if y > 0 then pi / 2
     else if y < 0 then - (pi / 2)
     else 0)"

fun createParticlesFrom :: "nat \<Rightarrow> nat \<Rightarrow> real \<Rightarrow> real \<Rightarrow> real \<Rightarrow> string \<Rightarrow> World \<Rightarrow> World" where
  "createParticlesFrom i 0 now x y col s = s"
| "createParticlesFrom i (Suc n) now x y col s =
    (let (r1, s1) = mathRandom s;
         angle = r1 * pi * 2;
         (r2, s2) = mathRandom s1;
         speed = r2 * 3;
         (r3, s3) = mathRandom s2;
         p = \<lparr>ident = ParticleId now i,
              position = \<lparr>vec_x = x, vec_y = y\<rparr>,
              velocity = \<lparr>vec_x = cos angle * speed, vec_y = sin angle * speed\<rparr>,
              radius = r3 * 3,
              color = col,
              life = 1,
              maxLife = 1\<rparr>
     in createParticlesFrom (Suc i) n now x y col (s3\<lparr>particles := particles s3 @ [p]\<rparr>))"

definition createParticles :: "Frame \<Rightarrow> real \<Rightarrow> real \<Rightarrow> string \<Rightarrow> nat \<Rightarrow> World \<Rightarrow> World" where
  "createParticles f x y col count s = createParticlesFrom 0 count (dateNow f) x y col s"

subsection \<open>Step 1: player movement, wall and cactus collisions (lines 629-686)\<close>

text \<open>
  The \<open>forEach\<close> over the decorations for the player: it threads the moved player and the
  flag \<open>hitCactus\<close>.
\<close>

fun playerDecorations :: "Player \<Rightarrow> bool \<Rightarrow> Decoration list \<Rightarrow> bool \<times> Player" where
  "playerDecorations p hitCactus [] = (hitCactus, p)"
| "playerDecorations p hitCactus (decor # ds) =
    (let (collided, p') = resolveDecorationCollision p decor
     in playerDecorations p'
          (if collided then (if decor_type decor = CACTUS then True else hitCactus) else hitCactus) ds)"

text \<open>
  The first half of step 1: the velocity from the four keys, the position integration and
  the wall resolution, applied to the player record.
\<close>

definition steerPlayer :: "Frame \<Rightarrow> Wall list \<Rightarrow> Player \<Rightarrow> Player" where
  "steerPlayer f ws p =
    (let moveX = (0::real);
         moveY = (0::real);
         moveY = (if keys f ''w'' then moveY - 1 else moveY);
         moveY = (if keys f ''s'' then moveY + 1 else moveY);
         moveX = (if keys f ''a'' then moveX - 1 else moveX);
         moveX = (if keys f ''d'' then moveX + 1 else moveX);
         len = sqrt (moveX * moveX + moveY * moveY);
         p = (if len > 0
              then p\<lparr>velocity := \<lparr>vec_x = (moveX / len) * speed p, vec_y = (moveY / len) * speed p\<rparr>\<rparr>
              else p\<lparr>velocity := \<lparr>vec_x = 0, vec_y = 0\<rparr>\<rparr>);
         p = p\<lparr>position := \<lparr>vec_x = vec_x (position p) + vec_x (velocity p),
                             vec_y = vec_y (position p) + vec_y (velocity p)\<rparr>\<rparr>
     in foldl resolveWallCollision p ws)"

definition movePlayer :: "Frame \<Rightarrow> World \<Rightarrow> World" where
  "movePlayer f s =
    (if hp (player s) > 0 \<and> gameState f = PLAYING then
       (let p = steerPlayer f (walls s) (player s);
            (hitCactus, p) = playerDecorations p False (decorations s);
            s = s\<lparr>player := p\<rparr>;
            s = (if hitCactus \<and> hp p > 0 then
                   (if time f - lastCactusDamageTime s > 1000 then
                      (let p = p\<lparr>hp := hp p - 2\<rparr>;
                           s = s\<lparr>player := p\<rparr>;
                           s = emit (SetHealth (max 0 (hp p))) s;
                           s = emit PlayPlayerDamage s;
                           s = createParticles f (vec_x (position p)) (vec_y (position p)) ''#ef4444'' 3 s;
                           s = s\<lparr>lastCactusDamageTime := time f\<rparr>
                       in if hp p \<le> 0 then emit (OnGameOver ''Cactus'') s else s)
                    else s)
                 else s)
        in if hasOnPlayerUpdate f \<and> time f - lastUpdateEmit s > 50
           then (emit (OnPlayerUpdate \<lparr>vec_x = vec_x (position (player s)), vec_y = vec_y (position (player s))\<rparr>) s)
                  \<lparr>lastUpdateEmit := time f\<rparr>
           else s)
     else s)"

subsection \<open>Round-end check (lines 688-702)\<close>

definition roundEndCheck :: "Frame \<Rightarrow> World \<Rightarrow> World" where
  "roundEndCheck f s =
    (if length (remotePlayers f) > 0 \<and> hasOnRoundEnd f \<and>
        (gameState f = PLAYING \<or> gameState f = SPECTATING) then
       (let activeRemote = length (filter (\<lambda>p. remote_hp p > 0) (remotePlayers f));
            localAlive = (if hp (player s) > 0 then 1 else 0);
            totalAlive = activeRemote + localAlive
        in if totalAlive \<le> (1::nat) then emit OnRoundEnd s else s)
     else s)"

subsection \<open>Steps 2 and 3: aim and shooting (lines 704-739)\<close>

definition aimAngle :: "Frame \<Rightarrow> real \<Rightarrow> real \<Rightarrow> real" where
  "aimAngle f canvasWidth canvasHeight =
    (let centerX = canvasWidth / 2;
         centerY = canvasHeight / 2
     in atan2 (vec_y (mouse f) - centerY) (vec_x (mouse f) - centerX))"

definition shoot :: "Frame \<Rightarrow> real \<Rightarrow> World \<Rightarrow> World" where
  "shoot f aim s =
    (if hp (player s) > 0 \<and> gameState f = PLAYING then
       (if isMouseDown f \<and> time f - lastShotTime s > FIRE_RATE then
          (if ammo (player s) > 0 then
             (let s = emit PlayShoot s;
                  s = s\<lparr>player := (player s)\<lparr>ammo := ammo (player s) - 1\<rparr>\<rparr>;
                  s = (if hasSetAmmo f then emit (SetAmmo (ammo (player s))) s else s);
                  bulletSpeed = 12;
                  spawnX = vec_x (position (player s)) + cos aim * 25;
                  spawnY = vec_y (position (player s)) + sin aim * 25;
                  s = s\<lparr>bullets := bullets s @
                        [\<lparr>ident = BulletId (time f),
                          position = \<lparr>vec_x = spawnX, vec_y = spawnY\<rparr>,
                          velocity = \<lparr>vec_x = cos aim * bulletSpeed, vec_y = sin aim * bulletSpeed\<rparr>,
                          radius = 4,
                          color = bulletColor (levelConfig f),
                          damage = 20,
                          ownerId = Some (ident (player s))\<rparr>]\<rparr>
              in s\<lparr>lastShotTime := time f\<rparr>)
           else s)
        else s)
     else s)"

subsection \<open>Step 4: spawning (lines 516-593 and 741-754)\<close>

text \<open>
  \<open>spawnEnemy\<close> and \<open>spawnHealthPack\<close> are called from \<open>gameLoop\<close> only, after the frame has
  found its canvas; their own \<open>if (!canvas) return\<close> can therefore not fire, and the model
  passes the canvas size to \<open>spawnEnemy\<close> (\<open>spawnHealthPack\<close> does not read it).
\<close>

text \<open>
  The camera target. \<open>spectatorTargetId\<close> is a \<open>string | null\<close> tested for truthiness: \<open>null\<close>
  and the empty string both leave the camera on the local player.
\<close>

definition cameraPos :: "Frame \<Rightarrow> World \<Rightarrow> Vector2" where
  "cameraPos f s =
    (if gameState f = SPECTATING \<and> spectatorTargetId f \<noteq> None \<and> spectatorTargetId f \<noteq> Some '''' then
       (case find (\<lambda>p. Some (remote_id p) = spectatorTargetId f) (remotePlayers f) of
          Some target \<Rightarrow> remote_position target
        | None \<Rightarrow> position (player s))
     else position (player s))"

definition insideWall :: "real \<Rightarrow> real \<Rightarrow> Wall \<Rightarrow> bool" where
  "insideWall x y wall =
    (x > wall_x wall \<and> x < wall_x wall + wall_width wall \<and>
     y > wall_y wall \<and> y < wall_y wall + wall_height wall)"

definition spawnEnemy :: "Frame \<Rightarrow> real \<Rightarrow> real \<Rightarrow> real \<Rightarrow> Vector2 \<Rightarrow> World \<Rightarrow> World" where
  "spawnEnemy f canvasWidth canvasHeight now playerPos s =
    (if hp (player s) \<le> 0 then s
     else if isMultiplayer f then s
     else if now - lastSpawnTime s > enemySpawnRate (levelConfig f) then
       (let spawnRadius = max canvasWidth canvasHeight / 2 + 100;
            (r, s) = mathRandom s;
            angle = r * pi * 2;
            x = vec_x playerPos + cos angle * spawnRadius;
            y = vec_y playerPos + sin angle * spawnRadius;
            inWall = list_ex (insideWall x y) (walls s)
        in if \<not> inWall then
             (let (r1, s) = mathRandom s;
                  (r2, s) = mathRandom s;
                  s = s\<lparr>enemies := enemies s @
                        [\<lparr>ident = EnemyId now,
                          position = \<lparr>vec_x = x, vec_y = y\<rparr>,
                          velocity = \<lparr>vec_x = 0, vec_y = 0\<rparr>,
                          radius = 12 + r1 * 8,
                          color = enemyColor (levelConfig f),
                          enemy_hp = 1,
                          enemy_speed = enemySpeed (levelConfig f) * (0.8 + r2 * 0.4),
                          enemy_value = 10\<rparr>]\<rparr>
              in s\<lparr>lastSpawnTime := now\<rparr>)
           else s)
     else s)"

text \<open>
  The ten attempts of \<open>spawnHealthPack\<close>: a recursion on the attempts that remain; a
  successful attempt pushes the pack, resets the timer and breaks.
\<close>

fun healthPackAttempts :: "nat \<Rightarrow> real \<Rightarrow> World \<Rightarrow> World" where
  "healthPackAttempts 0 now s = s"
| "healthPackAttempts (Suc n) now s =
    (let mapSize = 1200;
         (r1, s) = mathRandom s;
         x = (r1 * 2 - 1) * mapSize;
         (r2, s) = mathRandom s;
         y = (r2 * 2 - 1) * mapSize;
         inWall = list_ex (insideWall x y) (walls s)
     in if \<not> inWall then
          (s\<lparr>healthPacks := healthPacks s @
               [\<lparr>ident = HealthPackId now,
                 position = \<lparr>vec_x = x, vec_y = y\<rparr>,
                 velocity = \<lparr>vec_x = 0, vec_y = 0\<rparr>,
                 radius = 15,
                 color = ''#22c55e'',
                 active = True\<rparr>]\<rparr>)\<lparr>lastHealthPackTime := now\<rparr>
        else healthPackAttempts n now s)"

definition spawnHealthPack :: "real \<Rightarrow> World \<Rightarrow> World" where
  "spawnHealthPack now s =
    (if now - lastHealthPackTime s > HEALTH_PACK_INTERVAL then healthPackAttempts 10 now s else s)"

subsection \<open>Step 5: bullet integration and despawn (lines 756-782)\<close>

definition integrateBullet :: "Bullet \<Rightarrow> Bullet" where
  "integrateBullet b =
     b\<lparr>position := \<lparr>vec_x = vec_x (position b) + vec_x (velocity b),
                      vec_y = vec_y (position b) + vec_y (velocity b)\<rparr>\<rparr>"

text \<open>
  The callback of \<open>bulletsRef.current.filter\<close>: it spawns the hit particles as a side
  effect, so the filter threads the world.
\<close>

fun filterBullets :: "Frame \<Rightarrow> Vector2 \<Rightarrow> real \<Rightarrow> Bullet list \<Rightarrow> World \<Rightarrow> Bullet list \<times> World" where
  "filterBullets f cam despawnDistance [] s = ([], s)"
| "filterBullets f cam despawnDistance (b # bs) s =
    (let dx = vec_x (position b) - vec_x cam;
         dy = vec_y (position b) - vec_y cam
     in if list_ex (checkBulletWallCollision b) (walls s) then
          filterBullets f cam despawnDistance bs
            (createParticles f (vec_x (position b)) (vec_y (position b)) ''#ffffff'' 3 s)
        else
          (let (rest, s') = filterBullets f cam despawnDistance bs s
           in (if sqrt (dx * dx + dy * dy) < despawnDistance then b # rest else rest, s')))"

definition updateBullets :: "Frame \<Rightarrow> real \<Rightarrow> real \<Rightarrow> Vector2 \<Rightarrow> World \<Rightarrow> World" where
  "updateBullets f canvasWidth canvasHeight cam s =
    (let despawnDistance = max canvasWidth canvasHeight * 1.5;
         moved = map integrateBullet (bullets s);
         (kept, s) = filterBullets f cam despawnDistance moved s
     in s\<lparr>bullets := kept\<rparr>)"

subsection \<open>Step 6: enemy steering and collisions (lines 784-838)\<close>

text \<open>
  The first half of the callback: steering towards the live player, position integration,
  wall and decoration resolution, applied to the enemy record.
\<close>

definition steerEnemy :: "World \<Rightarrow> Enemy \<Rightarrow> Enemy" where
  "steerEnemy s e =
    (let e = (if hp (player s) > 0 then
                (let dx = vec_x (position (player s)) - vec_x (position e);
                     dy = vec_y (position (player s)) - vec_y (position e);
                     minDist = sqrt (dx * dx + dy * dy)
                 in if minDist > 0
                    then e\<lparr>velocity := \<lparr>vec_x = (dx / minDist) * enemy_speed e,
                                        vec_y = (dy / minDist) * enemy_speed e\<rparr>\<rparr>
                    else e)
              else e);
         e = e\<lparr>position := \<lparr>vec_x = vec_x (position e) + vec_x (velocity e),
                              vec_y = vec_y (position e) + vec_y (velocity e)\<rparr>\<rparr>;
         e = foldl resolveWallCollision e (walls s)
     in foldl (\<lambda>e decor. snd (resolveDecorationCollision e decor)) e (decorations s))"

definition updateEnemy :: "Frame \<Rightarrow> Enemy \<Rightarrow> World \<Rightarrow> Enemy \<times> World" where
  "updateEnemy f e s =
    (let e = steerEnemy s e
     in if hp (player s) > 0 then
          (let dx2 = vec_x (position (player s)) - vec_x (position e);
               dy2 = vec_y (position (player s)) - vec_y (position e);
               dist2 = sqrt (dx2 * dx2 + dy2 * dy2)
           in if dist2 < radius (player s) + radius e then
                (let s = emit PlayPlayerDamage s;
                     s = s\<lparr>player := (player s)\<lparr>hp := hp (player s) - 10\<rparr>\<rparr>;
                     e = e\<lparr>enemy_hp := 0\<rparr>;
                     s = emit (SetHealth (max 0 (hp (player s)))) s;
                     s = createParticles f (vec_x (position e)) (vec_y (position e))
                           (playerColor (levelConfig f)) 10 s
                 in (e, if hp (player s) \<le> 0 then emit (OnGameOver ''Enemies'') s else s))
              else (e, s))
        else (e, s))"

fun updateEnemiesLoop :: "Frame \<Rightarrow> Enemy list \<Rightarrow> World \<Rightarrow> Enemy list \<times> World" where
  "updateEnemiesLoop f [] s = ([], s)"
| "updateEnemiesLoop f (e # es) s =
    (let (e', s1) = updateEnemy f e s;
         (es', s2) = updateEnemiesLoop f es s1
     in (e' # es', s2))"

definition updateEnemies :: "Frame \<Rightarrow> World \<Rightarrow> World" where
  "updateEnemies f s =
    (let (es, s) = updateEnemiesLoop f (enemies s) s in s\<lparr>enemies := es\<rparr>)"

subsection \<open>Step 7: bullet against enemy (lines 840-860)\<close>

definition bulletHitsEnemy :: "Bullet \<Rightarrow> Enemy \<Rightarrow> bool" where
  "bulletHitsEnemy b e =
    (let dx = vec_x (position b) - vec_x (position e);
         dy = vec_y (position b) - vec_y (position e);
         dist = sqrt (dx * dx + dy * dy)
     in dist < radius b + radius e)"

text \<open>The inner \<open>forEach\<close> over the enemies for one bullet, and the outer one over the bullets.\<close>

fun combatEnemies :: "Frame \<Rightarrow> Bullet \<Rightarrow> Enemy list \<Rightarrow> World \<Rightarrow> Bullet \<times> Enemy list \<times> World" where
  "combatEnemies f b [] s = (b, [], s)"
| "combatEnemies f b (e # es) s =
    (if bulletHitsEnemy b e then
       (let e = e\<lparr>enemy_hp := enemy_hp e - damage b\<rparr>;
            b = b\<lparr>damage := 0\<rparr>;
            s = (if enemy_hp e \<le> 0 then
                   (let s = emit PlayEnemyDeath s;
                        s = s\<lparr>score := score s + enemy_value e\<rparr>;
                        s = emit (SetScore (score s)) s;
                        s = (if hasOnKill f then emit OnKill s else s)
                    in createParticles f (vec_x (position e)) (vec_y (position e)) (color e) 8 s)
                 else s);
            (b', es', s') = combatEnemies f b es s
        in (b', e # es', s'))
     else
       (let (b', es', s') = combatEnemies f b es s
        in (b', e # es', s')))"

fun combatBullets :: "Frame \<Rightarrow> Bullet list \<Rightarrow> Enemy list \<Rightarrow> World \<Rightarrow> Bullet list \<times> Enemy list \<times> World" where
  "combatBullets f [] es s = ([], es, s)"
| "combatBullets f (b # bs) es s =
    (let (b', es1, s1) = combatEnemies f b es s;
         (bs', es2, s2) = combatBullets f bs es1 s1
     in (b' # bs', es2, s2))"

definition bulletEnemyCombat :: "Frame \<Rightarrow> World \<Rightarrow> World" where
  "bulletEnemyCombat f s =
    (let (bs, es, s) = combatBullets f (bullets s) (enemies s) s
     in s\<lparr>bullets := bs, enemies := es\<rparr>)"

subsection \<open>Step 8: health pack pickup (lines 862-878)\<close>

fun pickupLoop :: "Frame \<Rightarrow> HealthPack list \<Rightarrow> World \<Rightarrow> HealthPack list \<times> World" where
  "pickupLoop f [] s = ([], s)"
| "pickupLoop f (pack # packs) s =
    (let dx = vec_x (position (player s)) - vec_x (position pack);
         dy = vec_y (position (player s)) - vec_y (position pack);
         dist = sqrt (dx * dx + dy * dy)
     in if dist < radius (player s) + radius pack then
          (let s = s\<lparr>player := (player s)\<lparr>hp := maxHp (player s)\<rparr>\<rparr>;
               s = emit (SetHealth (hp (player s))) s;
               s = createParticles f (vec_x (position pack)) (vec_y (position pack)) ''#22c55e'' 10 s
           in pickupLoop f packs s)
        else
          (let (rest, s') = pickupLoop f packs s in (pack # rest, s')))"

definition healthPackPickup :: "Frame \<Rightarrow> World \<Rightarrow> World" where
  "healthPackPickup f s =
    (if hp (player s) > 0 then
       (let (packs, s) = pickupLoop f (healthPacks s) s in s\<lparr>healthPacks := packs\<rparr>)
     else s)"

subsection \<open>Step 9: cleanup and particles (lines 880-890)\<close>

definition cleanup :: "World \<Rightarrow> World" where
  "cleanup s =
    s\<lparr>bullets := filter (\<lambda>b. damage b > 0) (bullets s),
      enemies := filter (\<lambda>e. enemy_hp e > 0) (enemies s)\<rparr>"

definition updateParticles :: "World \<Rightarrow> World" where
  "updateParticles s =
    s\<lparr>particles := filter (\<lambda>p. life p > 0)
        (map (\<lambda>p. p\<lparr>position := \<lparr>vec_x = vec_x (position p) + vec_x (velocity p),
                                    vec_y = vec_y (position p) + vec_y (velocity p)\<rparr>,
                      life := life p - 0.02\<rparr>) (particles s))\<rparr>"

subsection \<open>The update part of \<open>gameLoop\<close> (lines 614-890)\<close>

text \<open>
  The frame returns at once unless the game is being played or spectated and the canvas
  with its 2D context exists. The render part that follows the update (from line 893 on)
  reads the world and writes none of it, so it is not part of the model.
\<close>

definition gameLoop :: "Frame \<Rightarrow> World \<Rightarrow> World" where
  "gameLoop f s =
    (if gameState f \<noteq> PLAYING \<and> gameState f \<noteq> SPECTATING then s
     else case canvas f of
       None \<Rightarrow> s
     | Some (canvasWidth, canvasHeight) \<Rightarrow>
        (let s = movePlayer f s;
             s = roundEndCheck f s;
             aim = aimAngle f canvasWidth canvasHeight;
             s = shoot f aim s;
             cam = cameraPos f s;
             s = spawnEnemy f canvasWidth canvasHeight (time f) cam s;
             s = (if gameState f = PLAYING then spawnHealthPack (time f) s else s);
             s = updateBullets f canvasWidth canvasHeight cam s;
             s = updateEnemies f s;
             s = bulletEnemyCombat f s;
             s = healthPackPickup f s;
             s = cleanup s
         in updateParticles s))"

text \<open>The player record that \<open>initGame\<close> installs (lines 443-455).\<close>

definition resetPlayer :: "LevelConfig \<Rightarrow> string \<Rightarrow> Vector2 \<Rightarrow> Player" where
  "resetPlayer cfg playerName spawnPos =
    \<lparr>ident = PlayerId,
     position = spawnPos,
     velocity = \<lparr>vec_x = 0, vec_y = 0\<rparr>,
     radius = 15,
     color = playerColor cfg,
     hp = 100,
     maxHp = 100,
     speed = playerSpeed cfg,
     name = Some playerName,
     ammo = 120\<rparr>"


section \<open>Reference scenario\<close>

text \<open>
  The fallback configuration of src/services/geminiService.ts, a frame in which the game is
  being played on an 800 by 600 canvas with no key pressed, the cursor at the screen centre
  and every optional callback supplied, and the world right after \<open>initGame\<close> on a map
  without walls, with a random source that always yields one half. The concrete examples
  below are variations of these.
\<close>

definition DEFAULT_LEVEL_CONFIG :: LevelConfig where
  "DEFAULT_LEVEL_CONFIG =
    \<lparr>themeName = ''Neon Basic'',
     missionDescription = ''Survive the initial wave. Keep moving.'',
     enemyColor = ''#ef4444'',
     enemySpeed = 1.5,
     enemySpawnRate = 2000,
     playerColor = ''#3b82f6'',
     playerSpeed = 4,
     bulletColor = ''#eab308'',
     backgroundColor = ''#0f172a''\<rparr>"

definition quietFrame :: Frame where
  "quietFrame =
    \<lparr>time = 100,
     dateNow = 0,
     gameState = PLAYING,
     canvas = Some (800, 600),
     keys = (\<lambda>k. False),
     mouse = \<lparr>vec_x = 400, vec_y = 300\<rparr>,
     isMouseDown = False,
     remotePlayers = [],
     spectatorTargetId = None,
     isMultiplayer = False,
     levelConfig = DEFAULT_LEVEL_CONFIG,
     hasSetAmmo = True,
     hasOnPlayerUpdate = True,
     hasOnKill = True,
     hasOnRoundEnd = True\<rparr>"

definition startWorld :: World where
  "startWorld =
    \<lparr>player = resetPlayer DEFAULT_LEVEL_CONFIG ''P1'' \<lparr>vec_x = 0, vec_y = 0\<rparr>,
     enemies = [],
     bullets = [],
     particles = [],
     walls = [],
     healthPacks = [],
     decorations = [],
     score = 0,
     lastSpawnTime = 0,
     lastHealthPackTime = 0,
     lastUpdateEmit = 0,
     lastCactusDamageTime = 0,
     lastShotTime = 0,
     rng = (\<lambda>i. 1 / 2),
     rngPos = 0,
     events = [SetScore 0, SetHealth 100, SetAmmo 120]\<rparr>"


text \<open>
  A bullet as \<open>shoot\<close> makes them (radius 4, damage 20, speed 12, here flying along the x
  axis) and an enemy as \<open>spawnEnemy\<close> makes them (hp 1, value 10, radius and speed for the
  random value one half), at a given position.
\<close>

definition bulletAt :: "real \<Rightarrow> real \<Rightarrow> Bullet" where
  "bulletAt px py =
    \<lparr>ident = BulletId 0,
     position = \<lparr>vec_x = px, vec_y = py\<rparr>,
     velocity = \<lparr>vec_x = 12, vec_y = 0\<rparr>,
     radius = 4,
     color = ''#eab308'',
     damage = 20,
     ownerId = Some PlayerId\<rparr>"

definition enemyAt :: "real \<Rightarrow> real \<Rightarrow> Enemy" where
  "enemyAt px py =
    \<lparr>ident = EnemyId 0,
     position = \<lparr>vec_x = px, vec_y = py\<rparr>,
     velocity = \<lparr>vec_x = 0, vec_y = 0\<rparr>,
     radius = 16,
     color = ''#ef4444'',
     enemy_hp = 1,
     enemy_speed = 1.5,
     enemy_value = 10\<rparr>"

text \<open>
  A cactus as \<open>generateCactuses\<close> makes them (radius 15; scale and rotation for the random
  value one half), and the reference world with the player standing at a given position.
\<close>

definition cactusAt :: "nat \<Rightarrow> real \<Rightarrow> real \<Rightarrow> Decoration" where
  "cactusAt i px py =
    \<lparr>decor_id = CactusId i,
     decor_x = px,
     decor_y = py,
     decor_type = CACTUS,
     decor_scale = 0.8 + (1 / 2) * 0.5,
     decor_rotation = (1 / 2) * pi * 2,
     decor_radius = 15\<rparr>"

definition standingAt :: "real \<Rightarrow> real \<Rightarrow> World" where
  "standingAt px py =
    startWorld\<lparr>player := resetPlayer DEFAULT_LEVEL_CONFIG ''P1'' \<lparr>vec_x = px, vec_y = py\<rparr>\<rparr>"


section \<open>Vocabulary for the spawn claims\<close>

text \<open>
  The \<open>i\<close>-th and \<open>i+1\<close>-th random values turned into a candidate position, the test the
  spawn search applies to a candidate (the body of its loop over the walls, with
  \<open>playerRadius = 20\<close>), and the half-extents the search uses for a map name.
\<close>

definition spawnSample :: "(nat \<Rightarrow> real) \<Rightarrow> real \<Rightarrow> real \<Rightarrow> real \<Rightarrow> nat \<Rightarrow> Vector2" where
  "spawnSample rnd mapW mapH padding i =
     \<lparr>vec_x = (rnd i * 2 - 1) * (mapW - padding), vec_y = (rnd (Suc i) * 2 - 1) * (mapH - padding)\<rparr>"

definition spawnClear :: "Wall list \<Rightarrow> Vector2 \<Rightarrow> bool" where
  "spawnClear ws p =
     (\<not> list_ex (\<lambda>wall.
         vec_x p + 20 > wall_x wall \<and> vec_x p - 20 < wall_x wall + wall_width wall \<and>
         vec_y p + 20 > wall_y wall \<and> vec_y p - 20 < wall_y wall + wall_height wall) ws)"

definition mapHalfWidth :: "string \<Rightarrow> real" where
  "mapHalfWidth mapName = (if mapName = ''Wasteland'' then 800 else 1200)"

definition mapHalfHeight :: "string \<Rightarrow> real" where
  "mapHalfHeight mapName = (if mapName = ''Wasteland'' then 1000 else 1200)"


text \<open>
  For the health-pack spawner: the candidate built from the draws \<open>i\<close> and \<open>i+1\<close> (with
  the source's constant \<open>mapSize = 1200\<close>), and the pack it pushes at a candidate.
\<close>

definition healthPackSample :: "(nat \<Rightarrow> real) \<Rightarrow> nat \<Rightarrow> Vector2" where
  "healthPackSample rnd i = \<lparr>vec_x = (rnd i * 2 - 1) * 1200, vec_y = (rnd (Suc i) * 2 - 1) * 1200\<rparr>"

definition newHealthPack :: "real \<Rightarrow> Vector2 \<Rightarrow> HealthPack" where
  "newHealthPack now p =
    \<lparr>ident = HealthPackId now,
     position = \<lparr>vec_x = vec_x p, vec_y = vec_y p\<rparr>,
     velocity = \<lparr>vec_x = 0, vec_y = 0\<rparr>,
     radius = 15,
     color = ''#22c55e'',
     active = True\<rparr>"

definition strictlyInsideSomeWall :: "Wall list \<Rightarrow> Vector2 \<Rightarrow> bool" where
  "strictlyInsideSomeWall ws p = list_ex (insideWall (vec_x p) (vec_y p)) ws"


text \<open>
  For the shooting claim: the bullet literal that \<open>shoot\<close> pushes, for the player record at the
  time of the shot, and the five conditions under which the source fires.
\<close>

definition firedBullet :: "Frame \<Rightarrow> real \<Rightarrow> Player \<Rightarrow> Bullet" where
  "firedBullet f aim p =
    \<lparr>ident = BulletId (time f),
     position = \<lparr>vec_x = vec_x (position p) + cos aim * 25, vec_y = vec_y (position p) + sin aim * 25\<rparr>,
     velocity = \<lparr>vec_x = cos aim * 12, vec_y = sin aim * 12\<rparr>,
     radius = 4,
     color = bulletColor (levelConfig f),
     damage = 20,
     ownerId = Some (ident p)\<rparr>"

definition fires :: "Frame \<Rightarrow> World \<Rightarrow> bool" where
  "fires f s =
    (hp (player s) > 0 \<and> gameState f = PLAYING \<and> isMouseDown f \<and>
     time f - lastShotTime s > 500 \<and> ammo (player s) > 0)"


text \<open>
  For the health claim: what a step \<open>s \<mapsto> s'\<close> of the frame may do to the player's health.
  \<open>maxHp\<close> is constant; a player with \<open>hp \<le> 0\<close> keeps its hp; and from \<open>hp \<le> maxHp\<close> the
  step keeps \<open>hp \<le> maxHp\<close>, keeps \<open>hp > -10\<close>, and reports through \<open>setHealth\<close> only
  values in \<open>[0, maxHp]\<close>.
\<close>

definition healthStep :: "World \<Rightarrow> World \<Rightarrow> bool" where
  "healthStep s s' \<longleftrightarrow>
     maxHp (player s') = maxHp (player s) \<and>
     (hp (player s) \<le> 0 \<longrightarrow> hp (player s') = hp (player s)) \<and>
     (hp (player s) \<le> maxHp (player s) \<longrightarrow>
        hp (player s') \<le> maxHp (player s) \<and>
        (- 10 < hp (player s) \<longrightarrow> - 10 < hp (player s')) \<and>
        (\<forall>v. SetHealth v \<in> set (events s') \<longrightarrow>
             SetHealth v \<in> set (events s) \<or> (0 \<le> v \<and> v \<le> maxHp (player s))))"


text \<open>
  For the kill claim: the world after the block that credits a kill of \<open>e\<close> (death sound,
  score, score report, kill notification when the callback is supplied, eight particles),
  and what combat may do to the list of enemies: each enemy is changed in its hp only, and
  its hp has not grown.
\<close>

definition creditKill :: "Frame \<Rightarrow> Enemy \<Rightarrow> World \<Rightarrow> World" where
  "creditKill f e s =
     createParticles f (vec_x (position e)) (vec_y (position e)) (color e) 8
       (s\<lparr>score := score s + enemy_value e,
          events := events s @ [PlayEnemyDeath, SetScore (score s + enemy_value e)] @
                    (if hasOnKill f then [OnKill] else [])\<rparr>)"

definition weakened :: "Enemy list \<Rightarrow> Enemy list \<Rightarrow> bool" where
  "weakened es es' \<longleftrightarrow>
     list_all2 (\<lambda>e e'. e' = e\<lparr>enemy_hp := enemy_hp e'\<rparr> \<and> enemy_hp e' \<le> enemy_hp e) es es'"


section \<open>Properties of the geometry kernel\<close>

subsection \<open>Circle against rectangle\<close>

lemma clamp_push:
  fixes p a b t :: real
  assumes "0 \<le> t"
  shows "max a (min (p + (p - max a (min p b)) * t) b) = max a (min p b)"
proof -
  consider "p < a" | "a \<le> p" "p \<le> b" | "a \<le> p" "b < p" by linarith
  then show ?thesis
  proof cases
    case 1
    then have "(p - a) * t \<le> 0" using assms by (simp add: mult_nonpos_nonneg)
    with 1 show ?thesis by (simp add: max_def min_def)
  next
    case 2
    then show ?thesis by (simp add: max_def min_def)
  next
    case 3
    then have "0 \<le> (p - b) * t" using assms by simp
    with 3 show ?thesis by (auto simp add: max_def min_def)
  qed
qed

lemma scaled_norm:
  fixes a b k :: real
  shows "sqrt ((a * k) * (a * k) + (b * k) * (b * k)) = \<bar>k\<bar> * sqrt (a * a + b * b)"
proof -
  have "(a * k) * (a * k) + (b * k) * (b * k) = k\<^sup>2 * (a * a + b * b)"
    by (simp add: power2_eq_square algebra_simps)
  then show ?thesis by (simp add: real_sqrt_mult)
qed

lemma push_factor:
  fixes d r :: real
  assumes "0 < d"
  shows "p + (p - c) / d * (r - d) = c + (p - c) * (r / d)"
  using assms by (simp add: field_simps)

lemma push_coord:
  fixes d r :: real
  assumes "0 < d" "d < r"
  shows "p + (p - c) / d * (r - d) = p + (p - c) * ((r - d) / d)" "0 \<le> (r - d) / d"
  using assms by (simp_all add: field_simps)

lemma resolveWallCollision_alt:
  "resolveWallCollision entity wall =
    (if (vec_x (position entity) - vec_x (closestPoint (position entity) wall)) * (vec_x (position entity) - vec_x (closestPoint (position entity) wall)) +
        (vec_y (position entity) - vec_y (closestPoint (position entity) wall)) * (vec_y (position entity) - vec_y (closestPoint (position entity) wall))
          < radius entity * radius entity \<and>
        0 < (vec_x (position entity) - vec_x (closestPoint (position entity) wall)) * (vec_x (position entity) - vec_x (closestPoint (position entity) wall)) +
        (vec_y (position entity) - vec_y (closestPoint (position entity) wall)) * (vec_y (position entity) - vec_y (closestPoint (position entity) wall))
     then entity\<lparr>position :=
           \<lparr>vec_x = vec_x (position entity) +
                (vec_x (position entity) - vec_x (closestPoint (position entity) wall)) /
                  pointDistance (position entity) (closestPoint (position entity) wall) *
                  (radius entity - pointDistance (position entity) (closestPoint (position entity) wall)),
            vec_y = vec_y (position entity) +
                (vec_y (position entity) - vec_y (closestPoint (position entity) wall)) /
                  pointDistance (position entity) (closestPoint (position entity) wall) *
                  (radius entity - pointDistance (position entity) (closestPoint (position entity) wall))\<rparr>\<rparr>
     else entity)"
  unfolding resolveWallCollision_def closestPoint_def pointDistance_def Let_def
  by (simp only: Vector2.select_convs)

lemma resolveWallCollision_hit:
  fixes entity :: "'a Entity_scheme"
  assumes d: "0 < pointDistance (position entity) (closestPoint (position entity) wall)"
      and r: "pointDistance (position entity) (closestPoint (position entity) wall) < radius entity"
  shows "resolveWallCollision entity wall = entity\<lparr>position :=
           \<lparr>vec_x = vec_x (position entity) +
                (vec_x (position entity) - vec_x (closestPoint (position entity) wall)) /
                  pointDistance (position entity) (closestPoint (position entity) wall) *
                  (radius entity - pointDistance (position entity) (closestPoint (position entity) wall)),
            vec_y = vec_y (position entity) +
                (vec_y (position entity) - vec_y (closestPoint (position entity) wall)) /
                  pointDistance (position entity) (closestPoint (position entity) wall) *
                  (radius entity - pointDistance (position entity) (closestPoint (position entity) wall))\<rparr>\<rparr>"
proof -
  let ?c = "closestPoint (position entity) wall"
  let ?dx = "vec_x (position entity) - vec_x ?c"
  let ?dy = "vec_y (position entity) - vec_y ?c"
  let ?q = "?dx * ?dx + ?dy * ?dy"
  have dq: "pointDistance (position entity) ?c = sqrt ?q" by (simp add: pointDistance_def)
  from d dq have qpos: "0 < ?q" by (simp)
  from d r have rpos: "0 < radius entity" by linarith
  from r dq have "sqrt ?q < radius entity" by simp
  then have "sqrt ?q < sqrt (radius entity * radius entity)" using rpos by simp
  then have qlt: "?q < radius entity * radius entity" by (simp only: real_sqrt_less_iff)
  from qpos qlt have "?q < radius entity * radius entity \<and> 0 < ?q" by simp
  then show ?thesis
    by (simp only: resolveWallCollision_alt if_True simp_thms)
qed

lemma resolveWallCollision_miss:
  fixes entity :: "'a Entity_scheme"
  assumes r0: "0 \<le> radius entity"
      and d: "pointDistance (position entity) (closestPoint (position entity) wall) = 0 \<or>
              radius entity \<le> pointDistance (position entity) (closestPoint (position entity) wall)"
  shows "resolveWallCollision entity wall = entity"
proof -
  let ?c = "closestPoint (position entity) wall"
  let ?dx = "vec_x (position entity) - vec_x ?c"
  let ?dy = "vec_y (position entity) - vec_y ?c"
  let ?q = "?dx * ?dx + ?dy * ?dy"
  have dq: "pointDistance (position entity) ?c = sqrt ?q" by (simp add: pointDistance_def)
  have "\<not> (?q < radius entity * radius entity \<and> 0 < ?q)"
  proof
    assume a: "?q < radius entity * radius entity \<and> 0 < ?q"
    then have "sqrt ?q < sqrt (radius entity * radius entity)" by (simp only: real_sqrt_less_iff)
    then have "sqrt ?q < radius entity" using r0 by simp
    moreover from a have "0 < sqrt ?q" by (simp only: real_sqrt_gt_0_iff)
    ultimately show False using d dq by linarith
  qed
  then show ?thesis
    by (simp only: resolveWallCollision_alt if_False simp_thms)
qed

lemma resolveWallCollision_frame:
  fixes entity :: "'a Entity_scheme"
  shows "velocity (resolveWallCollision entity wall) = velocity entity \<and>
         radius (resolveWallCollision entity wall) = radius entity \<and>
         ident (resolveWallCollision entity wall) = ident entity \<and>
         color (resolveWallCollision entity wall) = color entity \<and>
         Entity.more (resolveWallCollision entity wall) = Entity.more entity"
  by (simp add: resolveWallCollision_def Let_def)

lemma pushed_distance:
  fixes entity :: "'a Entity_scheme"
  assumes d: "0 < pointDistance (position entity) (closestPoint (position entity) wall)"
      and r: "pointDistance (position entity) (closestPoint (position entity) wall) < radius entity"
  shows "closestPoint (position (resolveWallCollision entity wall)) wall = closestPoint (position entity) wall"
    and "pointDistance (position (resolveWallCollision entity wall))
           (closestPoint (position (resolveWallCollision entity wall)) wall) = radius entity"
proof -
  let ?p = "position entity"
  let ?c = "closestPoint ?p wall"
  let ?d = "pointDistance ?p ?c"
  let ?k = "(radius entity - ?d) / ?d"
  let ?e = "resolveWallCollision entity wall"
  have k: "0 \<le> ?k" using d r by simp
  have px: "vec_x (position ?e) = vec_x ?p + (vec_x ?p - vec_x ?c) * ?k"
    and py: "vec_y (position ?e) = vec_y ?p + (vec_y ?p - vec_y ?c) * ?k"
    by (simp_all add: resolveWallCollision_hit [OF d r])
  have cx: "vec_x (closestPoint (position ?e) wall) = vec_x ?c"
    using clamp_push [where p = "vec_x ?p" and a = "wall_x wall" and b = "wall_x wall + wall_width wall", OF k]
    by (simp only: px closestPoint_def Vector2.select_convs)
  have cy: "vec_y (closestPoint (position ?e) wall) = vec_y ?c"
    using clamp_push [where p = "vec_y ?p" and a = "wall_y wall" and b = "wall_y wall + wall_height wall", OF k]
    by (simp only: py closestPoint_def Vector2.select_convs)
  show same: "closestPoint (position ?e) wall = ?c"
    using cx cy by (rule Vector2.equality) simp_all
  have fx: "vec_x (position ?e) - vec_x ?c = (vec_x ?p - vec_x ?c) * (radius entity / ?d)"
    unfolding px using d by (simp add: field_simps)
  have fy: "vec_y (position ?e) - vec_y ?c = (vec_y ?p - vec_y ?c) * (radius entity / ?d)"
    unfolding py using d by (simp add: field_simps)
  have "pointDistance (position ?e) ?c = \<bar>radius entity / ?d\<bar> * ?d"
    using scaled_norm [of "vec_x ?p - vec_x ?c" "radius entity / ?d" "vec_y ?p - vec_y ?c"]
    by (simp only: pointDistance_def [of "position ?e"] fx fy) (simp only: pointDistance_def)
  also have "\<dots> = radius entity" using d r by simp
  finally show "pointDistance (position ?e) (closestPoint (position ?e) wall) = radius entity"
    by (simp only: same)
qed

text \<open>
  Claim C2. For every wall rectangle and every entity, with \<open>c\<close> the closest point of the
  rectangle to the entity's centre and \<open>d\<close> the distance from the centre to \<open>c\<close>: if
  \<open>0 < d < radius\<close> the entity is translated along the outward normal \<open>(centre - c) / d\<close>
  by exactly \<open>radius - d\<close>, the closest point stays \<open>c\<close> and the distance to it becomes
  the radius; if \<open>d = 0\<close> or \<open>radius \<le> d\<close>, the entity is returned unchanged; velocity,
  radius, id, colour and the fields of the extension are never modified. (The wall is an
  argument the function only reads.) A radius is a length: the unchanged case is stated for
  \<open>0 \<le> radius\<close>, which holds at both call sites (line 656 passes the player, created with
  radius 15; line 812 passes an enemy, created with radius \<open>12 + Math.random() * 8\<close>; no
  statement of the program assigns a radius afterwards: lemma \<open>gameLoop_radii\<close> in the
  section on radii shows that a frame keeps the player's radius and keeps every enemy's
  radius at least 12). Arithmetic is exact real arithmetic.
\<close>

theorem resolveWallCollision_spec:
  fixes entity :: "'a Entity_scheme"
  shows
  "(let c = closestPoint (position entity) wall;
        d = pointDistance (position entity) c;
        e' = resolveWallCollision entity wall
    in (0 < d \<and> d < radius entity \<longrightarrow>
          position e' =
            \<lparr>vec_x = vec_x (position entity) + (vec_x (position entity) - vec_x c) / d * (radius entity - d),
             vec_y = vec_y (position entity) + (vec_y (position entity) - vec_y c) / d * (radius entity - d)\<rparr> \<and>
          closestPoint (position e') wall = c \<and>
          pointDistance (position e') (closestPoint (position e') wall) = radius entity) \<and>
       (0 \<le> radius entity \<and> (d = 0 \<or> radius entity \<le> d) \<longrightarrow> e' = entity) \<and>
       velocity e' = velocity entity \<and> radius e' = radius entity \<and>
       ident e' = ident entity \<and> color e' = color entity \<and>
       Entity.more e' = Entity.more entity)"
  unfolding Let_def
proof (intro conjI impI)
  let ?c = "closestPoint (position entity) wall"
  let ?d = "pointDistance (position entity) ?c"
  let ?e = "resolveWallCollision entity wall"
  {
    assume a: "0 < ?d \<and> ?d < radius entity"
    then have d: "0 < ?d" and r: "?d < radius entity" by simp_all
    show "position ?e =
            \<lparr>vec_x = vec_x (position entity) + (vec_x (position entity) - vec_x ?c) / ?d * (radius entity - ?d),
             vec_y = vec_y (position entity) + (vec_y (position entity) - vec_y ?c) / ?d * (radius entity - ?d)\<rparr>"
      by (simp add: resolveWallCollision_hit [OF d r])
    show "closestPoint (position ?e) wall = ?c"
      by (rule pushed_distance(1) [OF d r])
    show "pointDistance (position ?e) (closestPoint (position ?e) wall) = radius entity"
      by (rule pushed_distance(2) [OF d r])
  }
  {
    assume "0 \<le> radius entity \<and> (?d = 0 \<or> radius entity \<le> ?d)"
    then show "?e = entity"
      using resolveWallCollision_miss [of entity wall] by blast
  }
  show "velocity ?e = velocity entity" "radius ?e = radius entity" "ident ?e = ident entity"
    "color ?e = color entity" "Entity.more ?e = Entity.more entity"
    using resolveWallCollision_frame [of entity wall] by simp_all
qed

lemma sqrt_25: "sqrt 25 = 5"
  by (rule real_sqrt_unique) simp_all

lemma sqrt_900: "sqrt 900 = 30"
  by (rule real_sqrt_unique) simp_all

lemma sqrt_9: "sqrt 9 = 3"
  by (rule real_sqrt_unique) simp_all

text \<open>
  The spec's scenario: wall \<open>[x:10, y:10, w:20, h:20]\<close>, radius 15, centre 5 to the left of
  the left edge: the entity is pushed to \<open>x = -5\<close>, at distance 15; and from 30 away it is
  left alone.
\<close>

theorem resolveWallCollision_spec_witness:
  "position (resolveWallCollision
      \<lparr>ident = PlayerId, position = \<lparr>vec_x = 5, vec_y = 20\<rparr>, velocity = \<lparr>vec_x = 4, vec_y = 0\<rparr>,
       radius = 15, color = ''''\<rparr>
      \<lparr>wall_id = WallId 0, wall_x = 10, wall_y = 10, wall_width = 20, wall_height = 20, isLow = False\<rparr>)
     = \<lparr>vec_x = -5, vec_y = 20\<rparr> \<and>
   pointDistance \<lparr>vec_x = -5, vec_y = 20\<rparr>
     (closestPoint \<lparr>vec_x = -5, vec_y = 20\<rparr>
        \<lparr>wall_id = WallId 0, wall_x = 10, wall_y = 10, wall_width = 20, wall_height = 20, isLow = False\<rparr>) = 15 \<and>
   resolveWallCollision
      \<lparr>ident = PlayerId, position = \<lparr>vec_x = -20, vec_y = 20\<rparr>, velocity = \<lparr>vec_x = 4, vec_y = 0\<rparr>,
       radius = 15, color = ''''\<rparr>
      \<lparr>wall_id = WallId 0, wall_x = 10, wall_y = 10, wall_width = 20, wall_height = 20, isLow = False\<rparr>
     = \<lparr>ident = PlayerId, position = \<lparr>vec_x = -20, vec_y = 20\<rparr>, velocity = \<lparr>vec_x = 4, vec_y = 0\<rparr>,
       radius = 15, color = ''''\<rparr>"
proof -
  let ?w = "\<lparr>wall_id = WallId 0, wall_x = 10, wall_y = 10, wall_width = 20, wall_height = 20, isLow = False\<rparr>"
  let ?e1 = "\<lparr>ident = PlayerId, position = \<lparr>vec_x = 5, vec_y = 20\<rparr>, velocity = \<lparr>vec_x = 4, vec_y = 0\<rparr>,
       radius = 15, color = ''''\<rparr>"
  let ?e2 = "\<lparr>ident = PlayerId, position = \<lparr>vec_x = -20, vec_y = 20\<rparr>, velocity = \<lparr>vec_x = 4, vec_y = 0\<rparr>,
       radius = 15, color = ''''\<rparr>"
  have c1: "closestPoint (position ?e1) ?w = \<lparr>vec_x = 10, vec_y = 20\<rparr>"
    by (simp add: closestPoint_def)
  have d1: "pointDistance (position ?e1) \<lparr>vec_x = 10, vec_y = 20\<rparr> = 5"
    by (simp add: pointDistance_def sqrt_25)
  have c2: "closestPoint (position ?e2) ?w = \<lparr>vec_x = 10, vec_y = 20\<rparr>"
    by (simp add: closestPoint_def)
  have d2: "pointDistance (position ?e2) \<lparr>vec_x = 10, vec_y = 20\<rparr> = 30"
    by (simp add: pointDistance_def sqrt_900)
  have p1: "position (resolveWallCollision ?e1 ?w) = \<lparr>vec_x = -5, vec_y = 20\<rparr>"
    using resolveWallCollision_spec [of ?e1 ?w] unfolding Let_def c1 d1 by simp
  have q1: "pointDistance (position (resolveWallCollision ?e1 ?w))
              (closestPoint (position (resolveWallCollision ?e1 ?w)) ?w) = 15"
    using resolveWallCollision_spec [of ?e1 ?w] unfolding Let_def c1 d1 by (simp cong: conj_cong)
  have p2: "resolveWallCollision ?e2 ?w = ?e2"
    using resolveWallCollision_spec [of ?e2 ?w] unfolding Let_def c2 d2 by simp
  from q1 have "pointDistance \<lparr>vec_x = -5, vec_y = 20\<rparr> (closestPoint \<lparr>vec_x = -5, vec_y = 20\<rparr> ?w) = 15"
    by (simp only: p1)
  with p1 p2 show ?thesis by simp
qed

text \<open>
  Why the radius is taken non-negative above: the code compares squares, so a record with
  radius \<open>-5\<close> at distance 3 would be moved, by \<open>-8\<close> along the normal. The program
  never builds such an entity.
\<close>

lemma resolveWallCollision_negative_radius:
  "radius \<lparr>ident = PlayerId, position = \<lparr>vec_x = 3, vec_y = 0\<rparr>, velocity = \<lparr>vec_x = 0, vec_y = 0\<rparr>,
           radius = -5, color = ''''\<rparr>
     \<le> pointDistance \<lparr>vec_x = 3, vec_y = 0\<rparr>
         (closestPoint \<lparr>vec_x = 3, vec_y = 0\<rparr>
            \<lparr>wall_id = WallId 0, wall_x = -10, wall_y = -10, wall_width = 10, wall_height = 20, isLow = False\<rparr>) \<and>
   resolveWallCollision
      \<lparr>ident = PlayerId, position = \<lparr>vec_x = 3, vec_y = 0\<rparr>, velocity = \<lparr>vec_x = 0, vec_y = 0\<rparr>,
       radius = -5, color = ''''\<rparr>
      \<lparr>wall_id = WallId 0, wall_x = -10, wall_y = -10, wall_width = 10, wall_height = 20, isLow = False\<rparr>
     = \<lparr>ident = PlayerId, position = \<lparr>vec_x = -5, vec_y = 0\<rparr>, velocity = \<lparr>vec_x = 0, vec_y = 0\<rparr>,
        radius = -5, color = ''''\<rparr> \<and>
   resolveWallCollision
      \<lparr>ident = PlayerId, position = \<lparr>vec_x = 3, vec_y = 0\<rparr>, velocity = \<lparr>vec_x = 0, vec_y = 0\<rparr>,
       radius = -5, color = ''''\<rparr>
      \<lparr>wall_id = WallId 0, wall_x = -10, wall_y = -10, wall_width = 10, wall_height = 20, isLow = False\<rparr>
     \<noteq> \<lparr>ident = PlayerId, position = \<lparr>vec_x = 3, vec_y = 0\<rparr>, velocity = \<lparr>vec_x = 0, vec_y = 0\<rparr>,
        radius = -5, color = ''''\<rparr>"
  by (simp add: resolveWallCollision_def closestPoint_def pointDistance_def Let_def sqrt_9)

subsection \<open>Ray against segment\<close>

lemma sqrt_sumsq_zero: fixes a b :: real shows "sqrt (a * a + b * b) = 0 \<longleftrightarrow> a = 0 \<and> b = 0"
  by (simp add: sum_squares_eq_zero_iff)

lemma getIntersection_alt:
  "getIntersection rs re ss se =
    (if rayDenominator rs re ss se \<noteq> 0 \<and>
        0 < rayParameter rs re ss se \<and> rayParameter rs re ss se \<le> 1 \<and>
        0 \<le> segmentParameter rs re ss se \<and> segmentParameter rs re ss se \<le> 1
     then Some \<lparr>hit_x = vec_x rs + rayParameter rs re ss se * (vec_x re - vec_x rs),
                hit_y = vec_y rs + rayParameter rs re ss se * (vec_y re - vec_y rs),
                param = rayParameter rs re ss se\<rparr>
     else None)"
proof (cases "rayDenominator rs re ss se = 0")
  case True
  then show ?thesis
    unfolding getIntersection_def Let_def rayDenominator_def by simp
next
  case False
  then have nz: "\<not> (sqrt ((vec_x re - vec_x rs) * (vec_x re - vec_x rs) + (vec_y re - vec_y rs) * (vec_y re - vec_y rs)) *
         sqrt ((vec_x se - vec_x ss) * (vec_x se - vec_x ss) + (vec_y se - vec_y ss) * (vec_y se - vec_y ss)) = 0)"
    unfolding rayDenominator_def mult_eq_0_iff sqrt_sumsq_zero by auto
  show ?thesis
    unfolding getIntersection_def Let_def
    by (simp only: nz if_False) (simp add: rayDenominator_def rayParameter_def segmentParameter_def)
qed

lemma on_segment:
  assumes "rayDenominator rs re ss se \<noteq> 0"
  shows "vec_x rs + rayParameter rs re ss se * (vec_x re - vec_x rs) =
         vec_x ss + segmentParameter rs re ss se * (vec_x se - vec_x ss)"
    and "vec_y rs + rayParameter rs re ss se * (vec_y re - vec_y rs) =
         vec_y ss + segmentParameter rs re ss se * (vec_y se - vec_y ss)"
  using assms unfolding rayParameter_def segmentParameter_def
  by (simp_all add: rayDenominator_def field_simps)

lemma zero_length_denominator:
  "rs = re \<or> ss = se \<Longrightarrow> rayDenominator rs re ss se = 0"
  by (auto simp add: rayDenominator_def)

text \<open>
  Claim C3. With \<open>t = rayParameter\<close>, \<open>u = segmentParameter\<close> and the cross product
  \<open>rayDenominator\<close> of the two directions: whenever \<open>getIntersection\<close> returns a hit,
  \<open>0 < t \<le> 1\<close>, \<open>0 \<le> u \<le> 1\<close>, the returned parameter is \<open>t\<close> and the returned point
  is \<open>rayStart + t (rayEnd - rayStart)\<close> (which is also
  \<open>segmentStart + u (segmentEnd - segmentStart)\<close>); it returns no intersection when the
  denominator is zero, when the ray or the segment has zero length, and when \<open>t \<le> 0\<close>.
\<close>

theorem getIntersection_spec:
  "(\<forall>h. getIntersection rayStart rayEnd segmentStart segmentEnd = Some h \<longrightarrow>
      0 < rayParameter rayStart rayEnd segmentStart segmentEnd \<and>
      rayParameter rayStart rayEnd segmentStart segmentEnd \<le> 1 \<and>
      0 \<le> segmentParameter rayStart rayEnd segmentStart segmentEnd \<and>
      segmentParameter rayStart rayEnd segmentStart segmentEnd \<le> 1 \<and>
      param h = rayParameter rayStart rayEnd segmentStart segmentEnd \<and>
      hit_x h = vec_x rayStart + param h * (vec_x rayEnd - vec_x rayStart) \<and>
      hit_y h = vec_y rayStart + param h * (vec_y rayEnd - vec_y rayStart) \<and>
      hit_x h = vec_x segmentStart +
        segmentParameter rayStart rayEnd segmentStart segmentEnd * (vec_x segmentEnd - vec_x segmentStart) \<and>
      hit_y h = vec_y segmentStart +
        segmentParameter rayStart rayEnd segmentStart segmentEnd * (vec_y segmentEnd - vec_y segmentStart)) \<and>
   (rayDenominator rayStart rayEnd segmentStart segmentEnd = 0 \<longrightarrow>
      getIntersection rayStart rayEnd segmentStart segmentEnd = None) \<and>
   (rayStart = rayEnd \<or> segmentStart = segmentEnd \<longrightarrow>
      getIntersection rayStart rayEnd segmentStart segmentEnd = None) \<and>
   (rayParameter rayStart rayEnd segmentStart segmentEnd \<le> 0 \<longrightarrow>
      getIntersection rayStart rayEnd segmentStart segmentEnd = None)"
proof (intro conjI allI impI)
  fix h
  assume h: "getIntersection rayStart rayEnd segmentStart segmentEnd = Some h"
  let ?t = "rayParameter rayStart rayEnd segmentStart segmentEnd"
  let ?u = "segmentParameter rayStart rayEnd segmentStart segmentEnd"
  from h have c: "rayDenominator rayStart rayEnd segmentStart segmentEnd \<noteq> 0 \<and>
        0 < ?t \<and> ?t \<le> 1 \<and> 0 \<le> ?u \<and> ?u \<le> 1"
    and hv: "h = \<lparr>hit_x = vec_x rayStart + ?t * (vec_x rayEnd - vec_x rayStart),
                hit_y = vec_y rayStart + ?t * (vec_y rayEnd - vec_y rayStart),
                param = ?t\<rparr>"
    by (simp_all only: getIntersection_alt split: if_splits) simp_all
  from c show "0 < ?t" "?t \<le> 1" "0 \<le> ?u" "?u \<le> 1" by simp_all
  from hv show p: "param h = ?t" by simp
  from hv show "hit_x h = vec_x rayStart + param h * (vec_x rayEnd - vec_x rayStart)" by simp
  from hv show "hit_y h = vec_y rayStart + param h * (vec_y rayEnd - vec_y rayStart)" by simp
  from c have nz: "rayDenominator rayStart rayEnd segmentStart segmentEnd \<noteq> 0" by simp
  from hv show "hit_x h = vec_x segmentStart + ?u * (vec_x segmentEnd - vec_x segmentStart)"
    using on_segment(1) [OF nz] by simp
  from hv show "hit_y h = vec_y segmentStart + ?u * (vec_y segmentEnd - vec_y segmentStart)"
    using on_segment(2) [OF nz] by simp
next
  assume "rayDenominator rayStart rayEnd segmentStart segmentEnd = 0"
  then show "getIntersection rayStart rayEnd segmentStart segmentEnd = None"
    by (simp only: getIntersection_alt) simp
next
  assume "rayStart = rayEnd \<or> segmentStart = segmentEnd"
  then have "rayDenominator rayStart rayEnd segmentStart segmentEnd = 0"
    by (rule zero_length_denominator)
  then show "getIntersection rayStart rayEnd segmentStart segmentEnd = None"
    by (simp only: getIntersection_alt) simp
next
  assume "rayParameter rayStart rayEnd segmentStart segmentEnd \<le> 0"
  then show "getIntersection rayStart rayEnd segmentStart segmentEnd = None"
    by (simp only: getIntersection_alt) simp
qed

text \<open>
  A ray along the x axis: it hits a crossing segment half way, misses a parallel one, a
  zero-length ray hits nothing, and a segment behind the start (\<open>t = -1/2\<close>) is not hit.
\<close>

theorem getIntersection_spec_witness:
  "getIntersection \<lparr>vec_x = 0, vec_y = 0\<rparr> \<lparr>vec_x = 2, vec_y = 0\<rparr> \<lparr>vec_x = 1, vec_y = -1\<rparr> \<lparr>vec_x = 1, vec_y = 1\<rparr>
     = Some \<lparr>hit_x = 1, hit_y = 0, param = 1 / 2\<rparr> \<and>
   rayParameter \<lparr>vec_x = 0, vec_y = 0\<rparr> \<lparr>vec_x = 2, vec_y = 0\<rparr> \<lparr>vec_x = 1, vec_y = -1\<rparr> \<lparr>vec_x = 1, vec_y = 1\<rparr> = 1 / 2 \<and>
   segmentParameter \<lparr>vec_x = 0, vec_y = 0\<rparr> \<lparr>vec_x = 2, vec_y = 0\<rparr> \<lparr>vec_x = 1, vec_y = -1\<rparr> \<lparr>vec_x = 1, vec_y = 1\<rparr> = 1 / 2 \<and>
   rayDenominator \<lparr>vec_x = 0, vec_y = 0\<rparr> \<lparr>vec_x = 2, vec_y = 0\<rparr> \<lparr>vec_x = 0, vec_y = 1\<rparr> \<lparr>vec_x = 3, vec_y = 1\<rparr> = 0 \<and>
   getIntersection \<lparr>vec_x = 0, vec_y = 0\<rparr> \<lparr>vec_x = 2, vec_y = 0\<rparr> \<lparr>vec_x = 0, vec_y = 1\<rparr> \<lparr>vec_x = 3, vec_y = 1\<rparr> = None \<and>
   getIntersection \<lparr>vec_x = 0, vec_y = 0\<rparr> \<lparr>vec_x = 0, vec_y = 0\<rparr> \<lparr>vec_x = 0, vec_y = 1\<rparr> \<lparr>vec_x = 3, vec_y = 1\<rparr> = None \<and>
   rayParameter \<lparr>vec_x = 0, vec_y = 0\<rparr> \<lparr>vec_x = 2, vec_y = 0\<rparr> \<lparr>vec_x = -1, vec_y = -1\<rparr> \<lparr>vec_x = -1, vec_y = 1\<rparr> = - (1 / 2) \<and>
   getIntersection \<lparr>vec_x = 0, vec_y = 0\<rparr> \<lparr>vec_x = 2, vec_y = 0\<rparr> \<lparr>vec_x = -1, vec_y = -1\<rparr> \<lparr>vec_x = -1, vec_y = 1\<rparr> = None"
proof -
  have s: "getIntersection \<lparr>vec_x = 0, vec_y = 0\<rparr> \<lparr>vec_x = 2, vec_y = 0\<rparr> \<lparr>vec_x = 1, vec_y = -1\<rparr> \<lparr>vec_x = 1, vec_y = 1\<rparr>
     = Some \<lparr>hit_x = 1, hit_y = 0, param = 1 / 2\<rparr>"
    by (simp add: getIntersection_def Let_def)
  have d: "rayDenominator \<lparr>vec_x = 0, vec_y = 0\<rparr> \<lparr>vec_x = 2, vec_y = 0\<rparr> \<lparr>vec_x = 0, vec_y = 1\<rparr> \<lparr>vec_x = 3, vec_y = 1\<rparr> = 0"
    by (simp add: rayDenominator_def)
  have t: "rayParameter \<lparr>vec_x = 0, vec_y = 0\<rparr> \<lparr>vec_x = 2, vec_y = 0\<rparr> \<lparr>vec_x = -1, vec_y = -1\<rparr> \<lparr>vec_x = -1, vec_y = 1\<rparr> = - (1 / 2)"
    by (simp add: rayParameter_def rayDenominator_def)
  note a = getIntersection_spec [of "\<lparr>vec_x = 0, vec_y = 0\<rparr>" "\<lparr>vec_x = 2, vec_y = 0\<rparr>" "\<lparr>vec_x = 1, vec_y = -1\<rparr>" "\<lparr>vec_x = 1, vec_y = 1\<rparr>"]
  note b = getIntersection_spec [of "\<lparr>vec_x = 0, vec_y = 0\<rparr>" "\<lparr>vec_x = 2, vec_y = 0\<rparr>" "\<lparr>vec_x = 0, vec_y = 1\<rparr>" "\<lparr>vec_x = 3, vec_y = 1\<rparr>"]
  note c = getIntersection_spec [of "\<lparr>vec_x = 0, vec_y = 0\<rparr>" "\<lparr>vec_x = 0, vec_y = 0\<rparr>" "\<lparr>vec_x = 0, vec_y = 1\<rparr>" "\<lparr>vec_x = 3, vec_y = 1\<rparr>"]
  note e = getIntersection_spec [of "\<lparr>vec_x = 0, vec_y = 0\<rparr>" "\<lparr>vec_x = 2, vec_y = 0\<rparr>" "\<lparr>vec_x = -1, vec_y = -1\<rparr>" "\<lparr>vec_x = -1, vec_y = 1\<rparr>"]
  from a s have "rayParameter \<lparr>vec_x = 0, vec_y = 0\<rparr> \<lparr>vec_x = 2, vec_y = 0\<rparr> \<lparr>vec_x = 1, vec_y = -1\<rparr> \<lparr>vec_x = 1, vec_y = 1\<rparr> = 1 / 2"
    by simp
  moreover from a s have "segmentParameter \<lparr>vec_x = 0, vec_y = 0\<rparr> \<lparr>vec_x = 2, vec_y = 0\<rparr> \<lparr>vec_x = 1, vec_y = -1\<rparr> \<lparr>vec_x = 1, vec_y = 1\<rparr> = 1 / 2"
    by simp
  moreover from b d have "getIntersection \<lparr>vec_x = 0, vec_y = 0\<rparr> \<lparr>vec_x = 2, vec_y = 0\<rparr> \<lparr>vec_x = 0, vec_y = 1\<rparr> \<lparr>vec_x = 3, vec_y = 1\<rparr> = None"
    by simp
  moreover from c have "getIntersection \<lparr>vec_x = 0, vec_y = 0\<rparr> \<lparr>vec_x = 0, vec_y = 0\<rparr> \<lparr>vec_x = 0, vec_y = 1\<rparr> \<lparr>vec_x = 3, vec_y = 1\<rparr> = None"
    by simp
  moreover from e t have "getIntersection \<lparr>vec_x = 0, vec_y = 0\<rparr> \<lparr>vec_x = 2, vec_y = 0\<rparr> \<lparr>vec_x = -1, vec_y = -1\<rparr> \<lparr>vec_x = -1, vec_y = 1\<rparr> = None"
    by simp
  ultimately show ?thesis using s d t by simp
qed

section \<open>Frame lemmas: what the helpers leave alone\<close>


lemma createParticlesFrom_frame:
  "\<exists>ps. createParticlesFrom i n now x y col s =
          s\<lparr>particles := particles s @ ps, rngPos := rngPos s + 3 * n\<rparr>"
proof (induction n arbitrary: i s)
  case 0
  have "createParticlesFrom i 0 now x y col s = s\<lparr>particles := particles s @ [], rngPos := rngPos s + 3 * 0\<rparr>"
    by simp
  then show ?case by blast
next
  case (Suc n)
  let ?p = "\<lparr>ident = ParticleId now i,
              position = \<lparr>vec_x = x, vec_y = y\<rparr>,
              velocity = \<lparr>vec_x = cos (rng s (rngPos s) * pi * 2) * (rng s (Suc (rngPos s)) * 3),
                          vec_y = sin (rng s (rngPos s) * pi * 2) * (rng s (Suc (rngPos s)) * 3)\<rparr>,
              radius = rng s (Suc (Suc (rngPos s))) * 3,
              color = col,
              life = 1,
              maxLife = 1\<rparr>"
  let ?s = "s\<lparr>rngPos := Suc (Suc (Suc (rngPos s))), particles := particles s @ [?p]\<rparr>"
  have step: "createParticlesFrom i (Suc n) now x y col s = createParticlesFrom (Suc i) n now x y col ?s"
    by (simp add: mathRandom_def Let_def)
  from Suc.IH [of "Suc i" ?s] obtain ps where
    "createParticlesFrom (Suc i) n now x y col ?s = ?s\<lparr>particles := particles ?s @ ps, rngPos := rngPos ?s + 3 * n\<rparr>"
    by blast
  then have "createParticlesFrom i (Suc n) now x y col s =
      s\<lparr>particles := particles s @ (?p # ps), rngPos := rngPos s + 3 * Suc n\<rparr>"
    unfolding step by simp
  then show ?case by blast
qed

lemma createParticles_frame:
  "\<exists>ps. createParticles f x y col n s = s\<lparr>particles := particles s @ ps, rngPos := rngPos s + 3 * n\<rparr>"
  unfolding createParticles_def by (rule createParticlesFrom_frame)

lemma createParticles_fields [simp]:
  "player (createParticles f x y col n s) = player s"
  "enemies (createParticles f x y col n s) = enemies s"
  "bullets (createParticles f x y col n s) = bullets s"
  "walls (createParticles f x y col n s) = walls s"
  "healthPacks (createParticles f x y col n s) = healthPacks s"
  "decorations (createParticles f x y col n s) = decorations s"
  "score (createParticles f x y col n s) = score s"
  "lastSpawnTime (createParticles f x y col n s) = lastSpawnTime s"
  "lastHealthPackTime (createParticles f x y col n s) = lastHealthPackTime s"
  "lastUpdateEmit (createParticles f x y col n s) = lastUpdateEmit s"
  "lastCactusDamageTime (createParticles f x y col n s) = lastCactusDamageTime s"
  "lastShotTime (createParticles f x y col n s) = lastShotTime s"
  "rng (createParticles f x y col n s) = rng s"
  "rngPos (createParticles f x y col n s) = rngPos s + 3 * n"
  "events (createParticles f x y col n s) = events s"
proof -
  obtain ps where e: "createParticles f x y col n s = s\<lparr>particles := particles s @ ps, rngPos := rngPos s + 3 * n\<rparr>"
    using createParticles_frame by blast
  show "player (createParticles f x y col n s) = player s"
  "enemies (createParticles f x y col n s) = enemies s"
  "bullets (createParticles f x y col n s) = bullets s"
  "walls (createParticles f x y col n s) = walls s"
  "healthPacks (createParticles f x y col n s) = healthPacks s"
  "decorations (createParticles f x y col n s) = decorations s"
  "score (createParticles f x y col n s) = score s"
  "lastSpawnTime (createParticles f x y col n s) = lastSpawnTime s"
  "lastHealthPackTime (createParticles f x y col n s) = lastHealthPackTime s"
  "lastUpdateEmit (createParticles f x y col n s) = lastUpdateEmit s"
  "lastCactusDamageTime (createParticles f x y col n s) = lastCactusDamageTime s"
  "lastShotTime (createParticles f x y col n s) = lastShotTime s"
  "rng (createParticles f x y col n s) = rng s"
  "rngPos (createParticles f x y col n s) = rngPos s + 3 * n"
  "events (createParticles f x y col n s) = events s"
    unfolding e by simp_all
qed

lemma emit_fields [simp]:
  "player (emit ev s) = player s"
  "enemies (emit ev s) = enemies s"
  "bullets (emit ev s) = bullets s"
  "particles (emit ev s) = particles s"
  "walls (emit ev s) = walls s"
  "healthPacks (emit ev s) = healthPacks s"
  "decorations (emit ev s) = decorations s"
  "score (emit ev s) = score s"
  "lastSpawnTime (emit ev s) = lastSpawnTime s"
  "lastHealthPackTime (emit ev s) = lastHealthPackTime s"
  "lastUpdateEmit (emit ev s) = lastUpdateEmit s"
  "lastCactusDamageTime (emit ev s) = lastCactusDamageTime s"
  "lastShotTime (emit ev s) = lastShotTime s"
  "rng (emit ev s) = rng s"
  "rngPos (emit ev s) = rngPos s"
  "events (emit ev s) = events s @ [ev]"
  by (simp_all add: emit_def)

subsection \<open>Collision resolution only moves\<close>

lemma moves_if:
  "\<exists>q. (if c then e\<lparr>position := a\<rparr> else e) = e\<lparr>position := q\<rparr>"
proof (cases c)
  case True
  then show ?thesis by auto
next
  case False
  then have "(if c then e\<lparr>position := a\<rparr> else e) = e\<lparr>position := position e\<rparr>" by simp
  then show ?thesis by blast
qed

lemma resolveWallCollision_moves:
  "\<exists>q. resolveWallCollision e w = e\<lparr>position := q\<rparr>"
  unfolding resolveWallCollision_def Let_def by (rule moves_if)

lemma foldl_resolveWallCollision_moves:
  "\<exists>q. foldl resolveWallCollision e ws = e\<lparr>position := q\<rparr>"
proof (induction ws arbitrary: e)
  case Nil
  have "foldl resolveWallCollision e [] = e\<lparr>position := position e\<rparr>" by simp
  then show ?case by blast
next
  case (Cons w ws)
  obtain q where q: "resolveWallCollision e w = e\<lparr>position := q\<rparr>"
    using resolveWallCollision_moves by blast
  obtain q' where "foldl resolveWallCollision (e\<lparr>position := q\<rparr>) ws = e\<lparr>position := q\<rparr>\<lparr>position := q'\<rparr>"
    using Cons.IH by blast
  then have "foldl resolveWallCollision e (w # ws) = e\<lparr>position := q'\<rparr>"
    by (simp add: q)
  then show ?case by blast
qed

lemma resolveDecorationCollision_moves:
  "\<exists>q. snd (resolveDecorationCollision e d) = e\<lparr>position := q\<rparr>"
  unfolding resolveDecorationCollision_def Let_def if_distrib [of snd] snd_conv by (rule moves_if)

lemma playerDecorations_moves:
  "\<exists>q. snd (playerDecorations p hit ds) = p\<lparr>position := q\<rparr>"
proof (induction ds arbitrary: p hit)
  case Nil
  have "snd (playerDecorations p hit []) = p\<lparr>position := position p\<rparr>" by simp
  then show ?case by blast
next
  case (Cons d ds)
  obtain c p' where r: "resolveDecorationCollision p d = (c, p')" by (cases "resolveDecorationCollision p d")
  obtain q where q: "p' = p\<lparr>position := q\<rparr>"
    using resolveDecorationCollision_moves [of p d] r by auto
  let ?h = "if c then (if decor_type d = CACTUS then True else hit) else hit"
  obtain q' where "snd (playerDecorations p' ?h ds) = p'\<lparr>position := q'\<rparr>"
    using Cons.IH by blast
  then have "snd (playerDecorations p hit (d # ds)) = p\<lparr>position := q'\<rparr>"
    by (simp add: r q)
  then show ?case by blast
qed

lemma steerPlayer_moves:
  "\<exists>q v. steerPlayer f ws p = p\<lparr>position := q, velocity := v\<rparr>"
proof -
  let ?mx = "(if keys f ''d'' then (if keys f ''a'' then 0 - 1 else 0) + 1 else (if keys f ''a'' then 0 - 1 else (0::real)))"
  let ?my = "(if keys f ''s'' then (if keys f ''w'' then 0 - 1 else 0) + 1 else (if keys f ''w'' then 0 - 1 else (0::real)))"
  let ?len = "sqrt (?mx * ?mx + ?my * ?my)"
  let ?v = "if ?len > 0 then \<lparr>vec_x = (?mx / ?len) * speed p, vec_y = (?my / ?len) * speed p\<rparr>
            else \<lparr>vec_x = 0, vec_y = 0\<rparr>"
  let ?p1 = "p\<lparr>velocity := ?v, position := \<lparr>vec_x = vec_x (position p) + vec_x ?v, vec_y = vec_y (position p) + vec_y ?v\<rparr>\<rparr>"
  have "steerPlayer f ws p = foldl resolveWallCollision ?p1 ws"
    unfolding steerPlayer_def Let_def by simp
  moreover obtain q where "foldl resolveWallCollision ?p1 ws = ?p1\<lparr>position := q\<rparr>"
    using foldl_resolveWallCollision_moves by blast
  ultimately have "steerPlayer f ws p = p\<lparr>position := q, velocity := ?v\<rparr>" by simp
  then show ?thesis by blast
qed

lemma steerPlayer_fields [simp]:
  "hp (steerPlayer f ws p) = hp p"
  "maxHp (steerPlayer f ws p) = maxHp p"
  "ammo (steerPlayer f ws p) = ammo p"
  "radius (steerPlayer f ws p) = radius p"
  "ident (steerPlayer f ws p) = ident p"
  "speed (steerPlayer f ws p) = speed p"
proof -
  obtain q v where e: "steerPlayer f ws p = p\<lparr>position := q, velocity := v\<rparr>"
    using steerPlayer_moves by blast
  show "hp (steerPlayer f ws p) = hp p"
  "maxHp (steerPlayer f ws p) = maxHp p"
  "ammo (steerPlayer f ws p) = ammo p"
  "radius (steerPlayer f ws p) = radius p"
  "ident (steerPlayer f ws p) = ident p"
  "speed (steerPlayer f ws p) = speed p"
    unfolding e by simp_all
qed

lemma playerDecorations_fields [simp]:
  "hp (snd (playerDecorations p hit ds)) = hp p"
  "maxHp (snd (playerDecorations p hit ds)) = maxHp p"
  "ammo (snd (playerDecorations p hit ds)) = ammo p"
  "radius (snd (playerDecorations p hit ds)) = radius p"
  "ident (snd (playerDecorations p hit ds)) = ident p"
  "speed (snd (playerDecorations p hit ds)) = speed p"
  "velocity (snd (playerDecorations p hit ds)) = velocity p"
proof -
  obtain q where e: "snd (playerDecorations p hit ds) = p\<lparr>position := q\<rparr>"
    using playerDecorations_moves by blast
  show "hp (snd (playerDecorations p hit ds)) = hp p"
  "maxHp (snd (playerDecorations p hit ds)) = maxHp p"
  "ammo (snd (playerDecorations p hit ds)) = ammo p"
  "radius (snd (playerDecorations p hit ds)) = radius p"
  "ident (snd (playerDecorations p hit ds)) = ident p"
  "speed (snd (playerDecorations p hit ds)) = speed p"
  "velocity (snd (playerDecorations p hit ds)) = velocity p"
    unfolding e by simp_all
qed

subsection \<open>Circle against circle\<close>




lemma movePlayer_no_hit:
  assumes "gameState f = PLAYING" and "0 < hp (player s)"
      and "playerDecorations (steerPlayer f (walls s) (player s)) False (decorations s) = (False, p')"
  shows "movePlayer f s =
    (if hasOnPlayerUpdate f \<and> time f - lastUpdateEmit s > 50
     then (emit (OnPlayerUpdate \<lparr>vec_x = vec_x (position p'), vec_y = vec_y (position p')\<rparr>) (s\<lparr>player := p'\<rparr>))
            \<lparr>lastUpdateEmit := time f\<rparr>
     else s\<lparr>player := p'\<rparr>)"
  using assms by (simp add: movePlayer_def Let_def)





lemma steerPlayer_idle:
  "\<not> keys f ''w'' \<Longrightarrow> \<not> keys f ''a'' \<Longrightarrow> \<not> keys f ''s'' \<Longrightarrow> \<not> keys f ''d'' \<Longrightarrow>
   steerPlayer f [] p = p\<lparr>velocity := \<lparr>vec_x = 0, vec_y = 0\<rparr>, position := \<lparr>vec_x = vec_x (position p), vec_y = vec_y (position p)\<rparr>\<rparr>"
  by (simp add: steerPlayer_def)

lemma cactusAt_fields [simp]:
  "decor_x (cactusAt i px py) = px"
  "decor_y (cactusAt i px py) = py"
  "decor_type (cactusAt i px py) = CACTUS"
  "decor_radius (cactusAt i px py) = 15"
  by (simp_all add: cactusAt_def)

lemma standingAt_fields [simp]:
  "position (player (standingAt px py)) = \<lparr>vec_x = px, vec_y = py\<rparr>"
  "radius (player (standingAt px py)) = 15"
  "hp (player (standingAt px py)) = 100"
  "walls (standingAt px py) = []"
  "decorations (standingAt px py) = []"
  "particles (standingAt px py) = []"
  "lastCactusDamageTime (standingAt px py) = 0"
  "lastUpdateEmit (standingAt px py) = 0"
  "events (standingAt px py) = [SetScore 0, SetHealth 100, SetAmmo 120]"
  by (simp_all add: standingAt_def startWorld_def resetPlayer_def)



section \<open>Safe spawn search\<close>

lemma spawnAttempts_Suc:
  "spawnAttempts (Suc n) ws mapW mapH padding rnd k =
    (if spawnClear ws (spawnSample rnd mapW mapH padding k)
     then (spawnSample rnd mapW mapH padding k, k + 2)
     else spawnAttempts n ws mapW mapH padding rnd (k + 2))"
  by (simp add: spawnClear_def spawnSample_def Let_def)

lemma spawnAttempts_result:
  "(\<exists>j<n. spawnAttempts n ws mapW mapH padding rnd k =
              (spawnSample rnd mapW mapH padding (k + 2 * j), k + 2 * (j + 1)) \<and>
           spawnClear ws (spawnSample rnd mapW mapH padding (k + 2 * j)) \<and>
           (\<forall>m<j. \<not> spawnClear ws (spawnSample rnd mapW mapH padding (k + 2 * m)))) \<or>
   (spawnAttempts n ws mapW mapH padding rnd k = (\<lparr>vec_x = 0, vec_y = 0\<rparr>, k + 2 * n) \<and>
    (\<forall>m<n. \<not> spawnClear ws (spawnSample rnd mapW mapH padding (k + 2 * m))))"
proof (induction n arbitrary: k)
  case 0
  show ?case by simp
next
  case (Suc n)
  show ?case
  proof (cases "spawnClear ws (spawnSample rnd mapW mapH padding k)")
    case True
    then have "spawnAttempts (Suc n) ws mapW mapH padding rnd k =
                 (spawnSample rnd mapW mapH padding (k + 2 * 0), k + 2 * (0 + 1))"
      by (simp only: spawnAttempts_Suc) simp
    with True show ?thesis by (intro disjI1 exI [of _ 0]) simp
  next
    case False
    then have step: "spawnAttempts (Suc n) ws mapW mapH padding rnd k =
                     spawnAttempts n ws mapW mapH padding rnd (k + 2)"
      by (simp only: spawnAttempts_Suc) simp
    have early: "\<not> spawnClear ws (spawnSample rnd mapW mapH padding (k + 2 * m))"
      if "m < Suc j" and "\<forall>m<j. \<not> spawnClear ws (spawnSample rnd mapW mapH padding (k + 2 + 2 * m))"
      for m j
    proof (cases m)
      case 0
      with False show ?thesis by simp
    next
      case (Suc m')
      with that have "m' < j" by simp
      with that(2) have "\<not> spawnClear ws (spawnSample rnd mapW mapH padding (k + 2 + 2 * m'))" by blast
      with Suc show ?thesis by (simp add: add.commute add.left_commute)
    qed
    from Suc.IH [of "k + 2"] show ?thesis
    proof (elim disjE exE conjE)
      fix j
      assume j: "j < n"
        and r: "spawnAttempts n ws mapW mapH padding rnd (k + 2) =
                (spawnSample rnd mapW mapH padding (k + 2 + 2 * j), k + 2 + 2 * (j + 1))"
        and c: "spawnClear ws (spawnSample rnd mapW mapH padding (k + 2 + 2 * j))"
        and e: "\<forall>m<j. \<not> spawnClear ws (spawnSample rnd mapW mapH padding (k + 2 + 2 * m))"
      have i: "k + 2 + 2 * j = k + 2 * Suc j" by simp
      have "Suc j < Suc n \<and>
            spawnAttempts (Suc n) ws mapW mapH padding rnd k =
              (spawnSample rnd mapW mapH padding (k + 2 * Suc j), k + 2 * (Suc j + 1)) \<and>
            spawnClear ws (spawnSample rnd mapW mapH padding (k + 2 * Suc j)) \<and>
            (\<forall>m<Suc j. \<not> spawnClear ws (spawnSample rnd mapW mapH padding (k + 2 * m)))"
        using j r c early [OF _ e] unfolding step i by simp
      then show ?thesis by blast
    next
      assume r: "spawnAttempts n ws mapW mapH padding rnd (k + 2) = (\<lparr>vec_x = 0, vec_y = 0\<rparr>, k + 2 + 2 * n)"
        and e: "\<forall>m<n. \<not> spawnClear ws (spawnSample rnd mapW mapH padding (k + 2 + 2 * m))"
      have "spawnAttempts (Suc n) ws mapW mapH padding rnd k = (\<lparr>vec_x = 0, vec_y = 0\<rparr>, k + 2 * Suc n) \<and>
            (\<forall>m<Suc n. \<not> spawnClear ws (spawnSample rnd mapW mapH padding (k + 2 * m)))"
        using r early [OF _ e] unfolding step by simp
      then show ?thesis by blast
    qed
  qed
qed

lemma spawnSample_range:
  assumes "0 \<le> rnd i" "rnd i < 1" "0 \<le> rnd (Suc i)" "rnd (Suc i) < 1" "padding \<le> mapW" "padding \<le> mapH"
  shows "- (mapW - padding) \<le> vec_x (spawnSample rnd mapW mapH padding i) \<and>
         vec_x (spawnSample rnd mapW mapH padding i) \<le> mapW - padding \<and>
         - (mapH - padding) \<le> vec_y (spawnSample rnd mapW mapH padding i) \<and>
         vec_y (spawnSample rnd mapW mapH padding i) \<le> mapH - padding"
proof -
  have b: "- c \<le> (r * 2 - 1) * c \<and> (r * 2 - 1) * c \<le> c" if "0 \<le> r" "r < 1" "0 \<le> c" for r c :: real
  proof -
    have "- 1 \<le> r * 2 - 1" "r * 2 - 1 \<le> 1" using that by simp_all
    then have "- 1 * c \<le> (r * 2 - 1) * c" "(r * 2 - 1) * c \<le> 1 * c"
      using that(3) by (intro mult_right_mono; simp)+
    then show ?thesis by simp
  qed
  from b [of "rnd i" "mapW - padding"] b [of "rnd (Suc i)" "mapH - padding"] assms
  show ?thesis by (simp add: spawnSample_def)
qed

lemma findSafeSpawnPosition_unfold:
  "findSafeSpawnPosition ws mapName rnd k =
     spawnAttempts 50 ws (mapHalfWidth mapName) (mapHalfHeight mapName) 100 rnd k"
  by (simp add: findSafeSpawnPosition_def mapHalfWidth_def mapHalfHeight_def Let_def)

lemma spawnClear_Nil: "spawnClear [] p"
  by (simp add: spawnClear_def)

text \<open>
  Claim C6. Let the random source yield values in \<open>[0, 1)\<close>, let \<open>W\<close>, \<open>H\<close> be the
  half-extents for the map name and let the \<open>j\<close>-th sample be built from the draws
  \<open>k + 2j\<close> and \<open>k + 2j + 1\<close>. Then \<open>findSafeSpawnPosition\<close> draws at most 50 samples
  (two random values each) and returns either the first sample \<open>j < 50\<close> whose box inflated
  by the player radius 20 overlaps no wall, and that sample lies in
  \<open>[-(W - 100), W - 100] \<times> [-(H - 100), H - 100]\<close>, or, when all 50 samples overlap a wall,
  the origin, unchecked. With no walls the very first sample is returned and lies in those
  bounds.
\<close>

theorem findSafeSpawnPosition_spec:
  assumes "\<forall>i. 0 \<le> rnd i \<and> rnd i < 1"
  shows
  "(let W = mapHalfWidth mapName;
        H = mapHalfHeight mapName;
        sample = (\<lambda>j. spawnSample rnd W H 100 (k + 2 * j));
        p = fst (findSafeSpawnPosition ws mapName rnd k);
        k' = snd (findSafeSpawnPosition ws mapName rnd k)
    in k' \<le> k + 2 * 50 \<and>
       ((\<exists>j<50. p = sample j \<and> k' = k + 2 * (j + 1) \<and> spawnClear ws p \<and>
                 (\<forall>m<j. \<not> spawnClear ws (sample m)) \<and>
                 - (W - 100) \<le> vec_x p \<and> vec_x p \<le> W - 100 \<and>
                 - (H - 100) \<le> vec_y p \<and> vec_y p \<le> H - 100) \<or>
        (p = \<lparr>vec_x = 0, vec_y = 0\<rparr> \<and> k' = k + 2 * 50 \<and>
         (\<forall>m<50. \<not> spawnClear ws (sample m)))) \<and>
       (ws = [] \<longrightarrow>
          p = sample 0 \<and> k' = k + 2 \<and>
          - (W - 100) \<le> vec_x p \<and> vec_x p \<le> W - 100 \<and>
          - (H - 100) \<le> vec_y p \<and> vec_y p \<le> H - 100))"
proof -
  let ?W = "mapHalfWidth mapName" and ?H = "mapHalfHeight mapName"
  let ?sample = "\<lambda>j. spawnSample rnd ?W ?H 100 (k + 2 * j)"
  let ?r = "findSafeSpawnPosition ws mapName rnd k"
  have pad: "(100::real) \<le> ?W" "(100::real) \<le> ?H"
    by (simp_all add: mapHalfWidth_def mapHalfHeight_def)
  have range: "- (?W - 100) \<le> vec_x (?sample j) \<and> vec_x (?sample j) \<le> ?W - 100 \<and>
               - (?H - 100) \<le> vec_y (?sample j) \<and> vec_y (?sample j) \<le> ?H - 100" for j
    using assms pad by (intro spawnSample_range) simp_all
  have r: "?r = spawnAttempts 50 ws ?W ?H 100 rnd k"
    by (rule findSafeSpawnPosition_unfold)
  have main: "(\<exists>j<50. fst ?r = ?sample j \<and> snd ?r = k + 2 * (j + 1) \<and> spawnClear ws (fst ?r) \<and>
                 (\<forall>m<j. \<not> spawnClear ws (?sample m)) \<and>
                 - (?W - 100) \<le> vec_x (fst ?r) \<and> vec_x (fst ?r) \<le> ?W - 100 \<and>
                 - (?H - 100) \<le> vec_y (fst ?r) \<and> vec_y (fst ?r) \<le> ?H - 100) \<or>
        (fst ?r = \<lparr>vec_x = 0, vec_y = 0\<rparr> \<and> snd ?r = k + 2 * 50 \<and>
         (\<forall>m<50. \<not> spawnClear ws (?sample m)))"
    using spawnAttempts_result [of 50 ws ?W ?H 100 rnd k]
  proof (elim disjE exE conjE)
    fix j :: nat
    assume "j < 50"
      and "spawnAttempts 50 ws ?W ?H 100 rnd k = (?sample j, k + 2 * (j + 1))"
      and "spawnClear ws (?sample j)"
      and "\<forall>m<j. \<not> spawnClear ws (?sample m)"
    then have "j < 50 \<and> fst ?r = ?sample j \<and> snd ?r = k + 2 * (j + 1) \<and> spawnClear ws (fst ?r) \<and>
                 (\<forall>m<j. \<not> spawnClear ws (?sample m)) \<and>
                 - (?W - 100) \<le> vec_x (fst ?r) \<and> vec_x (fst ?r) \<le> ?W - 100 \<and>
                 - (?H - 100) \<le> vec_y (fst ?r) \<and> vec_y (fst ?r) \<le> ?H - 100"
      using range [of j] by (simp add: r)
    then show ?thesis by blast
  next
    assume "spawnAttempts 50 ws ?W ?H 100 rnd k = (\<lparr>vec_x = 0, vec_y = 0\<rparr>, k + 2 * 50)"
      and "\<forall>m<50. \<not> spawnClear ws (?sample m)"
    then show ?thesis by (simp add: r)
  qed
  have bound: "snd ?r \<le> k + 2 * 50"
    using main by auto
  have empty: "fst ?r = ?sample 0 \<and> snd ?r = k + 2 \<and>
          - (?W - 100) \<le> vec_x (fst ?r) \<and> vec_x (fst ?r) \<le> ?W - 100 \<and>
          - (?H - 100) \<le> vec_y (fst ?r) \<and> vec_y (fst ?r) \<le> ?H - 100" if "ws = []"
  proof -
    have "spawnAttempts 50 ws ?W ?H 100 rnd k = (?sample 0, k + 2)"
      unfolding that using spawnAttempts_Suc [of 49 "[]" ?W ?H 100 rnd k]
      by (simp add: spawnClear_Nil)
    then show ?thesis using range [of 0] by (simp add: r)
  qed
  show ?thesis
    unfolding Let_def using bound main empty by blast
qed

text \<open>
  Wasteland with one wall around the origin and a source that always yields one half: every
  sample is the origin, which the wall blocks, so after 50 samples the origin is returned
  all the same; without the wall the first sample is returned.
\<close>

theorem findSafeSpawnPosition_spec_witness:
  "(\<forall>i. (0::real) \<le> 1 / 2 \<and> (1::real) / 2 < 1) \<and>
   findSafeSpawnPosition [] ''Wasteland'' (\<lambda>i. 1 / 2) 0 = (\<lparr>vec_x = 0, vec_y = 0\<rparr>, 2) \<and>
   findSafeSpawnPosition
     [\<lparr>wall_id = WallId 0, wall_x = -10, wall_y = -10, wall_width = 20, wall_height = 20, isLow = False\<rparr>]
     ''Wasteland'' (\<lambda>i. 1 / 2) 0 = (\<lparr>vec_x = 0, vec_y = 0\<rparr>, 100)"
proof -
  have h: "\<forall>i. (0::real) \<le> (\<lambda>i. 1 / 2) i \<and> (\<lambda>i. (1::real) / 2) i < 1" by simp
  note a = findSafeSpawnPosition_spec [OF h, of "''Wasteland''" 0 "[]"]
  note b = findSafeSpawnPosition_spec [OF h, of "''Wasteland''" 0
     "[\<lparr>wall_id = WallId 0, wall_x = -10, wall_y = -10, wall_width = 20, wall_height = 20, isLow = False\<rparr>]"]
  have s0: "spawnSample (\<lambda>i. 1 / 2) (mapHalfWidth ''Wasteland'') (mapHalfHeight ''Wasteland'') 100 j
              = \<lparr>vec_x = 0, vec_y = 0\<rparr>" for j
    by (simp add: spawnSample_def)
  have blocked: "\<not> spawnClear
     [\<lparr>wall_id = WallId 0, wall_x = -10, wall_y = -10, wall_width = 20, wall_height = 20, isLow = False\<rparr>]
     \<lparr>vec_x = 0, vec_y = 0\<rparr>"
    by (simp add: spawnClear_def)
  from a have "fst (findSafeSpawnPosition [] ''Wasteland'' (\<lambda>i. 1 / 2) 0) = \<lparr>vec_x = 0, vec_y = 0\<rparr> \<and>
               snd (findSafeSpawnPosition [] ''Wasteland'' (\<lambda>i. 1 / 2) 0) = 2"
    unfolding Let_def by (simp add: s0)
  then have "findSafeSpawnPosition [] ''Wasteland'' (\<lambda>i. 1 / 2) 0 = (\<lparr>vec_x = 0, vec_y = 0\<rparr>, 2)"
    by (simp add: prod_eq_iff)
  moreover from b blocked have "findSafeSpawnPosition
     [\<lparr>wall_id = WallId 0, wall_x = -10, wall_y = -10, wall_width = 20, wall_height = 20, isLow = False\<rparr>]
     ''Wasteland'' (\<lambda>i. 1 / 2) 0 = (\<lparr>vec_x = 0, vec_y = 0\<rparr>, 100)"
    unfolding Let_def s0 by (auto simp add: prod_eq_iff)
  ultimately show ?thesis by simp
qed

section \<open>Health-pack spawner\<close>

lemma healthPackAttempts_Suc:
  "healthPackAttempts (Suc n) now s =
    (if \<not> strictlyInsideSomeWall (walls s) (healthPackSample (rng s) (rngPos s))
     then s\<lparr>rngPos := rngPos s + 2,
            healthPacks := healthPacks s @ [newHealthPack now (healthPackSample (rng s) (rngPos s))],
            lastHealthPackTime := now\<rparr>
     else healthPackAttempts n now (s\<lparr>rngPos := rngPos s + 2\<rparr>))"
  by (simp add: strictlyInsideSomeWall_def healthPackSample_def newHealthPack_def mathRandom_def Let_def)

lemma healthPackAttempts_result:
  "(\<exists>j<n. healthPackAttempts n now s =
             s\<lparr>rngPos := rngPos s + 2 * (j + 1),
               healthPacks := healthPacks s @ [newHealthPack now (healthPackSample (rng s) (rngPos s + 2 * j))],
               lastHealthPackTime := now\<rparr> \<and>
           \<not> strictlyInsideSomeWall (walls s) (healthPackSample (rng s) (rngPos s + 2 * j)) \<and>
           (\<forall>m<j. strictlyInsideSomeWall (walls s) (healthPackSample (rng s) (rngPos s + 2 * m)))) \<or>
   (healthPackAttempts n now s = s\<lparr>rngPos := rngPos s + 2 * n\<rparr> \<and>
    (\<forall>m<n. strictlyInsideSomeWall (walls s) (healthPackSample (rng s) (rngPos s + 2 * m))))"
proof (induction n arbitrary: s)
  case 0
  show ?case by simp
next
  case (Suc n)
  let ?blocked = "\<lambda>i. strictlyInsideSomeWall (walls s) (healthPackSample (rng s) i)"
  show ?case
  proof (cases "?blocked (rngPos s)")
    case False
    then have "healthPackAttempts (Suc n) now s =
             s\<lparr>rngPos := rngPos s + 2 * (0 + 1),
               healthPacks := healthPacks s @ [newHealthPack now (healthPackSample (rng s) (rngPos s + 2 * 0))],
               lastHealthPackTime := now\<rparr>"
      by (simp only: healthPackAttempts_Suc) simp
    with False show ?thesis by (intro disjI1 exI [of _ 0]) simp
  next
    case True
    let ?s = "s\<lparr>rngPos := rngPos s + 2\<rparr>"
    from True have step: "healthPackAttempts (Suc n) now s = healthPackAttempts n now ?s"
      by (simp only: healthPackAttempts_Suc) simp
    have early: "?blocked (rngPos s + 2 * m)"
      if "m < Suc j" and "\<forall>m<j. ?blocked (rngPos s + 2 + 2 * m)" for m j
    proof (cases m)
      case 0
      with True show ?thesis by simp
    next
      case (Suc m')
      with that have "m' < j" by simp
      with that(2) have "?blocked (rngPos s + 2 + 2 * m')" by blast
      with Suc show ?thesis by (simp add: add.commute add.left_commute)
    qed
    from Suc.IH [of ?s] show ?thesis
    proof (elim disjE exE conjE)
      fix j
      assume j: "j < n"
        and r: "healthPackAttempts n now ?s =
             ?s\<lparr>rngPos := rngPos ?s + 2 * (j + 1),
               healthPacks := healthPacks ?s @ [newHealthPack now (healthPackSample (rng ?s) (rngPos ?s + 2 * j))],
               lastHealthPackTime := now\<rparr>"
        and c: "\<not> strictlyInsideSomeWall (walls ?s) (healthPackSample (rng ?s) (rngPos ?s + 2 * j))"
        and e: "\<forall>m<j. strictlyInsideSomeWall (walls ?s) (healthPackSample (rng ?s) (rngPos ?s + 2 * m))"
      have i: "rngPos s + 2 + 2 * j = rngPos s + 2 * Suc j" by simp
      from e have e': "\<forall>m<j. ?blocked (rngPos s + 2 + 2 * m)" by simp
      have "Suc j < Suc n \<and>
            healthPackAttempts (Suc n) now s =
             s\<lparr>rngPos := rngPos s + 2 * (Suc j + 1),
               healthPacks := healthPacks s @ [newHealthPack now (healthPackSample (rng s) (rngPos s + 2 * Suc j))],
               lastHealthPackTime := now\<rparr> \<and>
            \<not> ?blocked (rngPos s + 2 * Suc j) \<and>
            (\<forall>m<Suc j. ?blocked (rngPos s + 2 * m))"
        using j r c early [OF _ e'] unfolding step by (simp add: i)
      then show ?thesis by blast
    next
      assume r: "healthPackAttempts n now ?s = ?s\<lparr>rngPos := rngPos ?s + 2 * n\<rparr>"
        and e: "\<forall>m<n. strictlyInsideSomeWall (walls ?s) (healthPackSample (rng ?s) (rngPos ?s + 2 * m))"
      from e have e': "\<forall>m<n. ?blocked (rngPos s + 2 + 2 * m)" by simp
      have "healthPackAttempts (Suc n) now s = s\<lparr>rngPos := rngPos s + 2 * Suc n\<rparr> \<and>
            (\<forall>m<Suc n. ?blocked (rngPos s + 2 * m))"
        using r early [OF _ e'] unfolding step by simp
      then show ?thesis by blast
    qed
  qed
qed

lemma healthPackSample_range:
  assumes "0 \<le> rnd i" "rnd i < 1" "0 \<le> rnd (Suc i)" "rnd (Suc i) < 1"
  shows "- 1200 \<le> vec_x (healthPackSample rnd i) \<and> vec_x (healthPackSample rnd i) \<le> 1200 \<and>
         - 1200 \<le> vec_y (healthPackSample rnd i) \<and> vec_y (healthPackSample rnd i) \<le> 1200"
  using assms by (simp add: healthPackSample_def)

lemma healthPackAttempts_all_blocked:
  assumes "\<forall>i. strictlyInsideSomeWall (walls s) (healthPackSample (rng s) i)"
  shows "healthPackAttempts n now s = s\<lparr>rngPos := rngPos s + 2 * n\<rparr>"
  using assms
proof (induction n arbitrary: s)
  case 0
  show ?case by simp
next
  case (Suc n)
  from Suc.prems have "healthPackAttempts (Suc n) now s = healthPackAttempts n now (s\<lparr>rngPos := rngPos s + 2\<rparr>)"
    by (simp only: healthPackAttempts_Suc) simp
  also have "\<dots> = (s\<lparr>rngPos := rngPos s + 2\<rparr>)\<lparr>rngPos := rngPos (s\<lparr>rngPos := rngPos s + 2\<rparr>) + 2 * n\<rparr>"
    using Suc.prems by (intro Suc.IH) simp
  finally show ?case by simp
qed

text \<open>
  Claim C10 (as amended). Let the random source yield values in \<open>[0, 1)\<close>. One call of
  \<open>spawnHealthPack\<close> does nothing unless more than 30000 ms have passed since the last
  successful spawn. Otherwise it tries at most 10 candidates, each drawn from the fixed,
  map-independent square \<open>[-1200, 1200] \<times> [-1200, 1200]\<close> with two random values, and
  either pushes one pack at the first candidate that is not strictly inside any wall
  rectangle and sets the timer to \<open>now\<close>, or, when all 10 candidates are inside walls,
  pushes nothing and leaves the timer as it was (only the random source has advanced), so
  that the next frame tries again. Hence every spawned pack lies in that square and outside
  the interior of every wall.
\<close>

theorem spawnHealthPack_spec:
  assumes "\<forall>i. 0 \<le> rng s i \<and> rng s i < 1"
  shows
  "(\<not> now - lastHealthPackTime s > 30000 \<longrightarrow> spawnHealthPack now s = s) \<and>
   (now - lastHealthPackTime s > 30000 \<longrightarrow>
      (\<exists>j<10.
          spawnHealthPack now s =
            s\<lparr>rngPos := rngPos s + 2 * (j + 1),
              healthPacks := healthPacks s @
                [newHealthPack now (healthPackSample (rng s) (rngPos s + 2 * j))],
              lastHealthPackTime := now\<rparr> \<and>
          \<not> strictlyInsideSomeWall (walls s) (healthPackSample (rng s) (rngPos s + 2 * j)) \<and>
          (\<forall>m<j. strictlyInsideSomeWall (walls s) (healthPackSample (rng s) (rngPos s + 2 * m))) \<and>
          - 1200 \<le> vec_x (healthPackSample (rng s) (rngPos s + 2 * j)) \<and>
          vec_x (healthPackSample (rng s) (rngPos s + 2 * j)) \<le> 1200 \<and>
          - 1200 \<le> vec_y (healthPackSample (rng s) (rngPos s + 2 * j)) \<and>
          vec_y (healthPackSample (rng s) (rngPos s + 2 * j)) \<le> 1200) \<or>
      (spawnHealthPack now s = s\<lparr>rngPos := rngPos s + 2 * 10\<rparr> \<and>
       (\<forall>m<10. strictlyInsideSomeWall (walls s) (healthPackSample (rng s) (rngPos s + 2 * m)))))"
proof (intro conjI impI)
  assume "\<not> now - lastHealthPackTime s > 30000"
  then show "spawnHealthPack now s = s"
    by (simp add: spawnHealthPack_def HEALTH_PACK_INTERVAL_def)
next
  assume "now - lastHealthPackTime s > 30000"
  then have u: "spawnHealthPack now s = healthPackAttempts 10 now s"
    by (simp add: spawnHealthPack_def HEALTH_PACK_INTERVAL_def)
  have range: "- 1200 \<le> vec_x (healthPackSample (rng s) i) \<and> vec_x (healthPackSample (rng s) i) \<le> 1200 \<and>
         - 1200 \<le> vec_y (healthPackSample (rng s) i) \<and> vec_y (healthPackSample (rng s) i) \<le> 1200" for i
    using assms by (intro healthPackSample_range) simp_all
  from healthPackAttempts_result [of 10 now s]
  show "(\<exists>j<10.
          spawnHealthPack now s =
            s\<lparr>rngPos := rngPos s + 2 * (j + 1),
              healthPacks := healthPacks s @
                [newHealthPack now (healthPackSample (rng s) (rngPos s + 2 * j))],
              lastHealthPackTime := now\<rparr> \<and>
          \<not> strictlyInsideSomeWall (walls s) (healthPackSample (rng s) (rngPos s + 2 * j)) \<and>
          (\<forall>m<j. strictlyInsideSomeWall (walls s) (healthPackSample (rng s) (rngPos s + 2 * m))) \<and>
          - 1200 \<le> vec_x (healthPackSample (rng s) (rngPos s + 2 * j)) \<and>
          vec_x (healthPackSample (rng s) (rngPos s + 2 * j)) \<le> 1200 \<and>
          - 1200 \<le> vec_y (healthPackSample (rng s) (rngPos s + 2 * j)) \<and>
          vec_y (healthPackSample (rng s) (rngPos s + 2 * j)) \<le> 1200) \<or>
      (spawnHealthPack now s = s\<lparr>rngPos := rngPos s + 2 * 10\<rparr> \<and>
       (\<forall>m<10. strictlyInsideSomeWall (walls s) (healthPackSample (rng s) (rngPos s + 2 * m))))"
    unfolding u using range by blast
qed

lemma startWorld_fields:
  "rng startWorld = (\<lambda>i. 1 / 2)" "rngPos startWorld = 0" "walls startWorld = []"
  "healthPacks startWorld = []" "lastHealthPackTime startWorld = 0"
  by (simp_all add: startWorld_def)

text \<open>
  On the wall-free reference world, 30001 ms after the last spawn, the first candidate is
  taken: a pack appears at the origin and the timer is reset; 30000 ms after it, nothing
  happens.
\<close>

theorem spawnHealthPack_spec_witness:
  "(\<forall>i. 0 \<le> rng startWorld i \<and> rng startWorld i < 1) \<and>
   spawnHealthPack 30000 startWorld = startWorld \<and>
   spawnHealthPack 30001 startWorld =
     startWorld\<lparr>rngPos := 2,
                healthPacks := [newHealthPack 30001 \<lparr>vec_x = 0, vec_y = 0\<rparr>],
                lastHealthPackTime := 30001\<rparr>"
proof -
  have h: "\<forall>i. 0 \<le> rng startWorld i \<and> rng startWorld i < 1"
    by (simp add: startWorld_fields)
  have smp: "healthPackSample (rng startWorld) i = \<lparr>vec_x = 0, vec_y = 0\<rparr>" for i
    by (simp add: healthPackSample_def startWorld_fields)
  have clear: "\<not> strictlyInsideSomeWall (walls startWorld) p" for p
    by (simp add: strictlyInsideSomeWall_def startWorld_fields)
  from spawnHealthPack_spec [OF h, of 30000] have a: "spawnHealthPack 30000 startWorld = startWorld"
    by (simp add: startWorld_fields)
  have notall: "\<not> (\<forall>m<10. strictlyInsideSomeWall (walls startWorld)
                  (healthPackSample (rng startWorld) (rngPos startWorld + 2 * m)))"
  proof
    assume "\<forall>m<10. strictlyInsideSomeWall (walls startWorld)
                  (healthPackSample (rng startWorld) (rngPos startWorld + 2 * m))"
    then have "strictlyInsideSomeWall (walls startWorld)
                  (healthPackSample (rng startWorld) (rngPos startWorld + 2 * 0))"
      by (rule allE [of _ 0]) simp
    with clear show False by blast
  qed
  have gate: "30001 - lastHealthPackTime startWorld > 30000"
    by (simp add: startWorld_fields)
  from spawnHealthPack_spec [OF h, of 30001] gate notall have
    "\<exists>j<10. spawnHealthPack 30001 startWorld =
            startWorld\<lparr>rngPos := rngPos startWorld + 2 * (j + 1),
              healthPacks := healthPacks startWorld @
                [newHealthPack 30001 (healthPackSample (rng startWorld) (rngPos startWorld + 2 * j))],
              lastHealthPackTime := 30001\<rparr> \<and>
          (\<forall>m<j. strictlyInsideSomeWall (walls startWorld)
                   (healthPackSample (rng startWorld) (rngPos startWorld + 2 * m)))"
    by blast
  then have
    "\<exists>j<10. spawnHealthPack 30001 startWorld =
            startWorld\<lparr>rngPos := rngPos startWorld + 2 * (j + 1),
              healthPacks := healthPacks startWorld @ [newHealthPack 30001 \<lparr>vec_x = 0, vec_y = 0\<rparr>],
              lastHealthPackTime := 30001\<rparr> \<and>
          (\<forall>m<j. False)"
    unfolding smp using clear by simp
  then obtain j where j: "spawnHealthPack 30001 startWorld =
            startWorld\<lparr>rngPos := rngPos startWorld + 2 * (j + 1),
              healthPacks := healthPacks startWorld @ [newHealthPack 30001 \<lparr>vec_x = 0, vec_y = 0\<rparr>],
              lastHealthPackTime := 30001\<rparr>" and "\<forall>m<j. False"
    by blast
  then have "j = 0" by (cases j) auto
  with j have "spawnHealthPack 30001 startWorld =
     startWorld\<lparr>rngPos := 2,
                healthPacks := [newHealthPack 30001 \<lparr>vec_x = 0, vec_y = 0\<rparr>],
                lastHealthPackTime := 30001\<rparr>"
    by (simp add: startWorld_fields)
  with h a show ?thesis by simp
qed

text \<open>
  Claim C10 as stated fails on a map whose walls cover the whole square: a call 30001 ms
  after the last spawn makes 10 failed attempts (20 random draws) and does not reset the
  timer, so the call of the next frame, 16 ms later, makes 10 more: 20 attempts within one
  30000 ms interval, and still no pack.
\<close>

theorem spawnHealthPack_retries_every_frame:
  "rngPos (spawnHealthPack 30001
      (startWorld\<lparr>walls := [\<lparr>wall_id = WallId 0, wall_x = -2000, wall_y = -2000, wall_width = 4000,
                                wall_height = 4000, isLow = False\<rparr>]\<rparr>)) = 20 \<and>
   rngPos (spawnHealthPack 30017 (spawnHealthPack 30001
      (startWorld\<lparr>walls := [\<lparr>wall_id = WallId 0, wall_x = -2000, wall_y = -2000, wall_width = 4000,
                                wall_height = 4000, isLow = False\<rparr>]\<rparr>))) = 40 \<and>
   healthPacks (spawnHealthPack 30017 (spawnHealthPack 30001
      (startWorld\<lparr>walls := [\<lparr>wall_id = WallId 0, wall_x = -2000, wall_y = -2000, wall_width = 4000,
                                wall_height = 4000, isLow = False\<rparr>]\<rparr>))) = [] \<and>
   lastHealthPackTime (spawnHealthPack 30017 (spawnHealthPack 30001
      (startWorld\<lparr>walls := [\<lparr>wall_id = WallId 0, wall_x = -2000, wall_y = -2000, wall_width = 4000,
                                wall_height = 4000, isLow = False\<rparr>]\<rparr>))) = 0"
proof -
  let ?w = "\<lparr>wall_id = WallId 0, wall_x = -2000, wall_y = -2000, wall_width = 4000,
                                wall_height = 4000, isLow = False\<rparr>"
  let ?s = "startWorld\<lparr>walls := [?w]\<rparr>"
  have blocked: "\<forall>i. strictlyInsideSomeWall (walls (?s\<lparr>rngPos := k\<rparr>)) (healthPackSample (rng (?s\<lparr>rngPos := k\<rparr>)) i)" for k
    by (simp add: strictlyInsideSomeWall_def healthPackSample_def insideWall_def startWorld_fields)
  have one: "spawnHealthPack now (?s\<lparr>rngPos := k\<rparr>) = ?s\<lparr>rngPos := k + 20\<rparr>" if "now > 30000" for now :: real and k :: nat
    using that healthPackAttempts_all_blocked [OF blocked, where n = 10 and now = now]
    by (simp add: spawnHealthPack_def HEALTH_PACK_INTERVAL_def startWorld_fields)
  have s0: "?s = ?s\<lparr>rngPos := 0\<rparr>" by (simp add: startWorld_def)
  have first: "spawnHealthPack 30001 ?s = ?s\<lparr>rngPos := 20\<rparr>"
    using one [of 30001 0] s0 by simp
  have second: "spawnHealthPack 30017 (?s\<lparr>rngPos := 20\<rparr>) = ?s\<lparr>rngPos := 40\<rparr>"
    using one [of 30017 20] by simp
  show ?thesis by (simp add: first second startWorld_fields)
qed

section \<open>What each step of the frame changes\<close>

subsection \<open>Step 1\<close>

lemma movePlayer_idle:
  "\<not> (hp (player s) > 0 \<and> gameState f = PLAYING) \<Longrightarrow> movePlayer f s = s"
  by (simp only: movePlayer_def if_False)

lemma movePlayer_fields [simp]:
  "enemies (movePlayer f s) = enemies s"
  "bullets (movePlayer f s) = bullets s"
  "walls (movePlayer f s) = walls s"
  "healthPacks (movePlayer f s) = healthPacks s"
  "decorations (movePlayer f s) = decorations s"
  "score (movePlayer f s) = score s"
  "lastSpawnTime (movePlayer f s) = lastSpawnTime s"
  "lastHealthPackTime (movePlayer f s) = lastHealthPackTime s"
  "lastShotTime (movePlayer f s) = lastShotTime s"
  "rng (movePlayer f s) = rng s"
  by (simp_all add: movePlayer_def Let_def split: prod.split)

lemma movePlayer_player_fields [simp]:
  "ammo (player (movePlayer f s)) = ammo (player s)"
  "maxHp (player (movePlayer f s)) = maxHp (player s)"
  "radius (player (movePlayer f s)) = radius (player s)"
  "ident (player (movePlayer f s)) = ident (player s)"
  "speed (player (movePlayer f s)) = speed (player s)"
proof -
  have sndp: "p = snd (playerDecorations (steerPlayer f (walls s) (player s)) False (decorations s))"
    if "playerDecorations (steerPlayer f (walls s) (player s)) False (decorations s) = (h, p)" for h p
    using that by simp
  show "ammo (player (movePlayer f s)) = ammo (player s)"
  "maxHp (player (movePlayer f s)) = maxHp (player s)"
  "radius (player (movePlayer f s)) = radius (player s)"
  "ident (player (movePlayer f s)) = ident (player s)"
  "speed (player (movePlayer f s)) = speed (player s)"
    by (auto simp add: movePlayer_def Let_def split: prod.split dest!: sndp)
qed

subsection \<open>Round-end check and shooting\<close>

lemma roundEndCheck_fields [simp]:
  "player (roundEndCheck f s) = player s"
  "bullets (roundEndCheck f s) = bullets s"
  "enemies (roundEndCheck f s) = enemies s"
  "lastShotTime (roundEndCheck f s) = lastShotTime s"
  "SetHealth v \<in> set (events (roundEndCheck f s)) \<longleftrightarrow> SetHealth v \<in> set (events s)"
  by (simp_all add: roundEndCheck_def Let_def)

lemma shoot_fields [simp]:
  "hp (player (shoot f aim s)) = hp (player s)"
  "maxHp (player (shoot f aim s)) = maxHp (player s)"
  "position (player (shoot f aim s)) = position (player s)"
  "radius (player (shoot f aim s)) = radius (player s)"
  "enemies (shoot f aim s) = enemies s"
  "SetHealth v \<in> set (events (shoot f aim s)) \<longleftrightarrow> SetHealth v \<in> set (events s)"
  by (simp_all add: shoot_def Let_def)

subsection \<open>Spawning\<close>

lemma spawnEnemy_fields [simp]:
  "player (spawnEnemy f w h now cam s) = player s"
  "bullets (spawnEnemy f w h now cam s) = bullets s"
  "lastShotTime (spawnEnemy f w h now cam s) = lastShotTime s"
  "events (spawnEnemy f w h now cam s) = events s"
  by (simp_all add: spawnEnemy_def mathRandom_def Let_def)

lemma healthPackAttempts_fields:
  "player (healthPackAttempts n now s) = player s \<and>
   bullets (healthPackAttempts n now s) = bullets s \<and>
   enemies (healthPackAttempts n now s) = enemies s \<and>
   lastShotTime (healthPackAttempts n now s) = lastShotTime s \<and>
   events (healthPackAttempts n now s) = events s"
  using healthPackAttempts_result [of n now s] by auto

lemma spawnHealthPack_fields [simp]:
  "player (spawnHealthPack now s) = player s"
  "bullets (spawnHealthPack now s) = bullets s"
  "enemies (spawnHealthPack now s) = enemies s"
  "lastShotTime (spawnHealthPack now s) = lastShotTime s"
  "events (spawnHealthPack now s) = events s"
  using healthPackAttempts_fields [of 10 now s] by (simp_all add: spawnHealthPack_def)

subsection \<open>Bullets\<close>

lemma filterBullets_fields:
  "player (snd (filterBullets f cam d bs s)) = player s \<and>
   enemies (snd (filterBullets f cam d bs s)) = enemies s \<and>
   walls (snd (filterBullets f cam d bs s)) = walls s \<and>
   lastShotTime (snd (filterBullets f cam d bs s)) = lastShotTime s \<and>
   events (snd (filterBullets f cam d bs s)) = events s"
  by (induction bs arbitrary: s) (simp_all add: Let_def case_prod_unfold)

lemma updateBullets_fields [simp]:
  "player (updateBullets f w h cam s) = player s"
  "enemies (updateBullets f w h cam s) = enemies s"
  "walls (updateBullets f w h cam s) = walls s"
  "lastShotTime (updateBullets f w h cam s) = lastShotTime s"
  "events (updateBullets f w h cam s) = events s"
  using filterBullets_fields [of f cam "max w h * 1.5" "map integrateBullet (bullets s)" s]
  by (simp_all add: updateBullets_def Let_def case_prod_unfold)

subsection \<open>Enemies\<close>

lemma updateEnemy_fields:
  "ammo (player (snd (updateEnemy f e s))) = ammo (player s) \<and>
   maxHp (player (snd (updateEnemy f e s))) = maxHp (player s) \<and>
   position (player (snd (updateEnemy f e s))) = position (player s) \<and>
   radius (player (snd (updateEnemy f e s))) = radius (player s) \<and>
   bullets (snd (updateEnemy f e s)) = bullets s \<and>
   walls (snd (updateEnemy f e s)) = walls s \<and>
   decorations (snd (updateEnemy f e s)) = decorations s \<and>
   lastShotTime (snd (updateEnemy f e s)) = lastShotTime s"
  by (simp add: updateEnemy_def Let_def)

lemma updateEnemiesLoop_fields:
  "ammo (player (snd (updateEnemiesLoop f es s))) = ammo (player s) \<and>
   maxHp (player (snd (updateEnemiesLoop f es s))) = maxHp (player s) \<and>
   position (player (snd (updateEnemiesLoop f es s))) = position (player s) \<and>
   radius (player (snd (updateEnemiesLoop f es s))) = radius (player s) \<and>
   bullets (snd (updateEnemiesLoop f es s)) = bullets s \<and>
   walls (snd (updateEnemiesLoop f es s)) = walls s \<and>
   decorations (snd (updateEnemiesLoop f es s)) = decorations s \<and>
   lastShotTime (snd (updateEnemiesLoop f es s)) = lastShotTime s"
proof (induction es arbitrary: s)
  case Nil
  show ?case by simp
next
  case (Cons e es)
  obtain e' s1 where u: "updateEnemy f e s = (e', s1)" by (cases "updateEnemy f e s")
  obtain es' s2 where l: "updateEnemiesLoop f es s1 = (es', s2)" by (cases "updateEnemiesLoop f es s1")
  from updateEnemy_fields [of f e s] u have a:
    "ammo (player s1) = ammo (player s)" "maxHp (player s1) = maxHp (player s)"
    "position (player s1) = position (player s)" "radius (player s1) = radius (player s)"
    "bullets s1 = bullets s" "walls s1 = walls s" "decorations s1 = decorations s"
    "lastShotTime s1 = lastShotTime s"
    by simp_all
  from Cons.IH [of s1] l have b:
    "ammo (player s2) = ammo (player s1)" "maxHp (player s2) = maxHp (player s1)"
    "position (player s2) = position (player s1)" "radius (player s2) = radius (player s1)"
    "bullets s2 = bullets s1" "walls s2 = walls s1" "decorations s2 = decorations s1"
    "lastShotTime s2 = lastShotTime s1"
    by simp_all
  show ?case by (simp add: u l a b)
qed

lemma updateEnemies_fields [simp]:
  "ammo (player (updateEnemies f s)) = ammo (player s)"
  "maxHp (player (updateEnemies f s)) = maxHp (player s)"
  "position (player (updateEnemies f s)) = position (player s)"
  "radius (player (updateEnemies f s)) = radius (player s)"
  "bullets (updateEnemies f s) = bullets s"
  "walls (updateEnemies f s) = walls s"
  "lastShotTime (updateEnemies f s) = lastShotTime s"
  using updateEnemiesLoop_fields [of f "enemies s" s]
  by (simp_all add: updateEnemies_def case_prod_unfold Let_def)

subsection \<open>Combat\<close>

lemma combatEnemies_fields:
  "player (snd (snd (combatEnemies f b es s))) = player s \<and>
   lastShotTime (snd (snd (combatEnemies f b es s))) = lastShotTime s \<and>
   healthPacks (snd (snd (combatEnemies f b es s))) = healthPacks s \<and>
   (SetHealth v \<in> set (events (snd (snd (combatEnemies f b es s)))) \<longleftrightarrow> SetHealth v \<in> set (events s))"
  by (induction es arbitrary: b s) (simp_all add: Let_def case_prod_unfold)

lemma combatBullets_fields:
  "player (snd (snd (combatBullets f bs es s))) = player s \<and>
   lastShotTime (snd (snd (combatBullets f bs es s))) = lastShotTime s \<and>
   healthPacks (snd (snd (combatBullets f bs es s))) = healthPacks s \<and>
   (SetHealth v \<in> set (events (snd (snd (combatBullets f bs es s)))) \<longleftrightarrow> SetHealth v \<in> set (events s))"
proof (induction bs arbitrary: es s)
  case Nil
  show ?case by simp
next
  case (Cons b bs)
  obtain b' es1 s1 where u: "combatEnemies f b es s = (b', es1, s1)" by (cases "combatEnemies f b es s")
  obtain bs' es2 s2 where l: "combatBullets f bs es1 s1 = (bs', es2, s2)" by (cases "combatBullets f bs es1 s1")
  from combatEnemies_fields [of f b es s v] u have a:
    "player s1 = player s" "lastShotTime s1 = lastShotTime s" "healthPacks s1 = healthPacks s"
    "SetHealth v \<in> set (events s1) \<longleftrightarrow> SetHealth v \<in> set (events s)"
    by simp_all
  from Cons.IH [of es1 s1] l have b:
    "player s2 = player s1" "lastShotTime s2 = lastShotTime s1" "healthPacks s2 = healthPacks s1"
    "SetHealth v \<in> set (events s2) \<longleftrightarrow> SetHealth v \<in> set (events s1)"
    by simp_all
  show ?case by (simp add: u l a b)
qed

lemma bulletEnemyCombat_fields [simp]:
  "player (bulletEnemyCombat f s) = player s"
  "lastShotTime (bulletEnemyCombat f s) = lastShotTime s"
  "healthPacks (bulletEnemyCombat f s) = healthPacks s"
  "SetHealth v \<in> set (events (bulletEnemyCombat f s)) \<longleftrightarrow> SetHealth v \<in> set (events s)"
  using combatBullets_fields [of f "bullets s" "enemies s" s v]
  by (simp_all add: bulletEnemyCombat_def case_prod_unfold Let_def)

subsection \<open>Pickup, cleanup, particles\<close>

lemma pickupLoop_fields:
  "ammo (player (snd (pickupLoop f packs s))) = ammo (player s) \<and>
   maxHp (player (snd (pickupLoop f packs s))) = maxHp (player s) \<and>
   bullets (snd (pickupLoop f packs s)) = bullets s \<and>
   enemies (snd (pickupLoop f packs s)) = enemies s \<and>
   lastShotTime (snd (pickupLoop f packs s)) = lastShotTime s"
  by (induction packs arbitrary: s) (simp_all add: Let_def case_prod_unfold)

lemma healthPackPickup_fields [simp]:
  "ammo (player (healthPackPickup f s)) = ammo (player s)"
  "maxHp (player (healthPackPickup f s)) = maxHp (player s)"
  "bullets (healthPackPickup f s) = bullets s"
  "enemies (healthPackPickup f s) = enemies s"
  "lastShotTime (healthPackPickup f s) = lastShotTime s"
  using pickupLoop_fields [of f "healthPacks s" s]
  by (simp_all add: healthPackPickup_def case_prod_unfold Let_def)

lemma cleanup_fields [simp]:
  "player (cleanup s) = player s"
  "lastShotTime (cleanup s) = lastShotTime s"
  "events (cleanup s) = events s"
  "bullets (cleanup s) = filter (\<lambda>b. damage b > 0) (bullets s)"
  "enemies (cleanup s) = filter (\<lambda>e. enemy_hp e > 0) (enemies s)"
  by (simp_all add: cleanup_def)

lemma updateParticles_fields [simp]:
  "player (updateParticles s) = player s"
  "lastShotTime (updateParticles s) = lastShotTime s"
  "events (updateParticles s) = events s"
  "bullets (updateParticles s) = bullets s"
  "enemies (updateParticles s) = enemies s"
  by (simp_all add: updateParticles_def)

section \<open>The frame as a composition of its steps\<close>

lemma gameLoop_idle:
  "(gameState f \<noteq> PLAYING \<and> gameState f \<noteq> SPECTATING) \<or> canvas f = None \<Longrightarrow> gameLoop f s = s"
  by (auto simp add: gameLoop_def)

lemma gameLoop_running:
  assumes "gameState f = PLAYING \<or> gameState f = SPECTATING" and "canvas f = Some (w, h)"
  shows "gameLoop f s =
    updateParticles (cleanup (healthPackPickup f (bulletEnemyCombat f (updateEnemies f
      (updateBullets f w h (cameraPos f (shoot f (aimAngle f w h) (roundEndCheck f (movePlayer f s))))
        (if gameState f = PLAYING
         then spawnHealthPack (time f)
                (spawnEnemy f w h (time f)
                   (cameraPos f (shoot f (aimAngle f w h) (roundEndCheck f (movePlayer f s))))
                   (shoot f (aimAngle f w h) (roundEndCheck f (movePlayer f s))))
         else spawnEnemy f w h (time f)
                (cameraPos f (shoot f (aimAngle f w h) (roundEndCheck f (movePlayer f s))))
                (shoot f (aimAngle f w h) (roundEndCheck f (movePlayer f s)))))))))"
  using assms by (auto simp add: gameLoop_def Let_def)

lemma gameLoop_ammo:
  assumes "gameState f = PLAYING \<or> gameState f = SPECTATING" and "canvas f = Some (w, h)"
  shows "ammo (player (gameLoop f s)) =
           ammo (player (shoot f (aimAngle f w h) (roundEndCheck f (movePlayer f s))))"
    and "lastShotTime (gameLoop f s) =
           lastShotTime (shoot f (aimAngle f w h) (roundEndCheck f (movePlayer f s)))"
  by (simp_all add: gameLoop_running [OF assms])

section \<open>Shooting\<close>

lemma shoot_fires:
  "fires f s \<Longrightarrow>
   shoot f aim s =
     s\<lparr>player := (player s)\<lparr>ammo := ammo (player s) - 1\<rparr>,
       bullets := bullets s @ [firedBullet f aim (player s)],
       lastShotTime := time f,
       events := events s @ (if hasSetAmmo f then [PlayShoot, SetAmmo (ammo (player s) - 1)] else [PlayShoot])\<rparr>"
  by (simp add: fires_def shoot_def FIRE_RATE_def firedBullet_def emit_def Let_def)

lemma shoot_holds:
  "\<not> fires f s \<Longrightarrow> shoot f aim s = s"
  by (auto simp add: fires_def shoot_def FIRE_RATE_def)

text \<open>
  Claim C7 (as amended). In the shooting step a bullet is spawned if and only if the player
  is alive, the game state is active play, the mouse is held, strictly more than 500 ms have
  elapsed since the last shot and ammo is strictly positive. A spawn appends exactly one
  bullet (radius 4, damage 20, owned by the player), consumes exactly one ammo, reports it
  and sets the time of the last shot to the frame time; when any condition fails the step
  changes nothing at all. Ammo that is not negative stays so, in the step and over the whole
  frame, in which only the shooting step touches ammo and the shot timer (the conditions
  being evaluated on the state after step 1 and the round-end check).
\<close>

theorem shoot_spec:
  "(let fire = (hp (player s) > 0 \<and> gameState f = PLAYING \<and> isMouseDown f \<and>
                time f - lastShotTime s > 500 \<and> ammo (player s) > 0)
    in (fire \<longrightarrow>
          bullets (shoot f aim s) = bullets s @ [firedBullet f aim (player s)] \<and>
          ammo (player (shoot f aim s)) = ammo (player s) - 1 \<and>
          0 \<le> ammo (player (shoot f aim s)) \<and>
          lastShotTime (shoot f aim s) = time f \<and>
          events (shoot f aim s) =
            events s @ (if hasSetAmmo f then [PlayShoot, SetAmmo (ammo (player s) - 1)] else [PlayShoot])) \<and>
       (\<not> fire \<longrightarrow> shoot f aim s = s) \<and>
       (length (bullets (shoot f aim s)) = length (bullets s) + 1 \<longleftrightarrow> fire)) \<and>
   (0 \<le> ammo (player s) \<longrightarrow> 0 \<le> ammo (player (shoot f aim s))) \<and>
   ((gameState f = PLAYING \<or> gameState f = SPECTATING) \<and> canvas f = Some (w, h) \<longrightarrow>
      (let fire = (hp (player (movePlayer f s)) > 0 \<and> gameState f = PLAYING \<and> isMouseDown f \<and>
                   time f - lastShotTime s > 500 \<and> ammo (player s) > 0)
       in ammo (player (gameLoop f s)) = (if fire then ammo (player s) - 1 else ammo (player s)) \<and>
          lastShotTime (gameLoop f s) = (if fire then time f else lastShotTime s)) \<and>
      (0 \<le> ammo (player s) \<longrightarrow> 0 \<le> ammo (player (gameLoop f s))))"
proof -
  have fire: "(hp (player s) > 0 \<and> gameState f = PLAYING \<and> isMouseDown f \<and>
                time f - lastShotTime s > 500 \<and> ammo (player s) > 0) = fires f s" for s
    by (simp add: fires_def)
  let ?s1 = "roundEndCheck f (movePlayer f s)"
  have fire1: "(hp (player (movePlayer f s)) > 0 \<and> gameState f = PLAYING \<and> isMouseDown f \<and>
                   time f - lastShotTime s > 500 \<and> ammo (player s) > 0) = fires f ?s1"
    by (simp add: fires_def)
  have step: "(fires f s \<longrightarrow>
          bullets (shoot f aim s) = bullets s @ [firedBullet f aim (player s)] \<and>
          ammo (player (shoot f aim s)) = ammo (player s) - 1 \<and>
          0 \<le> ammo (player (shoot f aim s)) \<and>
          lastShotTime (shoot f aim s) = time f \<and>
          events (shoot f aim s) =
            events s @ (if hasSetAmmo f then [PlayShoot, SetAmmo (ammo (player s) - 1)] else [PlayShoot])) \<and>
       (\<not> fires f s \<longrightarrow> shoot f aim s = s) \<and>
       (length (bullets (shoot f aim s)) = length (bullets s) + 1 \<longleftrightarrow> fires f s)"
  proof (cases "fires f s")
    case True
    then have "0 < ammo (player s)" by (simp add: fires_def)
    with True show ?thesis by (simp add: shoot_fires)
  next
    case False
    then show ?thesis by (simp add: shoot_holds)
  qed
  have keep: "0 \<le> ammo (player s) \<longrightarrow> 0 \<le> ammo (player (shoot f aim s))"
  proof (cases "fires f s")
    case True
    then have "0 < ammo (player s)" by (simp add: fires_def)
    with True show ?thesis by (simp add: shoot_fires)
  next
    case False
    then have "shoot f aim s = s" by (rule shoot_holds)
    then show ?thesis by simp
  qed
  have frame: "ammo (player (gameLoop f s)) = (if fires f ?s1 then ammo (player s) - 1 else ammo (player s)) \<and>
          lastShotTime (gameLoop f s) = (if fires f ?s1 then time f else lastShotTime s) \<and>
          (0 \<le> ammo (player s) \<longrightarrow> 0 \<le> ammo (player (gameLoop f s)))"
    if r: "(gameState f = PLAYING \<or> gameState f = SPECTATING) \<and> canvas f = Some (w, h)"
  proof -
    have am: "ammo (player ?s1) = ammo (player s)" and ls: "lastShotTime ?s1 = lastShotTime s"
      by simp_all
    from r have g: "ammo (player (gameLoop f s)) = ammo (player (shoot f (aimAngle f w h) ?s1))"
      and t: "lastShotTime (gameLoop f s) = lastShotTime (shoot f (aimAngle f w h) ?s1)"
      by (simp_all add: gameLoop_ammo)
    show ?thesis
    proof (cases "fires f ?s1")
      case True
      then have "0 < ammo (player s)" by (simp add: fires_def)
      with True show ?thesis unfolding g t by (simp add: shoot_fires)
    next
      case False
      then have "shoot f (aimAngle f w h) ?s1 = ?s1" by (rule shoot_holds)
      with False show ?thesis unfolding g t by simp
    qed
  qed
  show ?thesis
    unfolding Let_def fire fire1 using step keep frame by blast
qed

text \<open>
  The reference scenario with the mouse held, 501 ms after the last shot: one bullet, ammo
  from 120 to 119, in the step and in the frame.
\<close>

theorem shoot_spec_witness:
  "bullets (shoot (quietFrame\<lparr>isMouseDown := True, time := 501\<rparr>) 0 startWorld) =
     [firedBullet (quietFrame\<lparr>isMouseDown := True, time := 501\<rparr>) 0 (player startWorld)] \<and>
   ammo (player (shoot (quietFrame\<lparr>isMouseDown := True, time := 501\<rparr>) 0 startWorld)) = 119 \<and>
   lastShotTime (shoot (quietFrame\<lparr>isMouseDown := True, time := 501\<rparr>) 0 startWorld) = 501 \<and>
   shoot (quietFrame\<lparr>time := 501\<rparr>) 0 startWorld = startWorld \<and>
   ammo (player (gameLoop (quietFrame\<lparr>isMouseDown := True, time := 501\<rparr>) startWorld)) = 119 \<and>
   lastShotTime (gameLoop (quietFrame\<lparr>isMouseDown := True, time := 501\<rparr>) startWorld) = 501"
proof -
  let ?f = "quietFrame\<lparr>isMouseDown := True, time := 501\<rparr>"
  let ?g = "quietFrame\<lparr>time := 501\<rparr>"
  have w: "hp (player startWorld) = 100" "ammo (player startWorld) = 120" "lastShotTime startWorld = 0"
    "bullets startWorld = []"
    by (simp_all add: startWorld_def resetPlayer_def)
  have f: "gameState ?f = PLAYING" "isMouseDown ?f" "time ?f = 501" "canvas ?f = Some (800, 600)"
    "gameState ?g = PLAYING" "\<not> isMouseDown ?g"
    by (simp_all add: quietFrame_def)
  have m: "hp (player (movePlayer ?f startWorld)) = 100"
    by (simp add: movePlayer_def f w Let_def case_prod_unfold startWorld_def resetPlayer_def)
  note a = shoot_spec [of startWorld ?f 0 800 600, unfolded Let_def]
  note b = shoot_spec [of startWorld ?g 0 800 600, unfolded Let_def]
  from a have "bullets (shoot ?f 0 startWorld) = [firedBullet ?f 0 (player startWorld)] \<and>
      ammo (player (shoot ?f 0 startWorld)) = 119 \<and> lastShotTime (shoot ?f 0 startWorld) = 501"
    by (simp add: f w)
  moreover from b have "shoot ?g 0 startWorld = startWorld"
    by (simp add: f)
  moreover from a have "ammo (player (gameLoop ?f startWorld)) = 119 \<and> lastShotTime (gameLoop ?f startWorld) = 501"
    by (simp add: f w m)
  ultimately show ?thesis by simp
qed

text \<open>
  Claim C7 as stated fails at the boundary: exactly 500 ms after the last shot (so at least
  500 ms have elapsed), with a live player, active play, the mouse held and 120 ammo, the
  step changes nothing: no bullet, no ammo consumed, in the step and in the frame.
\<close>

theorem shoot_not_at_500_ms:
  "hp (player startWorld) > 0 \<and>
   gameState (quietFrame\<lparr>isMouseDown := True, time := 500\<rparr>) = PLAYING \<and>
   isMouseDown (quietFrame\<lparr>isMouseDown := True, time := 500\<rparr>) \<and>
   time (quietFrame\<lparr>isMouseDown := True, time := 500\<rparr>) - lastShotTime startWorld \<ge> 500 \<and>
   ammo (player startWorld) > 0 \<and>
   shoot (quietFrame\<lparr>isMouseDown := True, time := 500\<rparr>) 0 startWorld = startWorld \<and>
   bullets (shoot (quietFrame\<lparr>isMouseDown := True, time := 500\<rparr>) 0 startWorld) = [] \<and>
   ammo (player (gameLoop (quietFrame\<lparr>isMouseDown := True, time := 500\<rparr>) startWorld)) = 120 \<and>
   lastShotTime (gameLoop (quietFrame\<lparr>isMouseDown := True, time := 500\<rparr>) startWorld) = 0"
proof -
  let ?f = "quietFrame\<lparr>isMouseDown := True, time := 500\<rparr>"
  have w: "hp (player startWorld) = 100" "ammo (player startWorld) = 120" "lastShotTime startWorld = 0"
    "bullets startWorld = []"
    by (simp_all add: startWorld_def resetPlayer_def)
  have f: "gameState ?f = PLAYING" "isMouseDown ?f" "time ?f = 500" "canvas ?f = Some (800, 600)"
    by (simp_all add: quietFrame_def)
  have n: "\<not> fires ?f s" if "lastShotTime s = 0" for s
    using that by (simp add: fires_def f)
  have s: "shoot ?f aim startWorld = startWorld" for aim
    by (rule shoot_holds) (simp add: n w)
  have g: "ammo (player (gameLoop ?f startWorld)) = 120 \<and> lastShotTime (gameLoop ?f startWorld) = 0"
    using gameLoop_ammo [of ?f 800 600 startWorld]
    by (simp add: f shoot_holds [OF n] w)
  from s g show ?thesis by (simp add: w f)
qed

section \<open>Bullet integration and despawn\<close>

lemma filterBullets_kept:
  "fst (filterBullets f cam d bs s) =
     filter (\<lambda>b. \<not> list_ex (checkBulletWallCollision b) (walls s) \<and>
                 sqrt ((vec_x (position b) - vec_x cam) * (vec_x (position b) - vec_x cam) +
                       (vec_y (position b) - vec_y cam) * (vec_y (position b) - vec_y cam)) < d) bs"
  by (induction bs arbitrary: s) (simp_all add: Let_def case_prod_unfold)

lemma updateBullets_kept:
  "bullets (updateBullets f w h cam s) =
     filter (\<lambda>b. \<not> list_ex (checkBulletWallCollision b) (walls s) \<and>
                 pointDistance (position b) cam < max w h * 1.5)
       (map integrateBullet (bullets s))"
  using filterBullets_kept [of f cam "max w h * 1.5" "map integrateBullet (bullets s)" s]
  by (simp add: updateBullets_def Let_def case_prod_unfold pointDistance_def)

lemma less_square_iff_sqrt_less:
  fixes q r :: real
  assumes "0 \<le> r"
  shows "q < r * r \<longleftrightarrow> sqrt q < r"
proof -
  have "sqrt q < r \<longleftrightarrow> sqrt q < sqrt (r * r)" using assms by simp
  also have "\<dots> \<longleftrightarrow> q < r * r" by (simp only: real_sqrt_less_iff)
  finally show ?thesis by simp
qed

lemma checkBulletWallCollision_iff:
  assumes "0 \<le> radius b"
  shows "checkBulletWallCollision b wall \<longleftrightarrow>
           \<not> isLow wall \<and> pointDistance (position b) (closestPoint (position b) wall) < radius b"
  using less_square_iff_sqrt_less [OF assms]
  by (simp add: checkBulletWallCollision_def pointDistance_def closestPoint_def Let_def)

lemma integrateBullet_fields [simp]:
  "radius (integrateBullet b) = radius b"
  "damage (integrateBullet b) = damage b"
  "ident (integrateBullet b) = ident b"
  "velocity (integrateBullet b) = velocity b"
  "ownerId (integrateBullet b) = ownerId b"
  by (simp_all add: integrateBullet_def)

text \<open>
  Claim C5 (as amended). Let every bullet have a non-negative radius (the code creates
  bullets with radius 4 only). After the position integration a bullet is destroyed exactly
  when it contacts a wall that is not low, the distance from its centre to the closest
  point of the wall being strictly less than its radius, or when its distance from the
  camera focus reaches or exceeds 1.5 times the larger of the canvas width and height (not
  the viewport diagonal). Low walls and decorations never destroy a bullet: adding low walls
  or changing the decorations changes nothing in the surviving bullets.
\<close>

theorem updateBullets_spec:
  assumes "\<forall>b \<in> set (bullets s). 0 \<le> radius b"
  shows
  "bullets (updateBullets f w h cam s) =
     filter (\<lambda>b. \<not> ((\<exists>wall \<in> set (walls s). \<not> isLow wall \<and>
                        pointDistance (position b) (closestPoint (position b) wall) < radius b) \<or>
                     max w h * 1.5 \<le> pointDistance (position b) cam))
       (map integrateBullet (bullets s)) \<and>
   (\<forall>lows ds. (\<forall>wall \<in> set lows. isLow wall) \<longrightarrow>
      bullets (updateBullets f w h cam (s\<lparr>walls := lows @ walls s, decorations := ds\<rparr>)) =
      bullets (updateBullets f w h cam s))"
proof -
  have pred: "(\<not> list_ex (checkBulletWallCollision b) (ws @ walls s) \<and>
               pointDistance (position b) cam < max w h * 1.5) =
        (\<not> ((\<exists>wall \<in> set (walls s). \<not> isLow wall \<and>
                        pointDistance (position b) (closestPoint (position b) wall) < radius b) \<or>
                     max w h * 1.5 \<le> pointDistance (position b) cam))"
    if "b \<in> set (map integrateBullet (bullets s))" and "\<forall>wall \<in> set ws. isLow wall" for b ws
  proof -
    from that(1) assms have r: "0 \<le> radius b" by auto
    have "list_ex (checkBulletWallCollision b) (ws @ walls s) \<longleftrightarrow>
          (\<exists>wall \<in> set ws \<union> set (walls s). \<not> isLow wall \<and>
                        pointDistance (position b) (closestPoint (position b) wall) < radius b)"
      by (simp add: list_ex_iff checkBulletWallCollision_iff [OF r])
    also have "\<dots> \<longleftrightarrow> (\<exists>wall \<in> set (walls s). \<not> isLow wall \<and>
                        pointDistance (position b) (closestPoint (position b) wall) < radius b)"
      using that(2) by blast
    finally show ?thesis by auto
  qed
  have main: "bullets (updateBullets f w h cam (s\<lparr>walls := ws @ walls s, decorations := ds\<rparr>)) =
     filter (\<lambda>b. \<not> ((\<exists>wall \<in> set (walls s). \<not> isLow wall \<and>
                        pointDistance (position b) (closestPoint (position b) wall) < radius b) \<or>
                     max w h * 1.5 \<le> pointDistance (position b) cam))
       (map integrateBullet (bullets s))" if "\<forall>wall \<in> set ws. isLow wall" for ws ds
  proof -
    have "bullets (updateBullets f w h cam (s\<lparr>walls := ws @ walls s, decorations := ds\<rparr>)) =
      filter (\<lambda>b. \<not> list_ex (checkBulletWallCollision b) (ws @ walls s) \<and>
                 pointDistance (position b) cam < max w h * 1.5)
        (map integrateBullet (bullets s))"
      by (simp only: updateBullets_kept) simp
    also have "\<dots> = filter (\<lambda>b. \<not> ((\<exists>wall \<in> set (walls s). \<not> isLow wall \<and>
                        pointDistance (position b) (closestPoint (position b) wall) < radius b) \<or>
                     max w h * 1.5 \<le> pointDistance (position b) cam))
       (map integrateBullet (bullets s))"
      by (rule filter_cong [OF refl]) (rule pred [OF _ that])
    finally show ?thesis .
  qed
  have same: "s\<lparr>walls := [] @ walls s, decorations := decorations s\<rparr> = s" by simp
  from main [of "[]" "decorations s"] have first:
    "bullets (updateBullets f w h cam s) =
     filter (\<lambda>b. \<not> ((\<exists>wall \<in> set (walls s). \<not> isLow wall \<and>
                        pointDistance (position b) (closestPoint (position b) wall) < radius b) \<or>
                     max w h * 1.5 \<le> pointDistance (position b) cam))
       (map integrateBullet (bullets s))"
    unfolding same by simp
  show ?thesis
    using first main by simp
qed

lemma pointDistance_same_y:
  "vec_y p = vec_y q \<Longrightarrow> pointDistance p q = \<bar>vec_x p - vec_x q\<bar>"
  by (simp add: pointDistance_def)

text \<open>
  Three bullets on the x axis, a solid wall at \<open>[0, 10] \<times> [-10, 10]\<close> and a low wall at
  \<open>[90, 110] \<times> [-10, 10]\<close>, camera at the origin, canvas 800 by 600: the bullet that moves
  into the solid wall and the one 2000 away are destroyed, the one that moves into the low
  wall survives.
\<close>

theorem updateBullets_spec_witness:
  "0 \<le> radius (bulletAt (-7) 0) \<and> 0 \<le> radius (bulletAt 1988 0) \<and> 0 \<le> radius (bulletAt 88 0) \<and>
   bullets (updateBullets quietFrame 800 600 \<lparr>vec_x = 0, vec_y = 0\<rparr>
     (startWorld\<lparr>bullets := [bulletAt (-7) 0, bulletAt 1988 0, bulletAt 88 0],
                 walls := [\<lparr>wall_id = WallId 0, wall_x = 0, wall_y = -10, wall_width = 10,
                            wall_height = 20, isLow = False\<rparr>,
                           \<lparr>wall_id = WallId 1, wall_x = 90, wall_y = -10, wall_width = 20,
                            wall_height = 20, isLow = True\<rparr>]\<rparr>))
     = [integrateBullet (bulletAt 88 0)]"
proof -
  let ?w1 = "\<lparr>wall_id = WallId 0, wall_x = 0, wall_y = -10, wall_width = 10,
                            wall_height = 20, isLow = False\<rparr>"
  let ?w2 = "\<lparr>wall_id = WallId 1, wall_x = 90, wall_y = -10, wall_width = 20,
                            wall_height = 20, isLow = True\<rparr>"
  let ?s = "startWorld\<lparr>bullets := [bulletAt (-7) 0, bulletAt 1988 0, bulletAt 88 0], walls := [?w1, ?w2]\<rparr>"
  have h: "\<forall>b \<in> set (bullets ?s). 0 \<le> radius b"
    by (simp add: bulletAt_def)
  have p: "position (integrateBullet (bulletAt bx 0)) = \<lparr>vec_x = bx + 12, vec_y = 0\<rparr>"
          "radius (bulletAt bx 0) = 4" for bx
    by (simp_all add: integrateBullet_def bulletAt_def)
  have c: "closestPoint \<lparr>vec_x = 5, vec_y = 0\<rparr> ?w1 = \<lparr>vec_x = 5, vec_y = 0\<rparr>"
          "closestPoint \<lparr>vec_x = 2000, vec_y = 0\<rparr> ?w1 = \<lparr>vec_x = 10, vec_y = 0\<rparr>"
          "closestPoint \<lparr>vec_x = 100, vec_y = 0\<rparr> ?w1 = \<lparr>vec_x = 10, vec_y = 0\<rparr>"
    by (simp_all add: closestPoint_def)
  from updateBullets_spec [OF h, of quietFrame 800 600 "\<lparr>vec_x = 0, vec_y = 0\<rparr>"]
  have "bullets (updateBullets quietFrame 800 600 \<lparr>vec_x = 0, vec_y = 0\<rparr> ?s) = [integrateBullet (bulletAt 88 0)]"
    by (simp add: p c pointDistance_same_y)
  with h show ?thesis by simp
qed

lemma sqrt_1000000: "sqrt 1000000 = 1000"
  by (rule real_sqrt_unique) simp_all

lemma combatBullets_Nil [simp]: "combatBullets f [] es s = ([], es, s)"
  by simp

lemma bulletEnemyCombat_no_bullets:
  "bullets s = [] \<Longrightarrow> bullets (bulletEnemyCombat f s) = []"
  by (simp add: bulletEnemyCombat_def)

text \<open>
  Claim C5 as stated fails on an 800 by 600 canvas, whose diagonal is 1000: a bullet that
  ends 1300 from the camera focus, on a map without walls, is closer than 1.5 diagonals
  (1500) and touches no wall, yet it is destroyed, because 1300 is not below 1.5 times the
  larger canvas side (1200). The same in the whole frame.
\<close>

theorem bullet_despawns_within_diagonal:
  "walls (startWorld\<lparr>bullets := [bulletAt 1288 0]\<rparr>) = [] \<and>
   pointDistance (position (integrateBullet (bulletAt 1288 0))) \<lparr>vec_x = 0, vec_y = 0\<rparr>
     < 1.5 * sqrt (800 * 800 + 600 * 600) \<and>
   bullets (updateBullets quietFrame 800 600 \<lparr>vec_x = 0, vec_y = 0\<rparr>
             (startWorld\<lparr>bullets := [bulletAt 1288 0]\<rparr>)) = [] \<and>
   canvas quietFrame = Some (800, 600) \<and>
   cameraPos quietFrame (startWorld\<lparr>bullets := [bulletAt 1288 0]\<rparr>) = \<lparr>vec_x = 0, vec_y = 0\<rparr> \<and>
   bullets (gameLoop quietFrame (startWorld\<lparr>bullets := [bulletAt 1288 0]\<rparr>)) = []"
proof -
  let ?s = "startWorld\<lparr>bullets := [bulletAt 1288 0]\<rparr>"
  have p: "position (integrateBullet (bulletAt 1288 0)) = \<lparr>vec_x = 1300, vec_y = 0\<rparr>"
    by (simp add: integrateBullet_def bulletAt_def)
  have d: "pointDistance (position (integrateBullet (bulletAt 1288 0))) \<lparr>vec_x = 0, vec_y = 0\<rparr> = 1300"
    by (simp add: p pointDistance_same_y)
  have u: "bullets (updateBullets f 800 600 \<lparr>vec_x = 0, vec_y = 0\<rparr> s') = []"
    if "bullets s' = [bulletAt 1288 0]" for f s'
    by (simp add: updateBullets_kept that d)
  have f: "gameState quietFrame = PLAYING" "canvas quietFrame = Some (800, 600)"
    "spectatorTargetId quietFrame = None"
    by (simp_all add: quietFrame_def)
  have cam: "cameraPos quietFrame s' = position (player s')" for s'
    by (simp add: cameraPos_def f)
  have w: "walls startWorld = []" "position (player startWorld) = \<lparr>vec_x = 0, vec_y = 0\<rparr>"
    "hp (player startWorld) = 100"
    by (simp_all add: startWorld_def resetPlayer_def)
  let ?s3 = "shoot quietFrame (aimAngle quietFrame 800 600) (roundEndCheck quietFrame (movePlayer quietFrame ?s))"
  have nf: "\<not> fires quietFrame s'" for s'
    by (simp add: fires_def quietFrame_def)
  have s3: "?s3 = roundEndCheck quietFrame (movePlayer quietFrame ?s)"
    by (rule shoot_holds [OF nf])
  have b3: "bullets ?s3 = [bulletAt 1288 0]"
    unfolding s3 by simp
  have mp: "position (player (movePlayer quietFrame ?s)) = \<lparr>vec_x = 0, vec_y = 0\<rparr>"
    by (simp add: movePlayer_def Let_def case_prod_unfold startWorld_def resetPlayer_def
        quietFrame_def steerPlayer_def emit_def)
  have c3: "cameraPos quietFrame ?s3 = \<lparr>vec_x = 0, vec_y = 0\<rparr>"
    unfolding cam s3 using mp by simp
  have g: "bullets (gameLoop quietFrame ?s) = []"
    unfolding gameLoop_running [of quietFrame 800 600 ?s, OF disjI1 [OF f(1)] f(2)] c3
    by (simp add: f(1) bulletEnemyCombat_no_bullets u b3)
  have "(1300::real) < 1.5 * sqrt (800 * 800 + 600 * 600)"
    by (simp add: sqrt_1000000)
  with d u [of ?s] g show ?thesis
    by (simp add: w f cam)
qed

section \<open>Bullet against enemy\<close>

lemma bulletHitsEnemy_iff:
  "bulletHitsEnemy b e \<longleftrightarrow> pointDistance (position b) (position e) < radius b + radius e"
  by (simp add: bulletHitsEnemy_def pointDistance_def Let_def)

section \<open>Bullet damage within a frame\<close>

lemma bulletHitsEnemy_damage [simp]:
  "bulletHitsEnemy (b\<lparr>damage := d\<rparr>) e = bulletHitsEnemy b e"
  by (simp add: bulletHitsEnemy_def)

lemma combatEnemies_bullet:
  "fst (combatEnemies f b es s) = (if list_ex (bulletHitsEnemy b) es then b\<lparr>damage := 0\<rparr> else b)"
proof (induction es arbitrary: b s)
  case Nil
  show ?case by simp
next
  case (Cons e es)
  show ?case
  proof (cases "bulletHitsEnemy b e")
    case True
    then show ?thesis
      by (simp add: Let_def case_prod_unfold Cons.IH)
  next
    case False
    then show ?thesis
      by (simp add: Let_def case_prod_unfold Cons.IH)
  qed
qed

lemma combatEnemies_geometry:
  "map position (fst (snd (combatEnemies f b es s))) = map position es \<and>
   map radius (fst (snd (combatEnemies f b es s))) = map radius es"
  by (induction es arbitrary: b s) (simp_all add: Let_def case_prod_unfold)

lemma list_ex_bulletHitsEnemy_cong:
  "map position es' = map position es \<Longrightarrow> map radius es' = map radius es \<Longrightarrow>
   list_ex (bulletHitsEnemy b) es' = list_ex (bulletHitsEnemy b) es"
proof (induction es arbitrary: es')
  case Nil
  then show ?case by simp
next
  case (Cons e es)
  then obtain e' es'' where e: "es' = e' # es''" by (cases es') auto
  with Cons.prems have "position e' = position e" "radius e' = radius e"
    "map position es'' = map position es" "map radius es'' = map radius es"
    by simp_all
  with Cons.IH [of es''] show ?case
    by (simp add: e bulletHitsEnemy_def)
qed

lemma combatBullets_bullets:
  "fst (combatBullets f bs es s) =
     map (\<lambda>b. if list_ex (bulletHitsEnemy b) es then b\<lparr>damage := 0\<rparr> else b) bs"
proof (induction bs arbitrary: es s)
  case Nil
  show ?case by simp
next
  case (Cons b bs)
  let ?es1 = "fst (snd (combatEnemies f b es s))"
  let ?s1 = "snd (snd (combatEnemies f b es s))"
  have same: "list_ex (bulletHitsEnemy b') ?es1 = list_ex (bulletHitsEnemy b') es" for b'
    using combatEnemies_geometry [of f b es s] by (intro list_ex_bulletHitsEnemy_cong) simp_all
  have "fst (combatBullets f (b # bs) es s) =
          fst (combatEnemies f b es s) # fst (combatBullets f bs ?es1 ?s1)"
    by (simp add: case_prod_unfold Let_def)
  also have "\<dots> = (if list_ex (bulletHitsEnemy b) es then b\<lparr>damage := 0\<rparr> else b) #
                  map (\<lambda>b. if list_ex (bulletHitsEnemy b) ?es1 then b\<lparr>damage := 0\<rparr> else b) bs"
    by (simp only: combatEnemies_bullet Cons.IH)
  finally show ?case by (simp add: same)
qed

lemma bulletEnemyCombat_bullets:
  "bullets (bulletEnemyCombat f s) =
     map (\<lambda>b. if list_ex (bulletHitsEnemy b) (enemies s) then b\<lparr>damage := 0\<rparr> else b) (bullets s)"
  using combatBullets_bullets [of f "bullets s" "enemies s" s]
  by (simp add: bulletEnemyCombat_def case_prod_unfold Let_def)

lemma gameLoop_bullets:
  assumes "gameState f = PLAYING \<or> gameState f = SPECTATING" and "canvas f = Some (w, h)"
  shows "\<exists>cam ws es.
    bullets (gameLoop f s) =
      filter (\<lambda>b. 0 < damage b)
        (map (\<lambda>b. if list_ex (bulletHitsEnemy b) es then b\<lparr>damage := 0\<rparr> else b)
          (filter (\<lambda>b. \<not> list_ex (checkBulletWallCollision b) ws \<and>
                       pointDistance (position b) cam < max w h * 1.5)
            (map integrateBullet
              (bullets (shoot f (aimAngle f w h) (roundEndCheck f (movePlayer f s)))))))"
proof -
  let ?s3 = "shoot f (aimAngle f w h) (roundEndCheck f (movePlayer f s))"
  let ?s4 = "if gameState f = PLAYING
         then spawnHealthPack (time f) (spawnEnemy f w h (time f) (cameraPos f ?s3) ?s3)
         else spawnEnemy f w h (time f) (cameraPos f ?s3) ?s3"
  let ?s5 = "updateBullets f w h (cameraPos f ?s3) ?s4"
  have b4: "bullets ?s4 = bullets ?s3" by simp
  have "bullets (gameLoop f s) =
      filter (\<lambda>b. 0 < damage b)
        (map (\<lambda>b. if list_ex (bulletHitsEnemy b) (enemies (updateEnemies f ?s5)) then b\<lparr>damage := 0\<rparr> else b)
          (filter (\<lambda>b. \<not> list_ex (checkBulletWallCollision b) (walls ?s4) \<and>
                       pointDistance (position b) (cameraPos f ?s3) < max w h * 1.5)
            (map integrateBullet (bullets ?s3))))"
    unfolding gameLoop_running [OF assms]
    by (simp only: updateParticles_fields cleanup_fields healthPackPickup_fields
        bulletEnemyCombat_bullets updateEnemies_fields updateBullets_kept b4)
  then show ?thesis by blast
qed

lemma gameLoop_survivor:
  assumes r: "(gameState f = PLAYING \<or> gameState f = SPECTATING) \<and> canvas f = Some (w, h)"
      and m: "b' \<in> set (bullets (gameLoop f s))"
  shows "0 < damage b' \<and>
         (\<exists>b. b' = integrateBullet b \<and> damage b' = damage b \<and>
              (b \<in> set (bullets s) \<or>
               b = firedBullet f (aimAngle f w h) (player (movePlayer f s))))"
proof -
  let ?s1 = "roundEndCheck f (movePlayer f s)"
  from r gameLoop_bullets [of f w h s] obtain cam ws es where
    g: "bullets (gameLoop f s) =
      filter (\<lambda>b. 0 < damage b)
        (map (\<lambda>b. if list_ex (bulletHitsEnemy b) es then b\<lparr>damage := 0\<rparr> else b)
          (filter (\<lambda>b. \<not> list_ex (checkBulletWallCollision b) ws \<and>
                       pointDistance (position b) cam < max w h * 1.5)
            (map integrateBullet (bullets (shoot f (aimAngle f w h) ?s1)))))"
    by blast
  define C where "C = (\<lambda>b. if list_ex (bulletHitsEnemy b) es then b\<lparr>damage := 0\<rparr> else b)"
  define K where "K = (\<lambda>b. \<not> list_ex (checkBulletWallCollision b) ws \<and>
                       pointDistance (position b) cam < max w h * 1.5)"
  define B where "B = bullets (shoot f (aimAngle f w h) ?s1)"
  from g have g': "bullets (gameLoop f s) = filter (\<lambda>b. 0 < damage b) (map C (filter K (map integrateBullet B)))"
    by (simp only: C_def K_def B_def)
  from m have in_filter: "b' \<in> {b \<in> C ` {b \<in> integrateBullet ` set B. K b}. 0 < damage b}"
    unfolding g' by (simp only: set_filter set_map)
  then have pos: "0 < damage b'" by blast
  from in_filter obtain b1 where "b1 \<in> integrateBullet ` set B" and c0: "b' = C b1" by blast
  then have b1: "b1 \<in> set (map integrateBullet (bullets (shoot f (aimAngle f w h) ?s1)))"
    by (simp only: B_def set_map)
  from c0 have c: "b' = (if list_ex (bulletHitsEnemy b1) es then b1\<lparr>damage := 0\<rparr> else b1)"
    by (simp only: C_def)
  from c pos have same: "b' = b1" by (cases "list_ex (bulletHitsEnemy b1) es") simp_all
  from b1 obtain b where b: "b \<in> set (bullets (shoot f (aimAngle f w h) ?s1))" and i: "b1 = integrateBullet b"
    by auto
  have "b \<in> set (bullets s) \<or> b = firedBullet f (aimAngle f w h) (player (movePlayer f s))"
  proof (cases "fires f ?s1")
    case True
    with b show ?thesis by (simp add: shoot_fires) blast
  next
    case False
    then have "shoot f (aimAngle f w h) ?s1 = ?s1" by (rule shoot_holds)
    with b show ?thesis by simp
  qed
  with same i pos show ?thesis by auto
qed

text \<open>
  Claim C4. (1) The combat step changes a bullet in one way only: a bullet that overlaps
  some enemy (distance between the centres below the sum of the radii) gets damage exactly
  0, whatever the enemy's hp (also on overkill), and every other bullet is left as it is; so
  after the step each bullet's damage is its previous value or exactly 0, and a bullet with
  non-negative damage never gains damage. (2) The cleanup pass keeps exactly the bullets
  with positive damage. (3) Over a whole frame every surviving bullet has positive damage
  and is a bullet that was present at the start of the frame, or the one fired in this
  frame, changed in nothing but its integrated position: it still carries its original
  damage. (The steps between shooting and combat do not touch a bullet's damage; a frame
  that returns early changes nothing.) (4) Bullets are fired with damage 20, and if all
  bullets have damage 20 before a frame they all have it after the frame: starting from the
  empty list that \<open>initGame\<close> installs, every bullet that enters a frame has damage 20, so
  the non-negativity in (1) always holds.
\<close>

theorem bullet_damage_spec:
  "bullets (bulletEnemyCombat f s) =
     map (\<lambda>b. if (\<exists>e \<in> set (enemies s). bulletHitsEnemy b e) then b\<lparr>damage := 0\<rparr> else b) (bullets s) \<and>
   list_all2 (\<lambda>b b'. (damage b' = damage b \<or> damage b' = 0) \<and>
                       (0 \<le> damage b \<longrightarrow> damage b' \<le> damage b))
     (bullets s) (bullets (bulletEnemyCombat f s)) \<and>
   bullets (cleanup s) = filter (\<lambda>b. 0 < damage b) (bullets s) \<and>
   ((gameState f = PLAYING \<or> gameState f = SPECTATING) \<and> canvas f = Some (w, h) \<longrightarrow>
      (\<forall>b' \<in> set (bullets (gameLoop f s)).
          0 < damage b' \<and>
          (\<exists>b. b' = integrateBullet b \<and> damage b' = damage b \<and>
               (b \<in> set (bullets s) \<or>
                b = firedBullet f (aimAngle f w h) (player (movePlayer f s)))))) \<and>
   (\<not> ((gameState f = PLAYING \<or> gameState f = SPECTATING) \<and> canvas f \<noteq> None) \<longrightarrow>
      bullets (gameLoop f s) = bullets s) \<and>
   damage (firedBullet f aim p) = 20 \<and>
   ((\<forall>b \<in> set (bullets s). damage b = 20) \<longrightarrow>
      (\<forall>b' \<in> set (bullets (gameLoop f s)). damage b' = 20))"
proof (intro conjI impI ballI)
  show a: "bullets (bulletEnemyCombat f s) =
     map (\<lambda>b. if (\<exists>e \<in> set (enemies s). bulletHitsEnemy b e) then b\<lparr>damage := 0\<rparr> else b) (bullets s)"
    by (simp add: bulletEnemyCombat_bullets list_ex_iff)
  show "list_all2 (\<lambda>b b'. (damage b' = damage b \<or> damage b' = 0) \<and>
                       (0 \<le> damage b \<longrightarrow> damage b' \<le> damage b))
     (bullets s) (bullets (bulletEnemyCombat f s))"
    unfolding a by (simp add: list_all2_map2 list_all2_same)
  show "bullets (cleanup s) = filter (\<lambda>b. 0 < damage b) (bullets s)"
    by simp
  show "damage (firedBullet f aim p) = 20"
    by (simp add: firedBullet_def)
next
  fix b'
  assume r: "(gameState f = PLAYING \<or> gameState f = SPECTATING) \<and> canvas f = Some (w, h)"
    and m: "b' \<in> set (bullets (gameLoop f s))"
  from gameLoop_survivor [OF r m]
  show "0 < damage b'"
    and "\<exists>b. b' = integrateBullet b \<and> damage b' = damage b \<and>
               (b \<in> set (bullets s) \<or>
                b = firedBullet f (aimAngle f w h) (player (movePlayer f s)))"
    by simp_all
next
  assume "\<not> ((gameState f = PLAYING \<or> gameState f = SPECTATING) \<and> canvas f \<noteq> None)"
  then have "gameLoop f s = s" by (intro gameLoop_idle) auto
  then show "bullets (gameLoop f s) = bullets s" by simp
next
  fix b'
  assume inv: "\<forall>b \<in> set (bullets s). damage b = 20" and m: "b' \<in> set (bullets (gameLoop f s))"
  show "damage b' = 20"
  proof (cases "(gameState f = PLAYING \<or> gameState f = SPECTATING) \<and> canvas f \<noteq> None")
    case False
    then have "gameLoop f s = s" by (intro gameLoop_idle) auto
    with inv m show ?thesis by simp
  next
    case True
    then obtain w' h' where r: "(gameState f = PLAYING \<or> gameState f = SPECTATING) \<and> canvas f = Some (w', h')"
      by auto
    from gameLoop_survivor [OF r m] obtain b where "damage b' = damage b"
      and "b \<in> set (bullets s) \<or> b = firedBullet f (aimAngle f w' h') (player (movePlayer f s))"
      by blast
    with inv show ?thesis by (auto simp add: firedBullet_def)
  qed
qed

lemma updateEnemies_no_enemies:
  "enemies s = [] \<Longrightarrow> enemies (updateEnemies f s) = []"
  by (simp add: updateEnemies_def)

lemma spawnEnemy_too_early:
  "\<not> now - lastSpawnTime s > enemySpawnRate (levelConfig f) \<Longrightarrow> spawnEnemy f w h now cam s = s"
  by (simp add: spawnEnemy_def)

lemma roundEndCheck_world_fields [simp]:
  "walls (roundEndCheck f s) = walls s"
  "decorations (roundEndCheck f s) = decorations s"
  "healthPacks (roundEndCheck f s) = healthPacks s"
  "lastSpawnTime (roundEndCheck f s) = lastSpawnTime s"
  "lastHealthPackTime (roundEndCheck f s) = lastHealthPackTime s"
  "score (roundEndCheck f s) = score s"
  by (simp_all add: roundEndCheck_def Let_def)

lemma spawnHealthPack_walls [simp]:
  "walls (spawnHealthPack now s) = walls s"
proof -
  have "walls (healthPackAttempts n now s) = walls s" for n
    using healthPackAttempts_result [of n now s] by auto
  then show ?thesis by (simp add: spawnHealthPack_def)
qed

lemma quiet_frame_bullets:
  assumes "enemies s = []" and "walls s = []" and "decorations s = []"
      and "lastSpawnTime s = 0" and "position (player s) = \<lparr>vec_x = 0, vec_y = 0\<rparr>"
  shows "bullets (gameLoop quietFrame s) =
     filter (\<lambda>b. 0 < damage b)
       (filter (\<lambda>b. pointDistance (position b) \<lparr>vec_x = 0, vec_y = 0\<rparr> < 1200)
          (map integrateBullet (bullets s)))"
proof -
  have f: "gameState quietFrame = PLAYING" "canvas quietFrame = Some (800, 600)"
    "spectatorTargetId quietFrame = None" "time quietFrame = 100"
    "enemySpawnRate (levelConfig quietFrame) = 2000"
    by (simp_all add: quietFrame_def DEFAULT_LEVEL_CONFIG_def)
  let ?s1 = "roundEndCheck quietFrame (movePlayer quietFrame s)"
  let ?s3 = "shoot quietFrame (aimAngle quietFrame 800 600) ?s1"
  have nf: "\<not> fires quietFrame s'" for s'
    by (simp add: fires_def quietFrame_def)
  have s3: "?s3 = ?s1" by (rule shoot_holds [OF nf])
  have idle: "steerPlayer quietFrame [] p = p\<lparr>velocity := \<lparr>vec_x = 0, vec_y = 0\<rparr>,
      position := \<lparr>vec_x = vec_x (position p), vec_y = vec_y (position p)\<rparr>\<rparr>" for p
    by (rule steerPlayer_idle) (simp_all add: quietFrame_def)
  have mp: "position (player (movePlayer quietFrame s)) = \<lparr>vec_x = 0, vec_y = 0\<rparr>"
    by (simp add: movePlayer_def Let_def case_prod_unfold assms idle)
  have cam: "cameraPos quietFrame ?s3 = \<lparr>vec_x = 0, vec_y = 0\<rparr>"
    unfolding s3 by (simp add: cameraPos_def f mp)
  have early: "spawnEnemy quietFrame 800 600 (time quietFrame) c ?s1 = ?s1" for c
    by (rule spawnEnemy_too_early) (simp add: f assms)
  show ?thesis
    unfolding gameLoop_running [of quietFrame 800 600 s, OF disjI1 [OF f(1)] f(2)] cam
    unfolding s3 early
    by (simp add: f(1) bulletEnemyCombat_bullets updateBullets_kept updateEnemies_no_enemies assms)
qed

text \<open>
  Two bullets and one enemy: the bullet that overlaps the enemy is consumed (damage 0) and
  removed by the cleanup, the other keeps its damage 20 and stays. And a bullet flying
  through an empty frame of the reference scenario comes out moved, with its damage 20.
\<close>

theorem bullet_damage_spec_witness:
  "bullets (bulletEnemyCombat quietFrame
      (startWorld\<lparr>bullets := [bulletAt 0 0, bulletAt 100 0], enemies := [enemyAt 10 0]\<rparr>))
     = [(bulletAt 0 0)\<lparr>damage := 0\<rparr>, bulletAt 100 0] \<and>
   bullets (cleanup (bulletEnemyCombat quietFrame
      (startWorld\<lparr>bullets := [bulletAt 0 0, bulletAt 100 0], enemies := [enemyAt 10 0]\<rparr>)))
     = [bulletAt 100 0] \<and>
   damage (bulletAt 100 0) = 20 \<and>
   bullets (gameLoop quietFrame (startWorld\<lparr>bullets := [bulletAt 0 0]\<rparr>)) = [integrateBullet (bulletAt 0 0)] \<and>
   damage (integrateBullet (bulletAt 0 0)) = 20 \<and>
   0 < damage (integrateBullet (bulletAt 0 0))"
proof -
  let ?sc = "startWorld\<lparr>bullets := [bulletAt 0 0, bulletAt 100 0], enemies := [enemyAt 10 0]\<rparr>"
  let ?sf = "startWorld\<lparr>bullets := [bulletAt 0 0]\<rparr>"
  have hit: "bulletHitsEnemy (bulletAt 0 0) (enemyAt 10 0)" "\<not> bulletHitsEnemy (bulletAt 100 0) (enemyAt 10 0)"
    by (simp_all add: bulletHitsEnemy_iff pointDistance_same_y bulletAt_def enemyAt_def)
  have d: "damage (bulletAt px py) = 20" for px py
    by (simp add: bulletAt_def)
  have f: "gameState quietFrame = PLAYING" "canvas quietFrame = Some (800, 600)"
    by (simp_all add: quietFrame_def)
  note t1 = bullet_damage_spec [where f = quietFrame and s = ?sc and w = 800 and h = 600]
  note t2 = bullet_damage_spec [where f = quietFrame and s = "bulletEnemyCombat quietFrame ?sc" and w = 800 and h = 600]
  note t3 = bullet_damage_spec [where f = quietFrame and s = ?sf and w = 800 and h = 600]
  from t1 have a: "bullets (bulletEnemyCombat quietFrame ?sc) = [(bulletAt 0 0)\<lparr>damage := 0\<rparr>, bulletAt 100 0]"
    by (simp add: hit)
  from t2 have b: "bullets (cleanup (bulletEnemyCombat quietFrame ?sc)) = [bulletAt 100 0]"
    by (simp add: a d)
  have g: "bullets (gameLoop quietFrame ?sf) = [integrateBullet (bulletAt 0 0)]"
    by (simp add: quiet_frame_bullets startWorld_def resetPlayer_def pointDistance_same_y
        integrateBullet_def bulletAt_def)
  from t3 f have "\<forall>b' \<in> set (bullets (gameLoop quietFrame ?sf)). 0 < damage b'"
    by blast
  then have p: "0 < damage (integrateBullet (bulletAt 0 0))"
    unfolding g by simp
  have inv: "\<forall>b \<in> set (bullets ?sf). damage b = 20"
    by (simp add: d)
  from t3 inv have "\<forall>b' \<in> set (bullets (gameLoop quietFrame ?sf)). damage b' = 20"
    by blast
  then have q: "damage (integrateBullet (bulletAt 0 0)) = 20"
    unfolding g by simp
  from a b g p q show ?thesis by (simp add: d)
qed

section \<open>An enemy struck by a bullet\<close>

lemma bulletHitsEnemy_hp [simp]:
  "bulletHitsEnemy b (e\<lparr>enemy_hp := h\<rparr>) = bulletHitsEnemy b e"
  by (simp add: bulletHitsEnemy_def)

lemma creditKill_fields [simp]:
  "score (creditKill f e s) = score s + enemy_value e"
  "events (creditKill f e s) =
     events s @ [PlayEnemyDeath, SetScore (score s + enemy_value e)] @ (if hasOnKill f then [OnKill] else [])"
  by (simp_all add: creditKill_def)




lemma weakened_refl [simp]: "weakened es es"
  by (simp add: weakened_def list_all2_same)



























section \<open>Radii within a frame\<close>

lemma roundEndCheck_rng [simp]: "rng (roundEndCheck f s) = rng s"
  by (simp add: roundEndCheck_def Let_def)

lemma shoot_rng [simp]: "rng (shoot f aim s) = rng s"
  by (simp add: shoot_def Let_def)

lemma spawnEnemy_rng [simp]: "rng (spawnEnemy f w h now cam s) = rng s"
  by (simp add: spawnEnemy_def mathRandom_def Let_def)

lemma spawnHealthPack_rng [simp]: "rng (spawnHealthPack now s) = rng s"
  using healthPackAttempts_result [of 10 now s] by (auto simp add: spawnHealthPack_def)

lemma filterBullets_rng: "rng (snd (filterBullets f cam d bs s)) = rng s"
  by (induction bs arbitrary: s) (simp_all add: Let_def case_prod_unfold)

lemma updateBullets_rng [simp]: "rng (updateBullets f w h cam s) = rng s"
  using filterBullets_rng [of f cam "max w h * 1.5" "map integrateBullet (bullets s)" s]
  by (simp add: updateBullets_def Let_def case_prod_unfold)

lemma foldl_resolveDecorationCollision_moves:
  "\<exists>q. foldl (\<lambda>e decor. snd (resolveDecorationCollision e decor)) e ds = e\<lparr>position := q\<rparr>"
proof (induction ds arbitrary: e)
  case Nil
  have "foldl (\<lambda>e decor. snd (resolveDecorationCollision e decor)) e [] = e\<lparr>position := position e\<rparr>"
    by simp
  then show ?case by blast
next
  case (Cons d ds)
  obtain q where q: "snd (resolveDecorationCollision e d) = e\<lparr>position := q\<rparr>"
    using resolveDecorationCollision_moves by blast
  obtain q' where "foldl (\<lambda>e decor. snd (resolveDecorationCollision e decor)) (e\<lparr>position := q\<rparr>) ds
      = e\<lparr>position := q\<rparr>\<lparr>position := q'\<rparr>"
    using Cons.IH by blast
  then have "foldl (\<lambda>e decor. snd (resolveDecorationCollision e decor)) e (d # ds) = e\<lparr>position := q'\<rparr>"
    by (simp add: q)
  then show ?case by blast
qed

lemma steerEnemy_radius [simp]: "radius (steerEnemy s e) = radius e"
proof -
  let ?e1 = "if hp (player s) > 0 then
                (let dx = vec_x (position (player s)) - vec_x (position e);
                     dy = vec_y (position (player s)) - vec_y (position e);
                     minDist = sqrt (dx * dx + dy * dy)
                 in if minDist > 0
                    then e\<lparr>velocity := \<lparr>vec_x = (dx / minDist) * enemy_speed e,
                                        vec_y = (dy / minDist) * enemy_speed e\<rparr>\<rparr>
                    else e)
              else e"
  let ?e2 = "?e1\<lparr>position := \<lparr>vec_x = vec_x (position ?e1) + vec_x (velocity ?e1),
                              vec_y = vec_y (position ?e1) + vec_y (velocity ?e1)\<rparr>\<rparr>"
  let ?e3 = "foldl resolveWallCollision ?e2 (walls s)"
  have r1: "radius ?e1 = radius e" by (simp add: Let_def)
  have r2: "radius ?e2 = radius e" using r1 by simp
  obtain q where "?e3 = ?e2\<lparr>position := q\<rparr>" using foldl_resolveWallCollision_moves by blast
  then have r3: "radius ?e3 = radius e" using r2 by simp
  obtain q' where "foldl (\<lambda>e decor. snd (resolveDecorationCollision e decor)) ?e3 (decorations s) = ?e3\<lparr>position := q'\<rparr>"
    using foldl_resolveDecorationCollision_moves by blast
  then have "radius (foldl (\<lambda>e decor. snd (resolveDecorationCollision e decor)) ?e3 (decorations s)) = radius e"
    using r3 by simp
  then show ?thesis
    unfolding steerEnemy_def Let_def by simp
qed

lemma updateEnemy_radius:
  "radius (fst (updateEnemy f e s)) = radius e \<and> rng (snd (updateEnemy f e s)) = rng s"
  by (simp add: updateEnemy_def Let_def)

lemma updateEnemiesLoop_radius:
  "map radius (fst (updateEnemiesLoop f es s)) = map radius es \<and>
   rng (snd (updateEnemiesLoop f es s)) = rng s"
proof (induction es arbitrary: s)
  case Nil
  show ?case by simp
next
  case (Cons e es)
  from updateEnemy_radius [of f e s] Cons.IH [of "snd (updateEnemy f e s)"]
  show ?case by (simp add: case_prod_unfold Let_def)
qed

lemma updateEnemies_radius [simp]:
  "map radius (enemies (updateEnemies f s)) = map radius (enemies s)"
  "rng (updateEnemies f s) = rng s"
  using updateEnemiesLoop_radius [of f "enemies s" s]
  by (simp_all add: updateEnemies_def case_prod_unfold Let_def)

lemma combatEnemies_rng: "rng (snd (snd (combatEnemies f b es s))) = rng s"
  by (induction es arbitrary: b s) (simp_all add: Let_def case_prod_unfold)

lemma combatBullets_radius:
  "map radius (fst (snd (combatBullets f bs es s))) = map radius es \<and>
   rng (snd (snd (combatBullets f bs es s))) = rng s"
proof (induction bs arbitrary: es s)
  case Nil
  show ?case by simp
next
  case (Cons b bs)
  from combatEnemies_geometry [of f b es s] combatEnemies_rng [of f b es s]
    Cons.IH [of "fst (snd (combatEnemies f b es s))" "snd (snd (combatEnemies f b es s))"]
  show ?case by (simp add: case_prod_unfold Let_def)
qed

lemma bulletEnemyCombat_radius [simp]:
  "map radius (enemies (bulletEnemyCombat f s)) = map radius (enemies s)"
  "rng (bulletEnemyCombat f s) = rng s"
  using combatBullets_radius [of f "bullets s" "enemies s" s]
  by (simp_all add: bulletEnemyCombat_def case_prod_unfold Let_def)

lemma pickupLoop_radius:
  "radius (player (snd (pickupLoop f packs s))) = radius (player s) \<and>
   rng (snd (pickupLoop f packs s)) = rng s"
  by (induction packs arbitrary: s) (simp_all add: Let_def case_prod_unfold)

lemma healthPackPickup_radius [simp]:
  "radius (player (healthPackPickup f s)) = radius (player s)"
  "rng (healthPackPickup f s) = rng s"
  using pickupLoop_radius [of f "healthPacks s" s]
  by (simp_all add: healthPackPickup_def case_prod_unfold Let_def)

lemma cleanup_rng [simp]: "rng (cleanup s) = rng s" "rng (updateParticles s) = rng s"
  by (simp_all add: cleanup_def updateParticles_def)

lemma spawnEnemy_radii:
  assumes "\<forall>i. 0 \<le> rng s i" and "\<forall>e \<in> set (enemies s). 12 \<le> radius e"
  shows "\<forall>e \<in> set (enemies (spawnEnemy f w h now cam s)). 12 \<le> radius e"
  using assms by (auto simp add: spawnEnemy_def mathRandom_def Let_def)

lemma radii_map:
  "map radius es' = map radius es \<Longrightarrow> (\<forall>e \<in> set es. (12::real) \<le> radius e) \<Longrightarrow>
   \<forall>e \<in> set es'. 12 \<le> radius e"
proof -
  assume m: "map radius es' = map radius es" and a: "\<forall>e \<in> set es. (12::real) \<le> radius e"
  have "radius ` set es' = radius ` set es"
    using m by (metis set_map)
  with a show ?thesis by (metis image_iff)
qed

text \<open>
  The radii over a frame: the player keeps its radius, the random source is not written,
  and, the random values being non-negative, enemies of radius at least 12 stay so (a
  spawned enemy has radius \<open>12 + 8 * random\<close>).
\<close>

lemma gameLoop_radii:
  "radius (player (gameLoop f s)) = radius (player s) \<and>
   rng (gameLoop f s) = rng s \<and>
   ((\<forall>i. 0 \<le> rng s i) \<and> (\<forall>e \<in> set (enemies s). 12 \<le> radius e) \<longrightarrow>
      (\<forall>e \<in> set (enemies (gameLoop f s)). 12 \<le> radius e))"
proof (cases "(gameState f = PLAYING \<or> gameState f = SPECTATING) \<and> canvas f \<noteq> None")
  case False
  then have "gameLoop f s = s" by (intro gameLoop_idle) auto
  then show ?thesis by simp
next
  case True
  then obtain w h where r: "gameState f = PLAYING \<or> gameState f = SPECTATING" "canvas f = Some (w, h)"
    by auto
  let ?s3 = "shoot f (aimAngle f w h) (roundEndCheck f (movePlayer f s))"
  let ?s4 = "spawnEnemy f w h (time f) (cameraPos f ?s3) ?s3"
  let ?s5 = "if gameState f = PLAYING then spawnHealthPack (time f) ?s4 else ?s4"
  let ?s6 = "updateBullets f w h (cameraPos f ?s3) ?s5"
  have g: "gameLoop f s =
    updateParticles (cleanup (healthPackPickup f (bulletEnemyCombat f (updateEnemies f ?s6))))"
    unfolding gameLoop_running [OF r] by (simp add: if_distrib [of "updateBullets f w h (cameraPos f ?s3)"])
  have p3: "radius (player ?s3) = radius (player s)" "rng ?s3 = rng s" "enemies ?s3 = enemies s"
    by simp_all
  have p5: "radius (player ?s5) = radius (player s)" "rng ?s5 = rng s" "enemies ?s5 = enemies ?s4"
    using p3 by simp_all
  have p6: "radius (player ?s6) = radius (player s)" "rng ?s6 = rng s" "enemies ?s6 = enemies ?s4"
    using p5 by simp_all
  have a: "radius (player (gameLoop f s)) = radius (player s)"
    unfolding g using p6(1) by simp
  have b: "rng (gameLoop f s) = rng s"
    unfolding g using p6(2) by simp
  have c: "\<forall>e \<in> set (enemies (gameLoop f s)). 12 \<le> radius e"
    if rnd: "\<forall>i. 0 \<le> rng s i" and en: "\<forall>e \<in> set (enemies s). 12 \<le> radius e"
  proof -
    from rnd p3(2) have "\<forall>i. 0 \<le> rng ?s3 i" by simp
    moreover from en p3(3) have "\<forall>e \<in> set (enemies ?s3). 12 \<le> radius e" by simp
    ultimately have "\<forall>e \<in> set (enemies ?s4). 12 \<le> radius e" by (rule spawnEnemy_radii)
    then have e6: "\<forall>e \<in> set (enemies ?s6). 12 \<le> radius e" by (simp only: p6(3))
    have "map radius (enemies (bulletEnemyCombat f (updateEnemies f ?s6))) = map radius (enemies ?s6)"
      by simp
    from radii_map [OF this e6]
    have "\<forall>e \<in> set (enemies (bulletEnemyCombat f (updateEnemies f ?s6))). 12 \<le> radius e" .
    then show ?thesis
      unfolding g by simp
  qed
  from a b c show ?thesis by blast
qed


section \<open>The player's health within a frame\<close>

lemma healthStep_refl: "healthStep s s"
  by (simp add: healthStep_def)

lemma healthStep_trans:
  assumes "healthStep s s1" and "healthStep s1 s2"
  shows "healthStep s s2"
  using assms unfolding healthStep_def by (auto; metis)

lemma healthStep_same:
  assumes "hp (player s') = hp (player s)" and "maxHp (player s') = maxHp (player s)"
      and "\<And>v. SetHealth v \<in> set (events s') \<longleftrightarrow> SetHealth v \<in> set (events s)"
  shows "healthStep s s'"
  using assms by (simp add: healthStep_def)

lemma movePlayer_health: "healthStep s (movePlayer f s)"
proof (cases "hp (player s) > 0 \<and> gameState f = PLAYING")
  case False
  then have "movePlayer f s = s" by (rule movePlayer_idle)
  then show ?thesis by (simp add: healthStep_refl)
next
  case True
  let ?pd = "playerDecorations (steerPlayer f (walls s) (player s)) False (decorations s)"
  have hp_pd: "hp (snd ?pd) = hp (player s)" and mx_pd: "maxHp (snd ?pd) = maxHp (player s)"
    by simp_all
  show ?thesis
    using True unfolding healthStep_def movePlayer_def Let_def case_prod_unfold
    by (simp add: hp_pd mx_pd)
qed

lemma updateEnemy_health: "healthStep s (snd (updateEnemy f e s))"
  unfolding healthStep_def updateEnemy_def Let_def
  by simp

lemma updateEnemiesLoop_health: "healthStep s (snd (updateEnemiesLoop f es s))"
proof (induction es arbitrary: s)
  case Nil
  show ?case by (simp add: healthStep_refl)
next
  case (Cons e es)
  have "snd (updateEnemiesLoop f (e # es) s) = snd (updateEnemiesLoop f es (snd (updateEnemy f e s)))"
    by (simp add: case_prod_unfold Let_def)
  with healthStep_trans [OF updateEnemy_health Cons.IH] show ?case by simp
qed

lemma updateEnemies_health: "healthStep s (updateEnemies f s)"
proof -
  have "healthStep (snd (updateEnemiesLoop f (enemies s) s)) (updateEnemies f s)"
    by (rule healthStep_same) (simp_all add: updateEnemies_def case_prod_unfold Let_def)
  with updateEnemiesLoop_health show ?thesis by (rule healthStep_trans)
qed

lemma pickupLoop_health:
  "maxHp (player (snd (pickupLoop f packs s))) = maxHp (player s) \<and>
   (hp (player (snd (pickupLoop f packs s))) = hp (player s) \<or>
    hp (player (snd (pickupLoop f packs s))) = maxHp (player s)) \<and>
   (\<forall>v. SetHealth v \<in> set (events (snd (pickupLoop f packs s))) \<longrightarrow>
        SetHealth v \<in> set (events s) \<or> v = maxHp (player s))"
proof (induction packs arbitrary: s)
  case Nil
  show ?case by simp
next
  case (Cons pack packs)
  let ?hit = "sqrt ((vec_x (position (player s)) - vec_x (position pack)) *
                    (vec_x (position (player s)) - vec_x (position pack)) +
                    (vec_y (position (player s)) - vec_y (position pack)) *
                    (vec_y (position (player s)) - vec_y (position pack)))
              < radius (player s) + radius pack"
  let ?s1 = "createParticles f (vec_x (position pack)) (vec_y (position pack)) ''#22c55e'' 10
               (emit (SetHealth (maxHp (player s))) (s\<lparr>player := (player s)\<lparr>hp := maxHp (player s)\<rparr>\<rparr>))"
  show ?case
  proof (cases ?hit)
    case True
    then have u: "snd (pickupLoop f (pack # packs) s) = snd (pickupLoop f packs ?s1)"
      by (simp add: Let_def)
    from Cons.IH [of ?s1] show ?thesis
      unfolding u by auto
  next
    case False
    then have u: "snd (pickupLoop f (pack # packs) s) = snd (pickupLoop f packs s)"
      by (simp add: Let_def case_prod_unfold)
    from Cons.IH [of s] show ?thesis
      unfolding u by simp
  qed
qed

lemma healthPackPickup_health: "healthStep s (healthPackPickup f s)"
proof (cases "hp (player s) > 0")
  case False
  then have "healthPackPickup f s = s" by (simp add: healthPackPickup_def)
  then show ?thesis by (simp add: healthStep_refl)
next
  case True
  then have u: "healthPackPickup f s =
      (snd (pickupLoop f (healthPacks s) s))\<lparr>healthPacks := fst (pickupLoop f (healthPacks s) s)\<rparr>"
    by (simp add: healthPackPickup_def case_prod_unfold Let_def)
  from pickupLoop_health [of f "healthPacks s" s] True show ?thesis
    unfolding u healthStep_def by auto
qed

lemma quiet_steps_health:
  "healthStep s (roundEndCheck f s)"
  "healthStep s (shoot f aim s)"
  "healthStep s (spawnEnemy f w h now cam s)"
  "healthStep s (spawnHealthPack now s)"
  "healthStep s (updateBullets f w h cam s)"
  "healthStep s (bulletEnemyCombat f s)"
  "healthStep s (cleanup s)"
  "healthStep s (updateParticles s)"
  by (rule healthStep_same; simp)+

lemma gameLoop_health: "healthStep s (gameLoop f s)"
proof (cases "(gameState f = PLAYING \<or> gameState f = SPECTATING) \<and> canvas f \<noteq> None")
  case False
  then have "gameLoop f s = s" by (intro gameLoop_idle) auto
  then show ?thesis by (simp add: healthStep_refl)
next
  case True
  then obtain w h where c: "canvas f = Some (w, h)" by auto
  from True have g: "gameState f = PLAYING \<or> gameState f = SPECTATING" by simp
  let ?s3 = "shoot f (aimAngle f w h) (roundEndCheck f (movePlayer f s))"
  let ?s4 = "if gameState f = PLAYING
         then spawnHealthPack (time f) (spawnEnemy f w h (time f) (cameraPos f ?s3) ?s3)
         else spawnEnemy f w h (time f) (cameraPos f ?s3) ?s3"
  have "healthStep s (movePlayer f s)" by (rule movePlayer_health)
  then have "healthStep s (roundEndCheck f (movePlayer f s))"
    by (rule healthStep_trans) (rule quiet_steps_health)
  then have s3: "healthStep s ?s3"
    by (rule healthStep_trans) (rule quiet_steps_health)
  then have s3e: "healthStep s (spawnEnemy f w h (time f) (cameraPos f ?s3) ?s3)"
    by (rule healthStep_trans) (rule quiet_steps_health)
  then have "healthStep s (spawnHealthPack (time f) (spawnEnemy f w h (time f) (cameraPos f ?s3) ?s3))"
    by (rule healthStep_trans) (rule quiet_steps_health)
  with s3e have "healthStep s ?s4" by simp
  then have "healthStep s (updateBullets f w h (cameraPos f ?s3) ?s4)"
    by (rule healthStep_trans) (rule quiet_steps_health)
  then have "healthStep s (updateEnemies f (updateBullets f w h (cameraPos f ?s3) ?s4))"
    by (rule healthStep_trans) (rule updateEnemies_health)
  then have "healthStep s (bulletEnemyCombat f (updateEnemies f (updateBullets f w h (cameraPos f ?s3) ?s4)))"
    by (rule healthStep_trans) (rule quiet_steps_health)
  then have "healthStep s (healthPackPickup f
      (bulletEnemyCombat f (updateEnemies f (updateBullets f w h (cameraPos f ?s3) ?s4))))"
    by (rule healthStep_trans) (rule healthPackPickup_health)
  then have "healthStep s (cleanup (healthPackPickup f
      (bulletEnemyCombat f (updateEnemies f (updateBullets f w h (cameraPos f ?s3) ?s4)))))"
    by (rule healthStep_trans) (rule quiet_steps_health)
  then have "healthStep s (updateParticles (cleanup (healthPackPickup f
      (bulletEnemyCombat f (updateEnemies f (updateBullets f w h (cameraPos f ?s3) ?s4))))))"
    by (rule healthStep_trans) (rule quiet_steps_health)
  then show ?thesis
    by (simp only: gameLoop_running [OF g c])
qed

text \<open>
  Claim C1 (as amended). Whenever the player's hp is at most \<open>maxHp\<close> before a frame (as it
  is after \<open>initGame\<close>, which sets both to 100), then after the frame it is still at most
  \<open>maxHp\<close>, which no step changes; every value the frame reports through \<open>setHealth\<close> lies
  in \<open>[0, maxHp]\<close>; and hp is not clamped at 0 but stays above \<open>-10\<close>: the cactus damage
  of 2 and the kamikaze damage of 10 are applied only to a player with positive hp, so the
  lethal hit can leave hp negative, and a player with \<open>hp \<le> 0\<close> keeps exactly that hp (no
  damage, no heal).
\<close>

theorem player_hp_bounds:
  "hp (resetPlayer cfg playerName spawnPos) = maxHp (resetPlayer cfg playerName spawnPos) \<and>
   (hp (player s) \<le> maxHp (player s) \<longrightarrow>
      hp (player (gameLoop f s)) \<le> maxHp (player (gameLoop f s)) \<and>
      maxHp (player (gameLoop f s)) = maxHp (player s) \<and>
      (- 10 < hp (player s) \<longrightarrow> - 10 < hp (player (gameLoop f s))) \<and>
      (hp (player s) \<le> 0 \<longrightarrow> hp (player (gameLoop f s)) = hp (player s)) \<and>
      (\<forall>v. SetHealth v \<in> set (events (gameLoop f s)) \<longrightarrow>
           SetHealth v \<in> set (events s) \<or> (0 \<le> v \<and> v \<le> maxHp (player s))))"
  using gameLoop_health [of s f] unfolding healthStep_def
  by (simp add: resetPlayer_def)

lemma spawnHealthPack_too_early:
  "\<not> now - lastHealthPackTime s > 30000 \<Longrightarrow> spawnHealthPack now s = s"
  by (simp add: spawnHealthPack_def HEALTH_PACK_INTERVAL_def)

lemma updateBullets_no_bullets:
  "bullets s = [] \<Longrightarrow> updateBullets f w h cam s = s"
  by (cases s) (simp add: updateBullets_def)

lemma quiet_frame_unfold:
  assumes "0 < hp (player s)" and "walls s = []" and "decorations s = []" and "bullets s = []"
      and "lastSpawnTime s = 0" and "lastHealthPackTime s = 0" and "lastUpdateEmit s = 0"
  shows "gameLoop quietFrame s =
    updateParticles (cleanup (healthPackPickup quietFrame (bulletEnemyCombat quietFrame
      (updateEnemies quietFrame
        ((emit (OnPlayerUpdate \<lparr>vec_x = vec_x (position (player s)), vec_y = vec_y (position (player s))\<rparr>)
            (s\<lparr>player := (player s)\<lparr>velocity := \<lparr>vec_x = 0, vec_y = 0\<rparr>,
                 position := \<lparr>vec_x = vec_x (position (player s)), vec_y = vec_y (position (player s))\<rparr>\<rparr>\<rparr>))
           \<lparr>lastUpdateEmit := 100\<rparr>)))))"
proof -
  have f: "gameState quietFrame = PLAYING" "canvas quietFrame = Some (800, 600)"
    "time quietFrame = 100" "enemySpawnRate (levelConfig quietFrame) = 2000"
    "hasOnPlayerUpdate quietFrame" "remotePlayers quietFrame = []"
    by (simp_all add: quietFrame_def DEFAULT_LEVEL_CONFIG_def)
  let ?p = "(player s)\<lparr>velocity := \<lparr>vec_x = 0, vec_y = 0\<rparr>,
                 position := \<lparr>vec_x = vec_x (position (player s)), vec_y = vec_y (position (player s))\<rparr>\<rparr>"
  let ?s1 = "(emit (OnPlayerUpdate \<lparr>vec_x = vec_x (position (player s)), vec_y = vec_y (position (player s))\<rparr>)
            (s\<lparr>player := ?p\<rparr>))\<lparr>lastUpdateEmit := 100\<rparr>"
  have idle: "steerPlayer quietFrame (walls s) (player s) = ?p"
    unfolding assms(2) by (rule steerPlayer_idle) (simp_all add: quietFrame_def)
  have pd: "playerDecorations (steerPlayer quietFrame (walls s) (player s)) False (decorations s) = (False, ?p)"
    by (simp add: assms(3) idle)
  have m: "movePlayer quietFrame s = ?s1"
    using movePlayer_no_hit [OF f(1) assms(1) pd] by (simp add: f assms(7))
  have r: "roundEndCheck quietFrame ?s1 = ?s1"
    by (simp add: roundEndCheck_def f)
  have nf: "\<not> fires quietFrame s'" for s'
    by (simp add: fires_def quietFrame_def)
  have sh: "shoot quietFrame aim ?s1 = ?s1" for aim
    by (rule shoot_holds [OF nf])
  have se: "spawnEnemy quietFrame 800 600 (time quietFrame) c ?s1 = ?s1" for c
    by (rule spawnEnemy_too_early) (simp add: f assms)
  have sp: "spawnHealthPack (time quietFrame) ?s1 = ?s1"
    by (rule spawnHealthPack_too_early) (simp add: f assms)
  have ub: "updateBullets quietFrame 800 600 c ?s1 = ?s1" for c
    by (rule updateBullets_no_bullets) (simp add: assms)
  show ?thesis
    unfolding gameLoop_running [of quietFrame 800 600 s, OF disjI1 [OF f(1)] f(2)] m r sh se
    by (simp only: f(1) simp_thms if_True sp ub)
qed

lemma kamikaze_frame_hp:
  "hp (player (gameLoop quietFrame
      (startWorld\<lparr>player := (player startWorld)\<lparr>hp := 8\<rparr>, enemies := [enemyAt 0 0]\<rparr>))) = - 2"
proof -
  let ?s = "startWorld\<lparr>player := (player startWorld)\<lparr>hp := 8\<rparr>, enemies := [enemyAt 0 0]\<rparr>"
  have a: "0 < hp (player ?s)" "walls ?s = []" "decorations ?s = []" "bullets ?s = []"
      "lastSpawnTime ?s = 0" "lastHealthPackTime ?s = 0" "lastUpdateEmit ?s = 0"
    by (simp_all add: startWorld_def)
  let ?s1 = "(emit (OnPlayerUpdate \<lparr>vec_x = vec_x (position (player ?s)), vec_y = vec_y (position (player ?s))\<rparr>)
            (?s\<lparr>player := (player ?s)\<lparr>velocity := \<lparr>vec_x = 0, vec_y = 0\<rparr>,
                 position := \<lparr>vec_x = vec_x (position (player ?s)), vec_y = vec_y (position (player ?s))\<rparr>\<rparr>\<rparr>))
           \<lparr>lastUpdateEmit := 100\<rparr>"
  have s1: "hp (player ?s1) = 8" "position (player ?s1) = \<lparr>vec_x = 0, vec_y = 0\<rparr>" "radius (player ?s1) = 15"
    "walls ?s1 = []" "decorations ?s1 = []" "enemies ?s1 = [enemyAt 0 0]"
    by (simp_all add: startWorld_def resetPlayer_def)
  have st: "steerEnemy ?s1 (enemyAt 0 0) = enemyAt 0 0"
    unfolding steerEnemy_def Let_def s1 by (simp add: enemyAt_def)
  have e: "hp (player (snd (updateEnemy quietFrame (enemyAt 0 0) ?s1))) = - 2"
    unfolding updateEnemy_def Let_def st s1 by (simp add: enemyAt_def s1)
  have u: "hp (player (updateEnemies quietFrame ?s1)) = - 2"
    unfolding updateEnemies_def s1 using e by (simp add: case_prod_unfold Let_def)
  have "hp (player (gameLoop quietFrame ?s)) =
        hp (player (healthPackPickup quietFrame (bulletEnemyCombat quietFrame (updateEnemies quietFrame ?s1))))"
    unfolding quiet_frame_unfold [OF a] by simp
  also have "\<dots> = - 2"
    using u by (simp add: healthPackPickup_def)
  finally show ?thesis .
qed

text \<open>
  A frame of the reference scenario in which a player with 8 hp is touched by an enemy: the
  theorem bounds the resulting hp between \<open>-10\<close> and 100 (it is \<open>-2\<close>), and the only new
  health report is the clamped value 0.
\<close>

theorem player_hp_bounds_witness:
  "hp (player (startWorld\<lparr>player := (player startWorld)\<lparr>hp := 8\<rparr>, enemies := [enemyAt 0 0]\<rparr>))
     \<le> maxHp (player (startWorld\<lparr>player := (player startWorld)\<lparr>hp := 8\<rparr>, enemies := [enemyAt 0 0]\<rparr>)) \<and>
   hp (player (gameLoop quietFrame
      (startWorld\<lparr>player := (player startWorld)\<lparr>hp := 8\<rparr>, enemies := [enemyAt 0 0]\<rparr>))) \<le> 100 \<and>
   - 10 < hp (player (gameLoop quietFrame
      (startWorld\<lparr>player := (player startWorld)\<lparr>hp := 8\<rparr>, enemies := [enemyAt 0 0]\<rparr>))) \<and>
   maxHp (player (gameLoop quietFrame
      (startWorld\<lparr>player := (player startWorld)\<lparr>hp := 8\<rparr>, enemies := [enemyAt 0 0]\<rparr>))) = 100 \<and>
   SetHealth (- 2) \<notin> set (events (gameLoop quietFrame
      (startWorld\<lparr>player := (player startWorld)\<lparr>hp := 8\<rparr>, enemies := [enemyAt 0 0]\<rparr>)))"
proof -
  let ?s = "startWorld\<lparr>player := (player startWorld)\<lparr>hp := 8\<rparr>, enemies := [enemyAt 0 0]\<rparr>"
  have h: "hp (player ?s) = 8" "maxHp (player ?s) = 100" "maxHp (player startWorld) = 100"
    "events ?s = [SetScore 0, SetHealth 100, SetAmmo 120]"
    "events startWorld = [SetScore 0, SetHealth 100, SetAmmo 120]"
    by (simp_all add: startWorld_def resetPlayer_def)
  from player_hp_bounds [of DEFAULT_LEVEL_CONFIG "''P1''" "\<lparr>vec_x = 0, vec_y = 0\<rparr>" ?s quietFrame]
  have "hp (player (gameLoop quietFrame ?s)) \<le> 100 \<and>
        - 10 < hp (player (gameLoop quietFrame ?s)) \<and>
        maxHp (player (gameLoop quietFrame ?s)) = 100 \<and>
        (\<forall>v. SetHealth v \<in> set (events (gameLoop quietFrame ?s)) \<longrightarrow> v = 100 \<or> (0 \<le> v \<and> v \<le> 100))"
    by (simp add: h)
  moreover from this have "SetHealth (- 2) \<notin> set (events (gameLoop quietFrame ?s))"
    by fastforce
  ultimately show ?thesis by (simp add: h)
qed

text \<open>
  Claim C1 as stated fails in that frame: the player enters it with hp 8, within
  \<open>[0, maxHp]\<close>, the enemy's kamikaze damage of 10 is subtracted without a clamp, and the
  player leaves the frame with hp \<open>-2\<close>, below 0.
\<close>

theorem player_hp_below_zero:
  "0 \<le> hp (player (startWorld\<lparr>player := (player startWorld)\<lparr>hp := 8\<rparr>, enemies := [enemyAt 0 0]\<rparr>)) \<and>
   hp (player (startWorld\<lparr>player := (player startWorld)\<lparr>hp := 8\<rparr>, enemies := [enemyAt 0 0]\<rparr>))
     \<le> maxHp (player (startWorld\<lparr>player := (player startWorld)\<lparr>hp := 8\<rparr>, enemies := [enemyAt 0 0]\<rparr>)) \<and>
   hp (player (gameLoop quietFrame
      (startWorld\<lparr>player := (player startWorld)\<lparr>hp := 8\<rparr>, enemies := [enemyAt 0 0]\<rparr>))) = - 2 \<and>
   hp (player (gameLoop quietFrame
      (startWorld\<lparr>player := (player startWorld)\<lparr>hp := 8\<rparr>, enemies := [enemyAt 0 0]\<rparr>))) < 0"
  by (simp add: kamikaze_frame_hp) (simp add: startWorld_def resetPlayer_def)

end
